(* ===== verification/Snoop_Prelude.thy ===== *)
theory Snoop_Prelude
  imports Complex_Main "HOL-Library.Word" "HOL-Library.Multiset"
begin

text \<open>
  Shared material of the hsa-snoop development: the machine types of the C++ code, the
  ordered dictionary that stands for \<^verbatim>\<open>std::map\<close>, little-endian reads of raw memory,
  C string searching, decimal and hexadecimal printing (\<^verbatim>\<open>std::to_string\<close>, \<^verbatim>\<open>%u\<close>,
  \<^verbatim>\<open>%lx\<close>) and their readers, and the lemmas about them that every component uses.
\<close>

unbundle bit_operations_syntax

section \<open>Machine types\<close>

type_synonym u8 = "8 word"
type_synonym u16 = "16 word"
type_synonym u32 = "32 word"
type_synonym u64 = "64 word"

text \<open>
  A C \<^verbatim>\<open>int\<close> is an \<^typ>\<open>int\<close>; where the code narrows to one, \<open>to_c_int\<close> does. A
  \<^verbatim>\<open>double\<close> number of seconds is an exact rational: rounding of double arithmetic is not
  modelled.
\<close>

type_synonym c_int = int
type_synonym seconds = rat
type_synonym bytes = "u8 list"

definition to_c_int :: "u64 \<Rightarrow> c_int" where
  "to_c_int v = sint (ucast v :: u32)"

definition c_int_to_u64 :: "c_int \<Rightarrow> u64" where
  "c_int_to_u64 i = word_of_int i"

named_theorems layout "sizes and offsets of packed memory layouts"
named_theorems word_nat "facts that move word arithmetic without wrap-around to nat"

section \<open>Words without wrap-around\<close>

lemma unat_bound: "unat (w :: 'a::len word) < 2 ^ LENGTH('a)"
  by simp

lemma unat_inc [word_nat]:
  fixes n w :: "'a::len word"
  assumes "n < w"
  shows "unat (n + 1) = Suc (unat n)"
proof -
  have "unat n < unat w"
    using assms by (simp add: word_less_nat_alt)
  then have "Suc (unat n) < 2 ^ LENGTH('a)"
    using unat_bound [of w] by linarith
  then show ?thesis
    by (simp add: unat_word_ariths)
qed

lemma unat_add_no_wrap [word_nat]:
  fixes a b :: "'a::len word"
  assumes "unat a + unat b < 2 ^ LENGTH('a)"
  shows "unat (a + b) = unat a + unat b"
  using assms by (simp add: unat_add_lem)

lemma unat_add_within:
  fixes n w l :: "'a::len word"
  assumes "n \<le> w" and "l \<le> w - n"
  shows "unat (n + l) = unat n + unat l" and "n + l \<le> w"
proof -
  have le: "unat n + unat l \<le> unat w"
    using assms by (simp add: word_le_nat_alt unat_sub)
  then have "unat n + unat l < 2 ^ LENGTH('a)"
    using unat_bound [of w] by linarith
  then show eq: "unat (n + l) = unat n + unat l"
    by (rule unat_add_no_wrap)
  show "n + l \<le> w"
    using le eq by (simp add: word_le_nat_alt)
qed

lemma unat_of_nat_small [word_nat]:
  "n < 2 ^ LENGTH('a::len) \<Longrightarrow> unat (of_nat n :: 'a word) = n"
  by (simp add: take_bit_nat_eq_self unat_of_nat)

lemma unat_ucast_wider [simp, word_nat]:
  assumes "LENGTH('a::len) \<le> LENGTH('b::len)"
  shows "unat (ucast (w :: 'a word) :: 'b word) = unat w"
proof -
  have "(2::nat) ^ LENGTH('a) \<le> 2 ^ LENGTH('b)"
    using assms by (intro power_increasing) simp_all
  then have "unat w < 2 ^ LENGTH('b)"
    using unat_bound [of w] by linarith
  then show ?thesis
    by (simp add: unsigned_ucast_eq take_bit_nat_eq_self)
qed

section \<open>Ordered dictionaries\<close>

text \<open>
  \<^verbatim>\<open>std::map\<close> is an association list kept in strictly increasing key order:
  \<^verbatim>\<open>begin()\<close> is its head, \<^verbatim>\<open>emplace\<close> inserts unless the key is present, and
  \<^verbatim>\<open>operator[]\<close> assignment overwrites.
\<close>

type_synonym ('k, 'v) odict = "('k \<times> 'v) list"

definition keys :: "('k, 'v) odict \<Rightarrow> 'k list" where
  "keys m = map fst m"

definition od_ok :: "('k::linorder, 'v) odict \<Rightarrow> bool" where
  "od_ok m = sorted_wrt (<) (keys m)"

fun od_emplace :: "'k::linorder \<Rightarrow> 'v \<Rightarrow> ('k, 'v) odict \<Rightarrow> ('k, 'v) odict" where
  "od_emplace k v [] = [(k, v)]"
| "od_emplace k v ((k', v') # m) =
     (if k < k' then (k, v) # (k', v') # m
      else if k = k' then (k', v') # m
      else (k', v') # od_emplace k v m)"

fun od_assign :: "'k::linorder \<Rightarrow> 'v \<Rightarrow> ('k, 'v) odict \<Rightarrow> ('k, 'v) odict" where
  "od_assign k v [] = [(k, v)]"
| "od_assign k v ((k', v') # m) =
     (if k < k' then (k, v) # (k', v') # m
      else if k = k' then (k, v) # m
      else (k', v') # od_assign k v m)"

lemma keys_simps [simp]:
  "keys [] = []" "keys ((k, v) # m) = k # keys m" "keys (m @ m') = keys m @ keys m'"
  by (simp_all add: keys_def)

lemma length_keys [simp]: "length (keys m) = length m"
  by (simp add: keys_def)

lemma od_ok_Nil [simp]: "od_ok []"
  by (simp add: od_ok_def)

lemma od_ok_Cons [simp]:
  "od_ok ((k, v) # m) \<longleftrightarrow> (\<forall>k' \<in> set (keys m). k < k') \<and> od_ok m"
  by (simp add: od_ok_def)

lemma od_ok_distinct: "od_ok m \<Longrightarrow> distinct (keys m)"
  by (simp add: od_ok_def strict_sorted_iff)

text \<open>A key above every key present is appended: this is how both ring parsers insert.\<close>

lemma od_emplace_above:
  "\<forall>k' \<in> set (keys m). k' < k \<Longrightarrow> od_emplace k v m = m @ [(k, v)]"
  by (induction m) auto

lemma od_ok_append1:
  "od_ok m \<Longrightarrow> \<forall>k' \<in> set (keys m). k' < k \<Longrightarrow> od_ok (m @ [(k, v)])"
  by (simp add: od_ok_def sorted_wrt_append)

lemma set_keys_emplace: "set (keys (od_emplace k v m)) = insert k (set (keys m))"
  by (induction k v m rule: od_emplace.induct) auto

lemma od_ok_emplace: "od_ok m \<Longrightarrow> od_ok (od_emplace k v m)"
  by (induction k v m rule: od_emplace.induct) (auto simp: set_keys_emplace)

lemma set_keys_assign: "set (keys (od_assign k v m)) = insert k (set (keys m))"
  by (induction k v m rule: od_assign.induct) auto

lemma od_ok_assign: "od_ok m \<Longrightarrow> od_ok (od_assign k v m)"
  by (induction k v m rule: od_assign.induct) (auto simp: set_keys_assign)

lemma map_of_not_key: "k \<notin> set (keys m) \<Longrightarrow> map_of m k = None"
  by (auto simp: keys_def map_of_eq_None_iff)

lemma map_of_emplace:
  "od_ok m \<Longrightarrow> map_of (od_emplace k v m) =
     (map_of m)(k \<mapsto> (case map_of m k of None \<Rightarrow> v | Some old \<Rightarrow> old))"
proof (induction k v m rule: od_emplace.induct)
  case (1 k v)
  then show ?case by simp
next
  case (2 k v k' v' m)
  have gt: "\<forall>x \<in> set (keys m). k' < x" and ok: "od_ok m"
    using "2.prems" by simp_all
  show ?case
  proof (cases "k < k'")
    case True
    with gt have "k \<notin> set (keys m)" by force
    with True show ?thesis by (auto simp: map_of_not_key)
  next
    case False
    with 2 show ?thesis by (auto simp: fun_upd_twist)
  qed
qed

lemma map_of_assign: "od_ok m \<Longrightarrow> map_of (od_assign k v m) = (map_of m)(k \<mapsto> v)"
  by (induction k v m rule: od_assign.induct) (auto simp: fun_upd_twist)

section \<open>Raw memory, little-endian\<close>

fun load_le :: "bytes \<Rightarrow> nat" where
  "load_le [] = 0"
| "load_le (b # bs) = unat b + 256 * load_le bs"

fun le_bytes :: "nat \<Rightarrow> nat \<Rightarrow> bytes" where
  "le_bytes 0 v = []"
| "le_bytes (Suc n) v = of_nat (v mod 256) # le_bytes n (v div 256)"

text \<open>\<open>field_at off n raw\<close> reads the \<open>n\<close>-byte unsigned field at byte offset \<open>off\<close>.\<close>

definition field_at :: "nat \<Rightarrow> nat \<Rightarrow> bytes \<Rightarrow> nat" where
  "field_at off n raw = load_le (take n (drop off raw))"

fun dwords_of :: "bytes \<Rightarrow> u32 list" where
  "dwords_of (a # b # c # d # bs) = of_nat (load_le [a, b, c, d]) # dwords_of bs"
| "dwords_of _ = []"

definition bytes_of_dword :: "u32 \<Rightarrow> bytes" where
  "bytes_of_dword w = le_bytes 4 (unat w)"

lemma length_le_bytes [simp, layout]: "length (le_bytes n v) = n"
  by (induction n arbitrary: v) auto

lemma load_le_bytes: "load_le (le_bytes n v) = v mod 256 ^ n"
proof (induction n arbitrary: v)
  case 0
  then show ?case by simp
next
  case (Suc n)
  have "unat (of_nat (v mod 256) :: u8) = v mod 256"
    by (simp add: unat_of_nat take_bit_nat_def)
  with Suc show ?case
    by (simp add: mod_mult2_eq)
qed

lemma load_le_bytes_word [simp]:
  "LENGTH('a::len) \<le> 8 * n \<Longrightarrow> of_nat (load_le (le_bytes n (unat (w :: 'a word)))) = w"
proof -
  assume "LENGTH('a) \<le> 8 * n"
  then have "(2::nat) ^ LENGTH('a) \<le> 256 ^ n"
    using power_increasing [of "LENGTH('a)" "8 * n" "2::nat"] by (simp add: power_mult)
  then have "unat w < 256 ^ n"
    using unat_bound [of w] by linarith
  then show ?thesis by (simp add: load_le_bytes)
qed

lemma bytes_of_dword_cases:
  obtains a b c d where "bytes_of_dword w = [a, b, c, d]" and "of_nat (load_le [a, b, c, d]) = w"
proof -
  have "length (bytes_of_dword w) = 4" by (simp add: bytes_of_dword_def)
  then obtain a b c d where e: "bytes_of_dword w = [a, b, c, d]"
    by (auto simp only: length_Suc_conv numeral_eq_Suc length_0_conv pred_numeral_simps
        eval_nat_numeral BitM.simps)
  have "of_nat (load_le (bytes_of_dword w)) = w"
    unfolding bytes_of_dword_def by (rule load_le_bytes_word) simp
  with e show ?thesis by (intro that) simp_all
qed

lemma dwords_of_bytes: "dwords_of (concat (map bytes_of_dword ws)) = ws"
proof (induction ws)
  case (Cons w ws)
  obtain a b c d where "bytes_of_dword w = [a, b, c, d]" "of_nat (load_le [a, b, c, d]) = w"
    by (rule bytes_of_dword_cases)
  with Cons show ?case by (simp del: load_le.simps)
qed simp

lemma length_bytes_of_dwords [layout]: "length (concat (map bytes_of_dword ws)) = 4 * length ws"
  by (induction ws) (auto simp: bytes_of_dword_def)

section \<open>C strings\<close>

text \<open>\<^verbatim>\<open>std::string::find\<close>: \<open>None\<close> is \<^verbatim>\<open>npos\<close>.\<close>

fun find_from_start :: "string \<Rightarrow> string \<Rightarrow> nat option" where
  "find_from_start needle [] = (if needle = [] then Some 0 else None)"
| "find_from_start needle (c # cs) =
     (if take (length needle) (c # cs) = needle then Some 0
      else map_option Suc (find_from_start needle cs))"

definition str_find :: "string \<Rightarrow> string \<Rightarrow> nat \<Rightarrow> nat option" where
  "str_find hay needle pos =
     (if length hay < pos then None
      else map_option (\<lambda>i. pos + i) (find_from_start needle (drop pos hay)))"

definition contains :: "string \<Rightarrow> string \<Rightarrow> bool" where
  "contains hay needle = (str_find hay needle 0 \<noteq> None)"

text \<open>\<^verbatim>\<open>rfind(c, pos)\<close>: the last occurrence at an index at most \<open>pos\<close>.\<close>

fun last_index :: "char \<Rightarrow> string \<Rightarrow> nat option" where
  "last_index c [] = None"
| "last_index c (x # xs) =
     (case last_index c xs of Some i \<Rightarrow> Some (Suc i) | None \<Rightarrow> if x = c then Some 0 else None)"

definition str_rfind :: "string \<Rightarrow> char \<Rightarrow> nat \<Rightarrow> nat option" where
  "str_rfind s c pos = last_index c (take (Suc pos) s)"

definition starts_with :: "string \<Rightarrow> string \<Rightarrow> bool" where
  "starts_with s p = (take (length p) s = p)"

lemma find_from_start_Some:
  "find_from_start needle s = Some i \<Longrightarrow>
     i + length needle \<le> length s \<and> take (length needle) (drop i s) = needle"
proof (induction needle s arbitrary: i rule: find_from_start.induct)
  case (1 needle)
  then show ?case by (simp split: if_splits)
next
  case (2 needle c cs)
  show ?case
  proof (cases "take (length needle) (c # cs) = needle")
    case True
    with "2.prems" have "i = 0" by simp
    have "length (take (length needle) (c # cs)) = length needle" using True by simp
    then have "length needle \<le> length (c # cs)" by simp
    with True \<open>i = 0\<close> show ?thesis by simp
  next
    case False
    with "2.prems" "2.IH" show ?thesis by auto
  qed
qed

lemma last_index_Some: "last_index c s = Some i \<Longrightarrow> i < length s \<and> s ! i = c"
  by (induction s arbitrary: i) (auto split: option.splits if_splits)

lemma last_index_None: "last_index c s = None \<longleftrightarrow> c \<notin> set s"
  by (induction s) (auto split: option.splits)

section \<open>Numbers as text\<close>

definition digit_char :: "nat \<Rightarrow> char" where
  "digit_char d = ''0123456789abcdef'' ! d"

definition char_digit :: "char \<Rightarrow> nat option" where
  "char_digit c =
     (let n = of_char c :: nat in
      if 48 \<le> n \<and> n \<le> 57 then Some (n - 48)
      else if 97 \<le> n \<and> n \<le> 102 then Some (n - 87)
      else if 65 \<le> n \<and> n \<le> 70 then Some (n - 55)
      else None)"

fun show_radix :: "nat \<Rightarrow> nat \<Rightarrow> string" where
  "show_radix b n =
     (if n < b \<or> b < 2 then [digit_char n]
      else show_radix b (n div b) @ [digit_char (n mod b)])"

declare show_radix.simps [simp del]

definition show_dec :: "nat \<Rightarrow> string" where
  "show_dec n = show_radix 10 n"

definition show_hex :: "nat \<Rightarrow> string" where
  "show_hex n = show_radix 16 n"

definition show_int :: "int \<Rightarrow> string" where
  "show_int i = (if i < 0 then ''-'' @ show_dec (nat (- i)) else show_dec (nat i))"

text \<open>The longest run of digits of base \<open>b\<close>: its value and what follows.\<close>

fun read_digits :: "nat \<Rightarrow> nat \<Rightarrow> string \<Rightarrow> nat \<times> string" where
  "read_digits b acc [] = (acc, [])"
| "read_digits b acc (c # cs) =
     (case char_digit c of
        Some d \<Rightarrow> if d < b then read_digits b (acc * b + d) cs else (acc, c # cs)
      | None \<Rightarrow> (acc, c # cs))"

lemma char_digit_digit_char [simp]: "d < 16 \<Longrightarrow> char_digit (digit_char d) = Some d"
proof -
  assume "d < 16"
  then have "d \<in> set [0..<16]" by simp
  then show ?thesis
    by (auto simp: upt_rec digit_char_def char_digit_def Let_def)
qed

lemma read_show_radix:
  "2 \<le> b \<Longrightarrow> b \<le> 16 \<Longrightarrow> read_digits b 0 (show_radix b n @ rest) = read_digits b n rest"
proof (induction b n arbitrary: rest rule: show_radix.induct)
  case (1 b n)
  show ?case
  proof (cases "n < b")
    case True
    with "1.prems" show ?thesis by (simp add: show_radix.simps [of b n])
  next
    case False
    have "read_digits b 0 (show_radix b n @ rest)
        = read_digits b (n div b) (digit_char (n mod b) # rest)"
      using False "1.prems" "1.IH" [of "digit_char (n mod b) # rest"]
      by (simp add: show_radix.simps [of b n])
    also have "\<dots> = read_digits b n rest"
    proof -
      have "n mod b < b" using "1.prems" by simp
      then have "char_digit (digit_char (n mod b)) = Some (n mod b)"
        using "1.prems" by (intro char_digit_digit_char) linarith
      with \<open>n mod b < b\<close> show ?thesis by simp
    qed
    finally show ?thesis .
  qed
qed

lemma show_radix_nonempty [simp]: "show_radix b n \<noteq> []"
  by (simp add: show_radix.simps [of b n])

lemma digits_of_show_radix:
  "2 \<le> b \<Longrightarrow> b \<le> 16 \<Longrightarrow> c \<in> set (show_radix b n) \<Longrightarrow> \<exists>d < b. c = digit_char d"
proof (induction b n rule: show_radix.induct)
  case (1 b n)
  have "n mod b < b" using "1.prems" by simp
  then have "\<exists>d < b. digit_char (n mod b) = digit_char d" by blast
  with 1 show ?case
    by (cases "n < b") (auto simp: show_radix.simps [of b n])
qed

section \<open>Reading numbers the way the C and C++ libraries do\<close>

definition c_isspace :: "char \<Rightarrow> bool" where
  "c_isspace c = (let n = of_char c :: nat in n = 32 \<or> (9 \<le> n \<and> n \<le> 13))"

fun take_sign :: "string \<Rightarrow> bool \<times> string" where
  "take_sign (c # cs) =
     (if c = CHR ''-'' then (True, cs) else if c = CHR ''+'' then (False, cs)
      else (False, c # cs))"
| "take_sign [] = (False, [])"

text \<open>
  \<^verbatim>\<open>strtoull(s, nullptr, base)\<close>: base 0 reads a \<^verbatim>\<open>0x\<close> or \<^verbatim>\<open>0\<close> prefix, the value
  saturates at \<^verbatim>\<open>ULLONG_MAX\<close>, a minus sign negates modulo \<open>2\<^sup>6\<^sup>4\<close>.
\<close>

definition hex_prefix :: "string \<Rightarrow> bool" where
  "hex_prefix s =
     (case s of a # b # c # _ \<Rightarrow>
        a = CHR ''0'' \<and> (b = CHR ''x'' \<or> b = CHR ''X'') \<and> char_digit c \<noteq> None
      | _ \<Rightarrow> False)"

definition strtoull :: "nat \<Rightarrow> string \<Rightarrow> u64" where
  "strtoull base s =
     (case take_sign (dropWhile c_isspace s) of (neg, ds) \<Rightarrow>
       let hex = (base = 0 \<or> base = 16) \<and> hex_prefix ds;
           b = (if base \<noteq> 0 then base
                else if hex then 16
                else if starts_with ds ''0'' then 8 else 10);
           v = fst (read_digits b 0 (if hex then drop 2 ds else ds))
       in if 2 ^ 64 \<le> v then - 1
          else if neg then - of_nat v else of_nat v)"

text \<open>\<^verbatim>\<open>atoi\<close> as glibc has it: \<^verbatim>\<open>strtol\<close> in base 10, narrowed to \<^verbatim>\<open>int\<close>.\<close>

definition atoi :: "string \<Rightarrow> c_int" where
  "atoi s =
     (case take_sign (dropWhile c_isspace s) of (neg, ds) \<Rightarrow>
       let v = int (fst (read_digits 10 0 ds));
           l = (if neg then max (- (2 ^ 63)) (- v) else min (2 ^ 63 - 1) v)
       in to_c_int (word_of_int l))"

text \<open>
  \<^verbatim>\<open>stream >> n\<close> for an unsigned \<open>n\<close> of \<open>w\<close> bits, and \<^verbatim>\<open>stream >> word\<close>: \<open>None\<close> sets
  the fail bit, otherwise the value and what is left of the stream.
\<close>

definition extract_unsigned :: "nat \<Rightarrow> string \<Rightarrow> (nat \<times> string) option" where
  "extract_unsigned w s =
     (case take_sign (dropWhile c_isspace s) of (neg, ds) \<Rightarrow>
       case read_digits 10 0 ds of (v, rest) \<Rightarrow>
         if rest = ds then None
         else if 2 ^ w \<le> v then None
         else Some (if neg \<and> v \<noteq> 0 then 2 ^ w - v else v, rest))"

definition extract_word :: "string \<Rightarrow> (string \<times> string) option" where
  "extract_word s =
     (let t = dropWhile c_isspace s in
      if t = [] then None
      else Some (takeWhile (\<lambda>c. \<not> c_isspace c) t, dropWhile (\<lambda>c. \<not> c_isspace c) t))"

lemma extract_word_shorter: "extract_word s = Some (w, r) \<Longrightarrow> length r < length s"
proof -
  assume e: "extract_word s = Some (w, r)"
  then have ne: "dropWhile c_isspace s \<noteq> []"
    and r: "r = dropWhile (\<lambda>c. \<not> c_isspace c) (dropWhile c_isspace s)"
    by (auto simp: extract_word_def Let_def split: if_splits)
  have "\<not> c_isspace (hd (dropWhile c_isspace s))"
    using ne by (rule hd_dropWhile)
  then have "length r < length (dropWhile c_isspace s)"
    using ne r by (cases "dropWhile c_isspace s") (auto simp: le_imp_less_Suc length_dropWhile_le)
  then show ?thesis using length_dropWhile_le [of c_isspace s] by linarith
qed

lemma read_digits_shorter: "length (snd (read_digits b acc s)) \<le> length s"
  by (induction b acc s rule: read_digits.induct) (auto split: option.splits)

lemma take_sign_shorter: "length (snd (take_sign s)) \<le> length s"
  by (cases s) auto

lemma extract_unsigned_shorter:
  "extract_unsigned w s = Some (n, r) \<Longrightarrow> length r \<le> length s"
proof -
  assume e: "extract_unsigned w s = Some (n, r)"
  obtain neg ds where d: "take_sign (dropWhile c_isspace s) = (neg, ds)" by force
  have "r = snd (read_digits 10 0 ds)"
    using e d by (auto simp: extract_unsigned_def split: prod.splits if_splits)
  then have "length r \<le> length ds" by (simp add: read_digits_shorter)
  also have "\<dots> \<le> length (dropWhile c_isspace s)"
    using take_sign_shorter [of "dropWhile c_isspace s"] d by simp
  also have "\<dots> \<le> length s" by (rule length_dropWhile_le)
  finally show ?thesis .
qed

text \<open>Printing then reading a number with \<^verbatim>\<open>strtoull\<close> gives it back.\<close>

lemma digit_char_plain:
  "d < 16 \<Longrightarrow> \<not> c_isspace (digit_char d) \<and> digit_char d \<noteq> CHR ''-'' \<and> digit_char d \<noteq> CHR ''+''"
proof -
  assume "d < 16"
  then have "d \<in> set [0..<16]" by simp
  then show ?thesis
    by (auto simp: upt_rec digit_char_def c_isspace_def Let_def)
qed

lemma show_radix_plain:
  assumes "2 \<le> b" "b \<le> 16"
  shows "take_sign (dropWhile c_isspace (show_radix b n @ rest)) = (False, show_radix b n @ rest)"
proof -
  obtain c cs where c: "show_radix b n = c # cs"
    using show_radix_nonempty by (cases "show_radix b n") auto
  have "c \<in> set (show_radix b n)" using c by simp
  then obtain d where "d < b" "c = digit_char d"
    using digits_of_show_radix assms by blast
  then have "\<not> c_isspace c \<and> c \<noteq> CHR ''-'' \<and> c \<noteq> CHR ''+''"
    using digit_char_plain [of d] assms by auto
  with c show ?thesis by simp
qed

lemma strtoull_show_dec:
  assumes "n < 2 ^ 64" and "rest = [] \<or> char_digit (hd rest) = None"
  shows "strtoull 10 (show_dec n @ rest) = of_nat n"
proof -
  have "read_digits 10 n rest = (n, rest)"
    using assms(2) by (cases rest) auto
  then show ?thesis
    using assms(1) by (simp add: strtoull_def show_dec_def show_radix_plain read_show_radix)
qed

end
