(* ===== verification/Aql.thy ===== *)
theory Aql
  imports Snoop_Prelude
begin

text \<open>
  \<^verbatim>\<open>src/aql.h\<close> and \<^verbatim>\<open>src/aql.cpp\<close>: the 64-byte AQL packets. The packed structs are
  records, read from and laid out into raw bytes at the offsets the compiler gives a
  \<^verbatim>\<open>#pragma pack(1)\<close> struct; \<open>parse_\<close> is the code's \<^verbatim>\<open>memcpy\<close> out of the slot.
\<close>

definition kPacketSize :: nat where
  "kPacketSize = 64"

section \<open>Packet types\<close>

text \<open>
  \<^verbatim>\<open>enum class PacketType : uint8_t\<close> can hold any byte: \<open>OtherPacket\<close> is a value that is
  none of the six enumerators.
\<close>

datatype PacketType =
  VendorSpecific | Invalid | KernelDispatch | BarrierAnd | AgentDispatch | BarrierOr
| OtherPacket u8

definition packet_type_of :: "u8 \<Rightarrow> PacketType" where
  "packet_type_of b =
     (if b = 0 then VendorSpecific
      else if b = 1 then Invalid
      else if b = 2 then KernelDispatch
      else if b = 3 then BarrierAnd
      else if b = 4 then AgentDispatch
      else if b = 5 then BarrierOr
      else OtherPacket b)"

fun packet_type_code :: "PacketType \<Rightarrow> u8" where
  "packet_type_code VendorSpecific = 0"
| "packet_type_code Invalid = 1"
| "packet_type_code KernelDispatch = 2"
| "packet_type_code BarrierAnd = 3"
| "packet_type_code AgentDispatch = 4"
| "packet_type_code BarrierOr = 5"
| "packet_type_code (OtherPacket b) = b"

fun PacketTypeName :: "PacketType \<Rightarrow> string" where
  "PacketTypeName VendorSpecific = ''vendor_specific''"
| "PacketTypeName Invalid = ''invalid''"
| "PacketTypeName KernelDispatch = ''kernel_dispatch''"
| "PacketTypeName BarrierAnd = ''barrier_and''"
| "PacketTypeName AgentDispatch = ''agent_dispatch''"
| "PacketTypeName BarrierOr = ''barrier_or''"
| "PacketTypeName (OtherPacket b) = ''unknown''"

lemma packet_type_code_of [simp]: "packet_type_code (packet_type_of b) = b"
  by (simp add: packet_type_of_def)

lemma packet_type_of_eq_iff [simp]: "packet_type_of a = packet_type_of b \<longleftrightarrow> a = b"
  by (metis packet_type_code_of)

section \<open>The packet header\<close>

definition HeaderType :: "u16 \<Rightarrow> PacketType" where
  "HeaderType header = packet_type_of (ucast (drop_bit 0 header AND 0xFF))"

definition HeaderBarrier :: "u16 \<Rightarrow> bool" where
  "HeaderBarrier header = (drop_bit 8 header AND 1 \<noteq> 0)"

definition GridDims :: "u16 \<Rightarrow> u32" where
  "GridDims setup = ucast (setup AND 3)"

lemma HeaderType_low_byte: "HeaderType header = packet_type_of (ucast header)"
proof -
  have mask: "(0xFF :: u16) = mask 8"
    by (simp add: mask_eq_exp_minus_1)
  have "header AND 0xFF = take_bit 8 header"
    unfolding mask by (simp only: take_bit_eq_mask)
  moreover have "ucast (take_bit 8 header) = (ucast header :: u8)"
    by (rule bit_word_eqI) (simp add: bit_simps)
  ultimately show ?thesis by (simp add: HeaderType_def)
qed

lemma HeaderBarrier_bit: "HeaderBarrier header = bit header 8"
  by (simp add: HeaderBarrier_def and_one_eq bit_iff_odd_drop_bit odd_iff_mod_2_eq_one)

lemma GridDims_le: "GridDims setup \<le> 3"
proof -
  have "setup AND 3 \<le> 3" by (rule word_and_le1)
  then have "unat (setup AND 3) \<le> 3" by (simp add: word_le_nat_alt)
  moreover have "unat (ucast (setup AND 3) :: u32) \<le> unat (setup AND 3)"
    by (simp add: unsigned_ucast_eq)
  ultimately show ?thesis
    unfolding GridDims_def word_le_nat_alt by simp
qed

section \<open>Kernel dispatch packets\<close>

record KernelDispatchPacket =
  kd_header :: u16
  kd_setup :: u16
  kd_workgroup_size :: "u16 \<times> u16 \<times> u16"
  kd_reserved0 :: u16
  kd_grid_size :: "u32 \<times> u32 \<times> u32"
  kd_private_segment_size :: u32
  kd_group_segment_size :: u32
  kd_kernel_object :: u64
  kd_kernarg_address :: u64
  kd_reserved2 :: u64
  kd_completion_signal :: u64

definition parse_dispatch :: "bytes \<Rightarrow> KernelDispatchPacket" where
  "parse_dispatch raw =
     \<lparr> kd_header = of_nat (field_at 0 2 raw),
       kd_setup = of_nat (field_at 2 2 raw),
       kd_workgroup_size = (of_nat (field_at 4 2 raw), of_nat (field_at 6 2 raw),
                            of_nat (field_at 8 2 raw)),
       kd_reserved0 = of_nat (field_at 10 2 raw),
       kd_grid_size = (of_nat (field_at 12 4 raw), of_nat (field_at 16 4 raw),
                       of_nat (field_at 20 4 raw)),
       kd_private_segment_size = of_nat (field_at 24 4 raw),
       kd_group_segment_size = of_nat (field_at 28 4 raw),
       kd_kernel_object = of_nat (field_at 32 8 raw),
       kd_kernarg_address = of_nat (field_at 40 8 raw),
       kd_reserved2 = of_nat (field_at 48 8 raw),
       kd_completion_signal = of_nat (field_at 56 8 raw) \<rparr>"

definition layout_dispatch :: "KernelDispatchPacket \<Rightarrow> bytes" where
  "layout_dispatch p =
     (case kd_workgroup_size p of (wx, wy, wz) \<Rightarrow> case kd_grid_size p of (gx, gy, gz) \<Rightarrow>
       le_bytes 2 (unat (kd_header p)) @ le_bytes 2 (unat (kd_setup p)) @
       le_bytes 2 (unat wx) @ le_bytes 2 (unat wy) @ le_bytes 2 (unat wz) @
       le_bytes 2 (unat (kd_reserved0 p)) @
       le_bytes 4 (unat gx) @ le_bytes 4 (unat gy) @ le_bytes 4 (unat gz) @
       le_bytes 4 (unat (kd_private_segment_size p)) @
       le_bytes 4 (unat (kd_group_segment_size p)) @
       le_bytes 8 (unat (kd_kernel_object p)) @ le_bytes 8 (unat (kd_kernarg_address p)) @
       le_bytes 8 (unat (kd_reserved2 p)) @ le_bytes 8 (unat (kd_completion_signal p)))"

text \<open>The \<^verbatim>\<open>static_assert\<close> of the header: every dispatch packet is 64 bytes.\<close>

lemma length_layout_dispatch [layout]: "length (layout_dispatch p) = kPacketSize"
  by (simp add: layout_dispatch_def kPacketSize_def split: prod.split)

section \<open>Barrier packets\<close>

record BarrierPacket =
  bp_header :: u16
  bp_reserved0 :: u16
  bp_reserved1 :: u32
  bp_dep_signal :: "u64 \<times> u64 \<times> u64 \<times> u64 \<times> u64"
  bp_reserved2 :: u64
  bp_completion_signal :: u64

definition layout_barrier :: "BarrierPacket \<Rightarrow> bytes" where
  "layout_barrier p =
     (case bp_dep_signal p of (d0, d1, d2, d3, d4) \<Rightarrow>
       le_bytes 2 (unat (bp_header p)) @ le_bytes 2 (unat (bp_reserved0 p)) @
       le_bytes 4 (unat (bp_reserved1 p)) @
       le_bytes 8 (unat d0) @ le_bytes 8 (unat d1) @ le_bytes 8 (unat d2) @
       le_bytes 8 (unat d3) @ le_bytes 8 (unat d4) @
       le_bytes 8 (unat (bp_reserved2 p)) @ le_bytes 8 (unat (bp_completion_signal p)))"

lemma length_layout_barrier [layout]: "length (layout_barrier p) = kPacketSize"
  by (simp add: layout_barrier_def kPacketSize_def split: prod.split)

record AgentDispatchPacket =
  ad_header :: u16
  ad_type :: u16
  ad_reserved0 :: u32
  ad_return_address :: u64
  ad_arg :: "u64 \<times> u64 \<times> u64 \<times> u64"
  ad_reserved2 :: u64
  ad_completion_signal :: u64

definition layout_agent :: "AgentDispatchPacket \<Rightarrow> bytes" where
  "layout_agent p =
     (case ad_arg p of (a0, a1, a2, a3) \<Rightarrow>
       le_bytes 2 (unat (ad_header p)) @ le_bytes 2 (unat (ad_type p)) @
       le_bytes 4 (unat (ad_reserved0 p)) @ le_bytes 8 (unat (ad_return_address p)) @
       le_bytes 8 (unat a0) @ le_bytes 8 (unat a1) @ le_bytes 8 (unat a2) @
       le_bytes 8 (unat a3) @
       le_bytes 8 (unat (ad_reserved2 p)) @ le_bytes 8 (unat (ad_completion_signal p)))"

lemma length_layout_agent [layout]: "length (layout_agent p) = kPacketSize"
  by (simp add: layout_agent_def kPacketSize_def split: prod.split)

section \<open>Reading a field back out of its layout\<close>

text \<open>
  Walking \<open>take\<close>/\<open>drop\<close> over a concatenation of fixed-width fields: the field at the
  front is read, the others are skipped.
\<close>

lemma field_at_here:
  "length xs = n \<Longrightarrow> field_at 0 n (xs @ ys) = load_le xs"
  by (simp add: field_at_def)

lemma field_at_whole: "length xs = n \<Longrightarrow> field_at 0 n xs = load_le xs"
  by (simp add: field_at_def)

lemma field_at_skip:
  "length xs \<le> off \<Longrightarrow> field_at off n (xs @ ys) = field_at (off - length xs) n ys"
  by (simp add: field_at_def)

lemmas field_walk = field_at_here field_at_whole field_at_skip

text \<open>\<^verbatim>\<open>memcpy\<close> of a slot that holds a dispatch packet gives the packet back.\<close>

lemma parse_layout_dispatch: "parse_dispatch (layout_dispatch p) = p"
  by (cases p) (auto simp: parse_dispatch_def layout_dispatch_def field_walk)

text \<open>
  The dispatch layout's \<^verbatim>\<open>kernel_object\<close> overlaps the fourth dependency signal of a
  barrier packet.
\<close>

lemma parse_dispatch_of_barrier:
  "bp_dep_signal p = (d0, d1, d2, d3, d4) \<Longrightarrow>
     kd_kernel_object (parse_dispatch (layout_barrier p)) = d3 \<and>
     kd_header (parse_dispatch (layout_barrier p)) = bp_header p"
  by (simp add: parse_dispatch_def layout_barrier_def field_walk)

end
