(* ===== verification/Sdma.thy ===== *)
theory Sdma
  imports Snoop_Prelude
begin

text \<open>
  \<^verbatim>\<open>src/sdma.h\<close> and \<^verbatim>\<open>src/sdma.cpp\<close>: the SDMA microcode. Versions and their detection
  from the KFD topology, header fields, the length of the packet at the front of a window
  of dwords, linear-copy byte counts and the display names. Opcodes and sub-opcodes are
  bytes, compared with the enumerators' values as the code's \<^verbatim>\<open>switch\<close> does.
\<close>

section \<open>Versions\<close>

datatype Version = Version_Unknown | V4 | V5 | V6 | V7

fun VersionName :: "Version \<Rightarrow> string" where
  "VersionName V4 = ''v4''"
| "VersionName V5 = ''v5''"
| "VersionName V6 = ''v6''"
| "VersionName V7 = ''v7''"
| "VersionName Version_Unknown = ''unknown''"

definition IsSupportedVersion :: "Version \<Rightarrow> bool" where
  "IsSupportedVersion v = (v = V4 \<or> v = V6 \<or> v = V7)"

definition VersionFromGfxTarget :: "u32 \<Rightarrow> Version" where
  "VersionFromGfxTarget gfx =
     (let g = gfx div 10000 in
      if g = 9 then V4 else if g = 10 then V5 else if g = 11 then V6
      else if g = 12 then V7 else Version_Unknown)"

text \<open>
  A directory of \<^verbatim>\<open>/sys/class/kfd/kfd/topology/nodes\<close> as \<^verbatim>\<open>DetectVersion\<close> sees it: its
  entry name and the text of its \<^verbatim>\<open>gpu_id\<close> and \<^verbatim>\<open>properties\<close> files (\<open>None\<close> when a file
  cannot be opened). \<open>None\<close> for the whole listing is a failed \<^verbatim>\<open>opendir\<close>.
\<close>

record topology_node =
  node_name :: string
  node_gpu_id :: "string option"
  node_properties :: "string option"

text \<open>\<^verbatim>\<open>while (properties >> key >> value)\<close>, stopping at \<^verbatim>\<open>gfx_target_version\<close>.\<close>

function find_gfx_target :: "string \<Rightarrow> u64 option" where
  "find_gfx_target s =
     (case extract_word s of
        None \<Rightarrow> None
      | Some (key, s') \<Rightarrow>
          (case extract_unsigned 64 s' of
             None \<Rightarrow> None
           | Some (v, s'') \<Rightarrow>
               if key = ''gfx_target_version'' then Some (of_nat v)
               else find_gfx_target s''))"
  by pat_completeness auto
termination
proof (relation "measure length", goal_cases)
  case 1
  show ?case by simp
next
  case (2 s p key s' q v s'')
  then have "length s' < length s" and "length s'' \<le> length s'"
    by (auto dest: extract_word_shorter extract_unsigned_shorter)
  then show ?case by simp
qed

declare find_gfx_target.simps [simp del]

fun detect_in_nodes :: "u32 \<Rightarrow> topology_node list \<Rightarrow> Version" where
  "detect_in_nodes gpu [] = Version_Unknown"
| "detect_in_nodes gpu (n # ns) =
     (if starts_with (node_name n) ''.'' then detect_in_nodes gpu ns
      else case Option.bind (node_gpu_id n) (extract_unsigned 32) of
        None \<Rightarrow> detect_in_nodes gpu ns
      | Some (nid, _) \<Rightarrow>
          if (of_nat nid :: u32) \<noteq> gpu then detect_in_nodes gpu ns
          else (case Option.bind (node_properties n) find_gfx_target of
                  None \<Rightarrow> Version_Unknown
                | Some value \<Rightarrow> VersionFromGfxTarget (ucast value)))"

definition DetectVersion :: "topology_node list option \<Rightarrow> u32 \<Rightarrow> Version" where
  "DetectVersion topology gpu =
     (case topology of None \<Rightarrow> Version_Unknown | Some nodes \<Rightarrow> detect_in_nodes gpu nodes)"

definition RingBytesToDwords :: "u64 \<Rightarrow> u64" where
  "RingBytesToDwords byte_offset = byte_offset div 4"

section \<open>Opcodes\<close>

abbreviation (input) "OP_NOP \<equiv> 0 :: u8"
abbreviation (input) "OP_COPY \<equiv> 1 :: u8"
abbreviation (input) "OP_WRITE \<equiv> 2 :: u8"
abbreviation (input) "OP_INDIRECT \<equiv> 4 :: u8"
abbreviation (input) "OP_FENCE \<equiv> 5 :: u8"
abbreviation (input) "OP_TRAP \<equiv> 6 :: u8"
abbreviation (input) "OP_SEM \<equiv> 7 :: u8"
abbreviation (input) "OP_POLL_REGMEM \<equiv> 8 :: u8"
abbreviation (input) "OP_COND_EXE \<equiv> 9 :: u8"
abbreviation (input) "OP_ATOMIC \<equiv> 10 :: u8"
abbreviation (input) "OP_CONST_FILL \<equiv> 11 :: u8"
abbreviation (input) "OP_PTEPDE \<equiv> 12 :: u8"
abbreviation (input) "OP_TIMESTAMP \<equiv> 13 :: u8"
abbreviation (input) "OP_SRBM_WRITE \<equiv> 14 :: u8"
abbreviation (input) "OP_PRE_EXE \<equiv> 15 :: u8"
abbreviation (input) "OP_VERSION_SPECIFIC_16 \<equiv> 16 :: u8"
abbreviation (input) "OP_GCR_REQ \<equiv> 17 :: u8"
abbreviation (input) "OP_V6_DUMMY_TRAP \<equiv> 32 :: u8"

abbreviation (input) "SUBOP_COPY_LINEAR \<equiv> 0 :: u8"
abbreviation (input) "SUBOP_COPY_TILED \<equiv> 1 :: u8"
abbreviation (input) "SUBOP_COPY_SOA \<equiv> 3 :: u8"
abbreviation (input) "SUBOP_COPY_LINEAR_SUB_WIND \<equiv> 4 :: u8"
abbreviation (input) "SUBOP_COPY_TILED_SUB_WIND \<equiv> 5 :: u8"
abbreviation (input) "SUBOP_COPY_T2T_SUB_WIND \<equiv> 6 :: u8"
abbreviation (input) "SUBOP_COPY_DIRTY_PAGE \<equiv> 7 :: u8"
abbreviation (input) "SUBOP_COPY_LINEAR_PHY \<equiv> 8 :: u8"
abbreviation (input) "SUBOP_COPY_LINEAR_BC \<equiv> 16 :: u8"
abbreviation (input) "SUBOP_COPY_TILED_BC \<equiv> 17 :: u8"
abbreviation (input) "SUBOP_COPY_LINEAR_SUB_WIND_BC \<equiv> 20 :: u8"
abbreviation (input) "SUBOP_COPY_TILED_SUB_WIND_BC \<equiv> 21 :: u8"
abbreviation (input) "SUBOP_COPY_T2T_SUB_WIND_BC \<equiv> 22 :: u8"
abbreviation (input) "SUBOP_COPY_LINEAR_SUB_WIND_LARGE \<equiv> 36 :: u8"

section \<open>Header fields\<close>

definition HeaderOp :: "u32 \<Rightarrow> u8" where
  "HeaderOp dw0 = ucast (dw0 AND 0xFF)"

definition HeaderSubOp :: "u32 \<Rightarrow> u8" where
  "HeaderSubOp dw0 = ucast (drop_bit 8 dw0 AND 0xFF)"

definition HeaderBroadcast :: "u32 \<Rightarrow> bool" where
  "HeaderBroadcast dw0 =
     (let sub = (ucast (drop_bit 8 dw0 AND 0xFF) :: u8) in
      if sub \<noteq> SUBOP_COPY_LINEAR \<and> sub \<noteq> SUBOP_COPY_TILED then False
      else dw0 AND push_bit 27 1 \<noteq> 0)"

definition NopCount :: "u32 \<Rightarrow> u32" where
  "NopCount dw0 = drop_bit 16 dw0 AND 0x3FFF"

definition kLinearCopyCountMask22 :: u32 where
  "kLinearCopyCountMask22 = 0x003FFFFF"

definition kLinearCopyCountMask30 :: u32 where
  "kLinearCopyCountMask30 = 0x3FFFFFFF"

definition kWriteCountMask20 :: u32 where
  "kWriteCountMask20 = 0x000FFFFF"

definition IsLinearCopy :: "Version \<Rightarrow> u8 \<Rightarrow> bool" where
  "IsLinearCopy v sub =
     ((v = V4 \<and> sub = SUBOP_COPY_LINEAR) \<or>
      ((v = V6 \<or> v = V7) \<and> (sub = SUBOP_COPY_LINEAR \<or> sub = SUBOP_COPY_LINEAR_BC)))"

definition LinearCopyBytes :: "Version \<Rightarrow> u8 \<Rightarrow> u32 \<Rightarrow> u64" where
  "LinearCopyBytes v sub count_dw =
     (if \<not> IsLinearCopy v sub then 0
      else let mask = (if (v = V6 \<or> v = V7) \<and> sub = SUBOP_COPY_LINEAR
                       then kLinearCopyCountMask30 else kLinearCopyCountMask22)
           in ucast (count_dw AND mask) + 1)"

section \<open>Names\<close>

definition OpName :: "Version \<Rightarrow> u8 \<Rightarrow> string" where
  "OpName v op =
     (if op = OP_NOP then ''nop''
      else if op = OP_COPY then ''copy''
      else if op = OP_WRITE then ''write''
      else if op = OP_INDIRECT then ''indirect''
      else if op = OP_FENCE then ''fence''
      else if op = OP_TRAP then ''trap''
      else if op = OP_SEM then ''semaphore''
      else if op = OP_POLL_REGMEM then ''poll_regmem''
      else if op = OP_COND_EXE then ''cond_exe''
      else if op = OP_ATOMIC then ''atomic''
      else if op = OP_CONST_FILL then ''const_fill''
      else if op = OP_PTEPDE then ''ptepde''
      else if op = OP_TIMESTAMP then ''timestamp''
      else if op = OP_SRBM_WRITE then ''srbm_write''
      else if op = OP_PRE_EXE then ''pre_exe''
      else if op = OP_VERSION_SPECIFIC_16 then
        (if v = V4 then ''dummy_trap''
         else if v = V6 \<or> v = V7 then ''gpuvm_inv'' else ''unknown'')
      else if op = OP_GCR_REQ then (if v = V6 \<or> v = V7 then ''gcr_req'' else ''unknown'')
      else if op = OP_V6_DUMMY_TRAP then
        (if v = V6 \<or> v = V7 then ''dummy_trap'' else ''unknown'')
      else ''unknown'')"

definition CopySubOpName :: "Version \<Rightarrow> u8 \<Rightarrow> string" where
  "CopySubOpName v sub =
     (if sub = SUBOP_COPY_LINEAR then ''linear''
      else if sub = SUBOP_COPY_TILED then ''tiled''
      else if sub = SUBOP_COPY_SOA then ''soa''
      else if sub = SUBOP_COPY_LINEAR_SUB_WIND then ''linear_subwindow''
      else if sub = SUBOP_COPY_TILED_SUB_WIND then ''tiled_subwindow''
      else if sub = SUBOP_COPY_T2T_SUB_WIND then ''t2t_subwindow''
      else if sub = SUBOP_COPY_DIRTY_PAGE then ''dirty_page''
      else if sub = SUBOP_COPY_LINEAR_PHY then ''linear_physical''
      else if \<not> (v = V6 \<or> v = V7) then ''unknown''
      else if sub = SUBOP_COPY_LINEAR_BC then ''linear_bc''
      else if sub = SUBOP_COPY_TILED_BC then ''tiled_bc''
      else if sub = SUBOP_COPY_LINEAR_SUB_WIND_BC then ''linear_subwindow_bc''
      else if sub = SUBOP_COPY_TILED_SUB_WIND_BC then ''tiled_subwindow_bc''
      else if sub = SUBOP_COPY_T2T_SUB_WIND_BC then ''t2t_subwindow_bc''
      else if sub = SUBOP_COPY_LINEAR_SUB_WIND_LARGE then ''linear_subwindow_large''
      else ''unknown'')"

section \<open>Packet lengths\<close>

definition BroadcastCopyPacketLen :: "u8 \<Rightarrow> u32" where
  "BroadcastCopyPacketLen sub =
     (if sub = SUBOP_COPY_LINEAR then 9 else if sub = SUBOP_COPY_TILED then 16 else 0)"

definition CopyPacketLenV4 :: "u32 \<Rightarrow> u32" where
  "CopyPacketLenV4 header =
     (let sub = HeaderSubOp header in
      if HeaderBroadcast header then BroadcastCopyPacketLen sub
      else if sub \<in> {SUBOP_COPY_LINEAR, SUBOP_COPY_DIRTY_PAGE, SUBOP_COPY_LINEAR_PHY} then 7
      else if sub = SUBOP_COPY_SOA then 8
      else if sub \<in> {SUBOP_COPY_LINEAR_SUB_WIND, SUBOP_COPY_TILED} then 13
      else if sub = SUBOP_COPY_TILED_SUB_WIND then 14
      else if sub = SUBOP_COPY_T2T_SUB_WIND then 15
      else 0)"

definition CopyPacketLenV6 :: "u32 \<Rightarrow> u32" where
  "CopyPacketLenV6 header =
     (let sub = HeaderSubOp header in
      if HeaderBroadcast header then BroadcastCopyPacketLen sub
      else if sub \<in> {SUBOP_COPY_LINEAR, SUBOP_COPY_DIRTY_PAGE, SUBOP_COPY_LINEAR_PHY,
                     SUBOP_COPY_LINEAR_BC} then 7
      else if sub = SUBOP_COPY_SOA then 8
      else if sub \<in> {SUBOP_COPY_LINEAR_SUB_WIND, SUBOP_COPY_TILED, SUBOP_COPY_TILED_BC,
                     SUBOP_COPY_LINEAR_SUB_WIND_BC} then 13
      else if sub = SUBOP_COPY_TILED_SUB_WIND_BC then 14
      else if sub = SUBOP_COPY_T2T_SUB_WIND_BC then 15
      else if sub = SUBOP_COPY_TILED_SUB_WIND then 17
      else if sub = SUBOP_COPY_T2T_SUB_WIND then 18
      else if sub = SUBOP_COPY_LINEAR_SUB_WIND_LARGE then 20
      else 0)"

definition CopyPacketLenV7 :: "u32 \<Rightarrow> u32" where
  "CopyPacketLenV7 header =
     (let sub = HeaderSubOp header in
      if HeaderBroadcast header then BroadcastCopyPacketLen sub
      else if sub = SUBOP_COPY_LINEAR \<or> sub = SUBOP_COPY_LINEAR_BC then 8
      else CopyPacketLenV6 header)"

definition PollPacketLen :: "Version \<Rightarrow> u8 \<Rightarrow> u32" where
  "PollPacketLen v sub =
     (if sub = 0 then 6 else if sub = 1 then 4 else if sub = 2 then 5
      else if sub = 3 then 13
      else if sub = 4 then (if v = V6 \<or> v = V7 then 4 else 0)
      else 0)"

definition PtePdePacketLen :: "Version \<Rightarrow> u8 \<Rightarrow> u32" where
  "PtePdePacketLen v sub =
     (if sub = 1 then 8 else if sub = 2 then (if v = V4 then 7 else 8)
      else if sub = 3 then 7 else 0)"

text \<open>
  \<open>dw\<close> is the window of dwords the caller read, \<open>navail\<close> of them valid: the code only
  reads \<^verbatim>\<open>dw[0]\<close> after \<open>navail \<ge> 1\<close> and \<^verbatim>\<open>dw[3]\<close> after \<open>navail \<ge> 4\<close>.
\<close>

definition PacketLenDwords :: "Version \<Rightarrow> u32 list \<Rightarrow> u32 \<Rightarrow> u32" where
  "PacketLenDwords v dw navail =
     (if \<not> IsSupportedVersion v then 0
      else if navail < 1 then 0
      else
        let dw0 = dw ! 0; op = HeaderOp dw0; sub = HeaderSubOp dw0 in
        if op = OP_NOP then 1 + NopCount dw0
        else if op = OP_COPY then
          (if v = V4 then CopyPacketLenV4 dw0
           else if v = V7 then CopyPacketLenV7 dw0
           else CopyPacketLenV6 dw0)
        else if op = OP_WRITE then
          (if sub \<noteq> 0 \<or> navail < 4 then 0 else 5 + (dw ! 3 AND kWriteCountMask20))
        else if op = OP_FENCE then 4
        else if op = OP_TRAP then 2
        else if op = OP_SEM then 3
        else if op = OP_POLL_REGMEM then PollPacketLen v sub
        else if op = OP_COND_EXE then 5
        else if op = OP_ATOMIC then 8
        else if op = OP_CONST_FILL then (if sub = 0 then 5 else if sub = 1 then 6 else 0)
        else if op = OP_PTEPDE then PtePdePacketLen v sub
        else if op = OP_TIMESTAMP then (if sub \<le> 2 then 3 else 0)
        else if op = OP_SRBM_WRITE then 3
        else if op = OP_PRE_EXE then 2
        else if op = OP_INDIRECT then 6
        else if op = OP_VERSION_SPECIFIC_16 then (if v = V4 then 2 else 4)
        else if op = OP_GCR_REQ then (if v = V6 \<or> v = V7 then 5 else 0)
        else if op = OP_V6_DUMMY_TRAP then (if v = V6 \<or> v = V7 then 2 else 0)
        else 0)"

section \<open>What the length function promises\<close>

lemma and_mask_le:
  fixes x m :: "'a::len word"
  shows "unat (x AND m) \<le> unat m"
  using word_and_le1 [of x m] by (simp add: word_le_nat_alt)

lemma NopCount_le: "unat (NopCount dw0) \<le> 0x3FFF"
  using and_mask_le [of "drop_bit 16 dw0" "0x3FFF"] by (simp add: NopCount_def)

lemma write_count_le: "unat (w AND kWriteCountMask20) \<le> 0xFFFFF"
  using and_mask_le [of w kWriteCountMask20] by (simp add: kWriteCountMask20_def)

lemma unat_nop_len: "unat (1 + NopCount dw0) = 1 + unat (NopCount dw0)"
  using NopCount_le [of dw0] by (subst unat_add_no_wrap) simp_all

lemma unat_write_len:
  "unat (5 + (w AND kWriteCountMask20)) = 5 + unat (w AND kWriteCountMask20)"
  using write_count_le [of w] by (subst unat_add_no_wrap) simp_all

lemma copy_len_le:
  "CopyPacketLenV4 h \<le> 20" "CopyPacketLenV6 h \<le> 20" "CopyPacketLenV7 h \<le> 20"
  by (simp_all add: CopyPacketLenV4_def CopyPacketLenV6_def CopyPacketLenV7_def
      BroadcastCopyPacketLen_def Let_def)

lemma small_len_le:
  "PollPacketLen v sub \<le> 20" "PtePdePacketLen v sub \<le> 20"
  by (simp_all add: PollPacketLen_def PtePdePacketLen_def)

lemma PacketLenDwords_unsupported: "\<not> IsSupportedVersion v \<Longrightarrow> PacketLenDwords v dw n = 0"
  by (simp add: PacketLenDwords_def)

text \<open>
  Two shapes of the length: \<^verbatim>\<open>WRITE\<close> needs the count dword, every other opcode only the
  header. All further facts go through these two.
\<close>

lemma PacketLenDwords_write:
  "HeaderOp (dw ! 0) = OP_WRITE \<Longrightarrow> PacketLenDwords v dw n =
     (if IsSupportedVersion v \<and> 4 \<le> n \<and> HeaderSubOp (dw ! 0) = 0
      then 5 + (dw ! 3 AND kWriteCountMask20) else 0)"
proof -
  assume "HeaderOp (dw ! 0) = OP_WRITE"
  moreover have "n < 1 \<Longrightarrow> n < 4" by unat_arith
  ultimately show ?thesis
    by (simp add: PacketLenDwords_def Let_def not_less [symmetric] del: word_less_1 not_less)
qed

lemma PacketLenDwords_header:
  "HeaderOp (dw ! 0) \<noteq> OP_WRITE \<Longrightarrow> 1 \<le> n \<Longrightarrow>
     PacketLenDwords v dw n = PacketLenDwords v [dw ! 0] 1"
proof -
  assume "HeaderOp (dw ! 0) \<noteq> OP_WRITE" and "1 \<le> n"
  then have "\<not> n < 1" and "\<not> (1 :: u32) < 1" by (simp_all only: not_less order_refl)
  with \<open>HeaderOp (dw ! 0) \<noteq> OP_WRITE\<close> show ?thesis
    unfolding PacketLenDwords_def Let_def by (simp only: if_False nth_Cons_0 not_not)
qed

lemma PacketLenDwords_0: "PacketLenDwords v dw 0 = 0"
  by (simp add: PacketLenDwords_def)

text \<open>
  The length of any packet is at most \<open>5 + 0xFFFFF\<close>: \<open>next_id + len\<close> never wraps within
  a ring, and no length comes from a wrapped addition.
\<close>

lemma header_only_len_le:
  assumes "HeaderOp h \<noteq> OP_WRITE" and "HeaderOp h \<noteq> OP_NOP"
  shows "PacketLenDwords v [h] 1 \<le> 20"
proof -
  have if_le: "a \<le> k \<Longrightarrow> b \<le> k \<Longrightarrow> (if c then a else b) \<le> k" for a b k :: u32 and c
    by simp
  show ?thesis
    unfolding PacketLenDwords_def Let_def nth_Cons_0 if_not_P [OF assms(1)] if_not_P [OF assms(2)]
    by (intro if_le copy_len_le small_len_le) simp_all
qed

lemma PacketLenDwords_bound: "unat (PacketLenDwords v dw n) \<le> 0x100004"
proof (cases "HeaderOp (dw ! 0) = OP_WRITE")
  case True
  then show ?thesis
    using write_count_le [of "dw ! 3"] by (simp add: PacketLenDwords_write unat_write_len)
next
  case nw: False
  show ?thesis
  proof (cases "n = 0")
    case True
    then show ?thesis by (simp add: PacketLenDwords_0)
  next
    case False
    then have "1 \<le> n" by unat_arith
    with nw have e: "PacketLenDwords v dw n = PacketLenDwords v [dw ! 0] 1"
      by (rule PacketLenDwords_header)
    show ?thesis
    proof (cases "HeaderOp (dw ! 0) = OP_NOP")
      case True
      then have "PacketLenDwords v [dw ! 0] 1 = (if IsSupportedVersion v then 1 + NopCount (dw ! 0) else 0)"
        by (simp add: PacketLenDwords_def)
      with e show ?thesis
        using NopCount_le [of "dw ! 0"] by (simp add: unat_nop_len)
    next
      case False
      with nw have "unat (PacketLenDwords v [dw ! 0] 1) \<le> unat (20 :: u32)"
        by (intro iffD1 [OF word_le_nat_alt] header_only_len_le)
      with e show ?thesis by simp
    qed
  qed
qed

text \<open>Only the first dword and, for \<^verbatim>\<open>WRITE\<close>, the fourth decide the length.\<close>

lemma PacketLenDwords_local:
  assumes "dw ! 0 = dw' ! 0" and "4 \<le> n \<Longrightarrow> dw ! 3 = dw' ! 3"
  shows "PacketLenDwords v dw n = PacketLenDwords v dw' n"
proof (cases "HeaderOp (dw ! 0) = OP_WRITE")
  case True
  with assms show ?thesis by (simp add: PacketLenDwords_write)
next
  case False
  show ?thesis
  proof (cases "n = 0")
    case n: False
    then have "1 \<le> n" by unat_arith
    with False assms(1) show ?thesis
      using PacketLenDwords_header [of dw n v] PacketLenDwords_header [of dw' n v] by simp
  qed (simp add: PacketLenDwords_0)
qed

text \<open>Once a window decides a length, a longer window decides the same one.\<close>

lemma PacketLenDwords_stable:
  assumes "PacketLenDwords v dw n \<noteq> 0" and "n \<le> m"
  shows "PacketLenDwords v dw m = PacketLenDwords v dw n"
proof (cases "HeaderOp (dw ! 0) = OP_WRITE")
  case True
  with assms show ?thesis
    by (auto simp: PacketLenDwords_write split: if_splits intro: order_trans)
next
  case False
  have "n \<noteq> 0" using assms(1) by (auto simp: PacketLenDwords_0)
  then have "1 \<le> n" by unat_arith
  moreover from this have "1 \<le> m" using assms(2) by (rule order_trans)
  ultimately show ?thesis
    using False PacketLenDwords_header by metis
qed

text \<open>With four dwords in the window the length is decided or the packet is unknown.\<close>

lemma PacketLenDwords_window4:
  assumes "4 \<le> n" and "4 \<le> m"
  shows "PacketLenDwords v dw n = PacketLenDwords v dw m"
proof (cases "HeaderOp (dw ! 0) = OP_WRITE")
  case True
  with assms show ?thesis by (simp add: PacketLenDwords_write)
next
  case False
  have "1 \<le> n" and "1 \<le> m" using assms by unat_arith+
  with False show ?thesis using PacketLenDwords_header by metis
qed

section \<open>Linear copies\<close>

text \<open>
  A linear copy, broadcast or not, is at least 7 dwords long, so the count and address
  dwords the parser reads lie within the packet.
\<close>

lemma linear_copy_len_ge7:
  assumes "IsSupportedVersion v" and "1 \<le> n"
    and "HeaderOp (dw ! 0) = OP_COPY" and "IsLinearCopy v (HeaderSubOp (dw ! 0))"
  shows "7 \<le> PacketLenDwords v dw n"
proof -
  have "PacketLenDwords v dw n = PacketLenDwords v [dw ! 0] 1"
    using assms by (intro PacketLenDwords_header) simp_all
  moreover have "7 \<le> CopyPacketLenV4 (dw ! 0)" if "v = V4"
    using assms(4) that
    by (simp add: IsLinearCopy_def CopyPacketLenV4_def BroadcastCopyPacketLen_def Let_def)
  moreover have "7 \<le> CopyPacketLenV6 (dw ! 0)" "7 \<le> CopyPacketLenV7 (dw ! 0)"
    if "v = V6 \<or> v = V7"
    using assms(4) that
    by (auto simp: IsLinearCopy_def CopyPacketLenV6_def CopyPacketLenV7_def
        BroadcastCopyPacketLen_def HeaderBroadcast_def HeaderSubOp_def Let_def)
  ultimately show ?thesis
    using assms by (auto simp: PacketLenDwords_def IsLinearCopy_def)
qed

lemma LinearCopyBytes_range:
  assumes "IsLinearCopy v sub"
  shows "1 \<le> unat (LinearCopyBytes v sub cnt) \<and> unat (LinearCopyBytes v sub cnt) \<le> 2 ^ 30"
proof -
  have b: "unat (ucast (cnt AND m) + 1 :: u64) = unat (cnt AND m) + 1" for m
  proof -
    have "unat (ucast (cnt AND m) :: u64) = unat (cnt AND m)"
      by (simp add: unsigned_ucast_eq take_bit_nat_eq_self less_trans [OF unat_bound])
    moreover have "unat (cnt AND m) < 2 ^ 32"
      using unat_bound [of "cnt AND m"] by simp
    ultimately show ?thesis
      by (subst unat_add_no_wrap) simp_all
  qed
  show ?thesis
    using assms and_mask_le [of cnt kLinearCopyCountMask22]
      and_mask_le [of cnt kLinearCopyCountMask30]
    by (simp add: LinearCopyBytes_def b kLinearCopyCountMask22_def kLinearCopyCountMask30_def)
qed

lemma IsLinearCopy_supported: "IsLinearCopy v sub \<Longrightarrow> IsSupportedVersion v"
  by (auto simp: IsLinearCopy_def IsSupportedVersion_def)

lemma VersionFromGfxTarget_supported:
  "IsSupportedVersion (VersionFromGfxTarget g) \<longleftrightarrow> g div 10000 \<in> {9, 11, 12}"
  by (auto simp: IsSupportedVersion_def VersionFromGfxTarget_def Let_def)

end
