(* ===== verification/Data_Model.thy ===== *)
theory Data_Model
  imports Aql Sdma
begin

text \<open>
  \<^verbatim>\<open>src/model.h\<close>: the records the components exchange, with the default member values of
  the C++ structs (\<open>new_\<dots>\<close>), the queue predicates, and the display names of
  \<^verbatim>\<open>src/sdma.cpp\<close> for copy directions and AIS operations. Field prefixes tell the records
  apart: \<open>q_\<close> queue, \<open>p_\<close> AQL packet, \<open>s_\<close> SDMA packet, \<open>x_\<close> XNACK, \<open>a_\<close> AIS, \<open>d_\<close> PCIe
  device, \<open>m_\<close> memory footprint.
\<close>

section \<open>Queues\<close>

record QueueInfo =
  q_pid :: c_int
  q_comm :: string
  q_ring_base :: u64
  q_wptr_addr :: u64
  q_rptr_addr :: u64
  q_ring_size :: u32
  q_gpu_id :: u32
  q_qtype :: u32
  q_sdma_version :: Version
  q_create_ts :: seconds
  q_ring_phys :: u64
  q_uid :: u64

definition new_QueueInfo :: QueueInfo where
  "new_QueueInfo =
     \<lparr> q_pid = 0, q_comm = [], q_ring_base = 0, q_wptr_addr = 0, q_rptr_addr = 0,
       q_ring_size = 0, q_gpu_id = 0, q_qtype = 0, q_sdma_version = Version_Unknown,
       q_create_ts = 0, q_ring_phys = 0, q_uid = 0 \<rparr>"

definition num_slots :: "QueueInfo \<Rightarrow> u32" where
  "num_slots q = (if q_ring_size q \<noteq> 0 then q_ring_size q div 64 else 0)"

definition num_dwords :: "QueueInfo \<Rightarrow> u32" where
  "num_dwords q = q_ring_size q div 4"

definition is_aql :: "QueueInfo \<Rightarrow> bool" where
  "is_aql q = (q_qtype q = 2 \<or> q_qtype q = 21)"

definition is_sdma :: "QueueInfo \<Rightarrow> bool" where
  "is_sdma q = (q_qtype q = 1 \<or> q_qtype q = 3 \<or> q_qtype q = 4)"

definition is_traced :: "QueueInfo \<Rightarrow> bool" where
  "is_traced q = (is_aql q \<or> is_sdma q)"

lemma not_aql_and_sdma: "\<not> (is_aql q \<and> is_sdma q)"
  by (auto simp: is_aql_def is_sdma_def)

lemma num_slots_fit: "unat (num_slots q) * kPacketSize \<le> unat (q_ring_size q)"
  by (simp add: num_slots_def kPacketSize_def unat_div)

lemma num_dwords_fit: "unat (num_dwords q) * 4 \<le> unat (q_ring_size q)"
  by (simp add: num_dwords_def unat_div)

section \<open>Observed packets\<close>

record PacketRecord =
  p_queue_uid :: u64
  p_dispatch_id :: u64
  p_type :: PacketType
  p_barrier :: bool
  p_kernel_object :: u64
  p_kernel_name :: string
  p_grid :: "u32 \<times> u32 \<times> u32"
  p_wg :: "u16 \<times> u16 \<times> u16"
  p_private_seg :: u32
  p_group_seg :: u32
  p_completion_signal :: u64
  p_kernarg_address :: u64
  p_submit_ts :: seconds
  p_complete_ts :: seconds
  p_completed :: bool

definition new_PacketRecord :: PacketRecord where
  "new_PacketRecord =
     \<lparr> p_queue_uid = 0, p_dispatch_id = 0, p_type = Invalid, p_barrier = False,
       p_kernel_object = 0, p_kernel_name = [], p_grid = (0, 0, 0), p_wg = (0, 0, 0),
       p_private_seg = 0, p_group_seg = 0, p_completion_signal = 0, p_kernarg_address = 0,
       p_submit_ts = 0, p_complete_ts = 0, p_completed = False \<rparr>"

datatype CopyDir = Dir_Unknown | HostToDevice | DeviceToHost | DeviceToDevice | HostToHost

fun CopyDirName :: "CopyDir \<Rightarrow> string" where
  "CopyDirName HostToDevice = ''h2d''"
| "CopyDirName DeviceToHost = ''d2h''"
| "CopyDirName DeviceToDevice = ''d2d''"
| "CopyDirName HostToHost = ''h2h''"
| "CopyDirName Dir_Unknown = ''unknown''"

record SdmaRecord =
  s_queue_uid :: u64
  s_seq :: u64
  s_opcode :: u8
  s_sub_opcode :: u8
  s_sdma_version :: Version
  s_op_name :: string
  s_bytes :: u64
  s_src_addr :: u64
  s_dst_addr :: u64
  s_dir :: CopyDir
  s_submit_ts :: seconds
  s_complete_ts :: seconds
  s_completed :: bool

definition new_SdmaRecord :: SdmaRecord where
  "new_SdmaRecord =
     \<lparr> s_queue_uid = 0, s_seq = 0, s_opcode = 0, s_sub_opcode = 0,
       s_sdma_version = Version_Unknown, s_op_name = [], s_bytes = 0, s_src_addr = 0,
       s_dst_addr = 0, s_dir = Dir_Unknown, s_submit_ts = 0, s_complete_ts = 0,
       s_completed = False \<rparr>"

definition is_copy :: "SdmaRecord \<Rightarrow> bool" where
  "is_copy r = (s_opcode r = OP_COPY)"

section \<open>Monitor records\<close>

record PcieDeviceInfo =
  d_bdf :: string
  d_device_type :: string
  d_vendor :: string
  d_vendor_id :: string
  d_device_id :: string
  d_class_code :: string

definition new_PcieDeviceInfo :: PcieDeviceInfo where
  "new_PcieDeviceInfo =
     \<lparr> d_bdf = [], d_device_type = [], d_vendor = [], d_vendor_id = [], d_device_id = [],
       d_class_code = [] \<rparr>"

record XnackRecord =
  x_seq :: u64
  x_pasid :: u32
  x_pid :: c_int
  x_comm :: string
  x_timestamp :: seconds

definition new_XnackRecord :: XnackRecord where
  "new_XnackRecord = \<lparr> x_seq = 0, x_pasid = 0, x_pid = 0, x_comm = [], x_timestamp = 0 \<rparr>"

datatype AisOp = AisOp_Unknown | Ais_Read | Ais_Write

fun AisOpName :: "AisOp \<Rightarrow> string" where
  "AisOpName Ais_Read = ''read''"
| "AisOpName Ais_Write = ''write''"
| "AisOpName AisOp_Unknown = ''unknown''"

record AisRecord =
  a_seq :: u64
  a_pid :: c_int
  a_comm :: string
  a_op :: AisOp
  a_gpu_id :: u32
  a_pcie_id :: string
  a_pcie_info :: PcieDeviceInfo
  a_size_req :: u64
  a_size_copied :: u64
  a_error :: c_int
  a_submit_ts :: seconds
  a_complete_ts :: seconds
  a_completed :: bool

definition new_AisRecord :: AisRecord where
  "new_AisRecord =
     \<lparr> a_seq = 0, a_pid = 0, a_comm = [], a_op = AisOp_Unknown, a_gpu_id = 0,
       a_pcie_id = [], a_pcie_info = new_PcieDeviceInfo, a_size_req = 0, a_size_copied = 0,
       a_error = 0, a_submit_ts = 0, a_complete_ts = 0, a_completed = False \<rparr>"

definition latency_sec :: "AisRecord \<Rightarrow> seconds" where
  "latency_sec r = (if a_completed r then a_complete_ts r - a_submit_ts r else 0)"

definition is_error :: "AisRecord \<Rightarrow> bool" where
  "is_error r = (a_error r \<noteq> 0)"

record MemRecord =
  m_queue_uid :: u64
  m_dispatch_id :: u64
  m_kernel_name :: string
  m_gpu_id :: u32
  m_group_seg_bytes :: u32
  m_private_seg_bytes :: u32
  m_grid_size :: u64
  m_footprint_valid :: bool
  m_kernarg_size_bytes :: u32
  m_mapped_vram_bytes :: u64
  m_ptr_count :: u32
  m_submit_ts :: seconds

definition new_MemRecord :: MemRecord where
  "new_MemRecord =
     \<lparr> m_queue_uid = 0, m_dispatch_id = 0, m_kernel_name = [], m_gpu_id = 0,
       m_group_seg_bytes = 0, m_private_seg_bytes = 0, m_grid_size = 0,
       m_footprint_valid = False, m_kernarg_size_bytes = 0, m_mapped_vram_bytes = 0,
       m_ptr_count = 0, m_submit_ts = 0 \<rparr>"

end
