(* ===== verification/Proc_Mem.thy ===== *)
theory Proc_Mem
  imports Snoop_Prelude
begin

text \<open>
  \<^verbatim>\<open>src/proc_mem.h\<close> and \<^verbatim>\<open>src/proc_mem.cpp\<close>: reads of another process's memory, the
  thread-local descriptor cache of the \<^verbatim>\<open>/proc/<pid>/mem\<close> path, pagemap translation, and
  the kernarg scan. The kernel's answers are a parameter, \<open>os_view\<close>: what each system
  call returns at the moment it is made.
\<close>

section \<open>The operating system as the code sees it\<close>

text \<open>
  \<^item> \<open>os_vm_readv pid va len\<close>: \<^verbatim>\<open>process_vm_readv\<close>, the bytes it transferred (fewer than
    \<open>len\<close> on a partial read), \<open>None\<close> for -1;
  \<^item> \<open>os_open_mem pid\<close>: the descriptor \<^verbatim>\<open>open("/proc/<pid>/mem")\<close> returns, negative on
    failure; \<open>os_pread fd va len\<close>: \<^verbatim>\<open>pread\<close> on it;
  \<^item> \<open>os_pagemap pid\<close>: \<open>None\<close> when \<^verbatim>\<open>/proc/<pid>/pagemap\<close> cannot be opened, else the
    64-bit entry at a page index (\<open>None\<close> when the read falls short);
  \<^item> \<open>os_page_size\<close>: \<^verbatim>\<open>sysconf(_SC_PAGESIZE)\<close>;
  \<^item> \<open>os_maps pid\<close>: the lines of \<^verbatim>\<open>/proc/<pid>/maps\<close> (empty when it cannot be opened);
  \<^item> \<open>os_alive pid\<close>: whether \<^verbatim>\<open>/proc/<pid>\<close> exists.
\<close>

record os_view =
  os_vm_readv :: "c_int \<Rightarrow> u64 \<Rightarrow> nat \<Rightarrow> bytes option"
  os_open_mem :: "c_int \<Rightarrow> c_int"
  os_pread :: "c_int \<Rightarrow> u64 \<Rightarrow> nat \<Rightarrow> bytes option"
  os_pagemap :: "c_int \<Rightarrow> (u64 \<Rightarrow> u64 option) option"
  os_page_size :: u64
  os_maps :: "c_int \<Rightarrow> string list"
  os_alive :: "c_int \<Rightarrow> bool"

section \<open>Reading target memory\<close>

definition full_read :: "nat \<Rightarrow> bytes option \<Rightarrow> bytes option" where
  "full_read len r =
     (case r of Some bs \<Rightarrow> if length bs = len then Some bs else None | None \<Rightarrow> None)"

definition ReadProcMem :: "os_view \<Rightarrow> c_int \<Rightarrow> u64 \<Rightarrow> nat \<Rightarrow> bytes option" where
  "ReadProcMem os pid va len = full_read len (os_vm_readv os pid va len)"

definition ReadU64 :: "os_view \<Rightarrow> c_int \<Rightarrow> u64 \<Rightarrow> u64 option" where
  "ReadU64 os pid va = map_option (\<lambda>bs. of_nat (load_le bs)) (ReadProcMem os pid va 8)"

text \<open>The thread-local \<^verbatim>\<open>cached_pid\<close> and \<^verbatim>\<open>cached_fd\<close>.\<close>

record fd_cache =
  cached_pid :: c_int
  cached_fd :: c_int

definition new_fd_cache :: fd_cache where
  "new_fd_cache = \<lparr> cached_pid = - 1, cached_fd = - 1 \<rparr>"

definition refresh_cache :: "os_view \<Rightarrow> c_int \<Rightarrow> fd_cache \<Rightarrow> fd_cache" where
  "refresh_cache os pid c =
     (if cached_pid c \<noteq> pid \<or> cached_fd c < 0 then
        let fd = os_open_mem os pid in
        c\<lparr>cached_fd := fd, cached_pid := (if 0 \<le> fd then pid else - 1)\<rparr>
      else c)"

definition ReadProcMemViaMem ::
    "os_view \<Rightarrow> fd_cache \<Rightarrow> c_int \<Rightarrow> u64 \<Rightarrow> nat \<Rightarrow> fd_cache \<times> bytes option" where
  "ReadProcMemViaMem os c pid va len =
     (let c' = refresh_cache os pid c in
      if cached_fd c' < 0 then (c', None)
      else (c', full_read len (os_pread os (cached_fd c') va len)))"

definition ReadU64ViaMem ::
    "os_view \<Rightarrow> fd_cache \<Rightarrow> c_int \<Rightarrow> u64 \<Rightarrow> fd_cache \<times> u64 option" where
  "ReadU64ViaMem os c pid va =
     (case ReadProcMemViaMem os c pid va 8 of
        (c', r) \<Rightarrow> (c', map_option (\<lambda>bs. of_nat (load_le bs)) r))"

definition kMaxKernargScanBytes :: u32 where
  "kMaxKernargScanBytes = 4096"

definition kKdKernargSizeOffset :: u64 where
  "kKdKernargSizeOffset = 8"

text \<open>\<^verbatim>\<open>process_vm_readv\<close> first, \<^verbatim>\<open>/proc/<pid>/mem\<close> when it fails.\<close>

definition read_either ::
    "os_view \<Rightarrow> fd_cache \<Rightarrow> c_int \<Rightarrow> u64 \<Rightarrow> nat \<Rightarrow> fd_cache \<times> bytes option" where
  "read_either os c pid va len =
     (case ReadProcMem os pid va len of
        Some bs \<Rightarrow> (c, Some bs)
      | None \<Rightarrow> ReadProcMemViaMem os c pid va len)"

definition ReadKernargSize :: "os_view \<Rightarrow> fd_cache \<Rightarrow> c_int \<Rightarrow> u64 \<Rightarrow> fd_cache \<times> u32" where
  "ReadKernargSize os c pid kernel_object =
     (if kernel_object = 0 then (c, 0)
      else case read_either os c pid (kernel_object + kKdKernargSizeOffset) 4 of
        (c', None) \<Rightarrow> (c', 0)
      | (c', Some bs) \<Rightarrow>
          let size = of_nat (load_le bs) in
          (c', if size = 0 \<or> kMaxKernargScanBytes < size then 0 else size))"

section \<open>Physical addresses\<close>

definition VirtToPhys :: "os_view \<Rightarrow> c_int \<Rightarrow> u64 \<Rightarrow> u64" where
  "VirtToPhys os pid va =
     (case os_pagemap os pid of
        None \<Rightarrow> 0
      | Some entries \<Rightarrow>
          let page = os_page_size os in
          (case entries (va div page) of
             None \<Rightarrow> 0
           | Some entry \<Rightarrow>
               if entry AND push_bit 63 1 \<noteq> 0 then
                 let pfn = entry AND (push_bit 55 1 - 1) in
                 if pfn \<noteq> 0 then pfn * page + va mod page else 0
               else 0))"

section \<open>The memory map\<close>

record VmaRegion =
  vma_start :: u64
  vma_end :: u64

text \<open>
  \<^verbatim>\<open>sscanf(line, "%lx-%lx", &start, &end) == 2\<close>: two hexadecimal numbers with a dash
  between them. \<^verbatim>\<open>%lx\<close> skips white space and takes an optional sign and \<^verbatim>\<open>0x\<close>.
\<close>

definition scan_hex :: "string \<Rightarrow> (u64 \<times> string) option" where
  "scan_hex s =
     (case take_sign (dropWhile c_isspace s) of (neg, ds) \<Rightarrow>
       case read_digits 16 0 (if hex_prefix ds then drop 2 ds else ds) of (v, rest) \<Rightarrow>
         if rest = ds then None
         else Some (if 2 ^ 64 \<le> v then - 1 else if neg then - of_nat v else of_nat v, rest))"

definition scan_range :: "string \<Rightarrow> (u64 \<times> u64 \<times> string) option" where
  "scan_range line =
     (case scan_hex line of
        Some (s, CHR ''-'' # rest) \<Rightarrow>
          (case scan_hex rest of Some (e, rest') \<Rightarrow> Some (s, e, rest') | None \<Rightarrow> None)
      | _ \<Rightarrow> None)"

fun parse_vmas :: "string list \<Rightarrow> VmaRegion list" where
  "parse_vmas [] = []"
| "parse_vmas (line # lines) =
     (case scan_range line of
        Some (s, e, _) \<Rightarrow>
          if s < e then \<lparr>vma_start = s, vma_end = e\<rparr> # parse_vmas lines else parse_vmas lines
      | None \<Rightarrow> parse_vmas lines)"

definition ReadVmas :: "os_view \<Rightarrow> c_int \<Rightarrow> VmaRegion list" where
  "ReadVmas os pid = parse_vmas (os_maps os pid)"

text \<open>The scan for the region that holds an address, with its early \<^verbatim>\<open>break\<close>.\<close>

fun FindVma :: "VmaRegion list \<Rightarrow> u64 \<Rightarrow> VmaRegion option" where
  "FindVma [] addr = None"
| "FindVma (v # vs) addr =
     (if vma_start v \<le> addr \<and> addr < vma_end v then Some v
      else if addr < vma_start v then None
      else FindVma vs addr)"

section \<open>The kernarg scan\<close>

text \<open>
  The scan loop over the 8-byte words of the buffer: \<open>seen\<close> holds the region starts
  already counted, \<open>acc\<close> and \<open>count\<close> are the out-parameters, which wrap at their widths.
\<close>

fun scan_words ::
    "VmaRegion list \<Rightarrow> u64 list \<Rightarrow> u64 list \<Rightarrow> u64 \<Rightarrow> u32 \<Rightarrow> u64 \<times> u32" where
  "scan_words vmas [] seen acc n = (acc, n)"
| "scan_words vmas (candidate # ws) seen acc n =
     (if candidate < push_bit 32 1 \<or> push_bit 48 1 \<le> candidate
      then scan_words vmas ws seen acc n
      else case FindVma vmas candidate of
        None \<Rightarrow> scan_words vmas ws seen acc n
      | Some v \<Rightarrow>
          if vma_start v \<noteq> candidate then scan_words vmas ws seen acc n
          else if vma_start v \<in> set seen then scan_words vmas ws seen acc (n + 1)
          else scan_words vmas ws (vma_start v # seen)
                 (acc + (vma_end v - vma_start v)) (n + 1))"

fun qwords_of :: "bytes \<Rightarrow> u64 list" where
  "qwords_of (a # b # c # d # e # f # g # h # bs) =
     of_nat (load_le [a, b, c, d, e, f, g, h]) # qwords_of bs"
| "qwords_of _ = []"

text \<open>\<open>None\<close> is the \<^verbatim>\<open>false\<close> return, on which both out-parameters stay zero.\<close>

definition ScanKernargFootprint ::
    "os_view \<Rightarrow> fd_cache \<Rightarrow> c_int \<Rightarrow> u64 \<Rightarrow> u32 \<Rightarrow> fd_cache \<times> (u64 \<times> u32) option" where
  "ScanKernargFootprint os c pid kernarg_va kernarg_bytes =
     (if kernarg_va = 0 \<or> kernarg_bytes < 8 then (c, Some (0, 0))
      else
        let scan_bytes = (if kernarg_bytes < kMaxKernargScanBytes
                          then kernarg_bytes else kMaxKernargScanBytes) AND NOT 7 in
        if scan_bytes < 8 then (c, Some (0, 0))
        else case read_either os c pid kernarg_va (unat scan_bytes) of
          (c', None) \<Rightarrow> (c', None)
        | (c', Some buf) \<Rightarrow>
            let vmas = ReadVmas os pid in
            if vmas = [] then (c', None)
            else (c', Some (scan_words vmas (qwords_of buf) [] 0 0)))"

definition ProcAlive :: "os_view \<Rightarrow> c_int \<Rightarrow> bool" where
  "ProcAlive os pid = os_alive os pid"

section \<open>The descriptor cache is transparent\<close>

text \<open>A cached descriptor is one that opening the cached pid's memory returns.\<close>

definition cache_ok :: "os_view \<Rightarrow> fd_cache \<Rightarrow> bool" where
  "cache_ok os c = (0 \<le> cached_fd c \<longrightarrow> cached_fd c = os_open_mem os (cached_pid c))"

definition read_via_mem_direct :: "os_view \<Rightarrow> c_int \<Rightarrow> u64 \<Rightarrow> nat \<Rightarrow> bytes option" where
  "read_via_mem_direct os pid va len =
     (if os_open_mem os pid < 0 then None
      else full_read len (os_pread os (os_open_mem os pid) va len))"

lemma cache_ok_new: "cache_ok os new_fd_cache"
  by (simp add: cache_ok_def new_fd_cache_def)

lemma refresh_cache_fd:
  "cache_ok os c \<Longrightarrow> cached_fd (refresh_cache os pid c) = os_open_mem os pid \<or>
     cached_fd (refresh_cache os pid c) < 0 \<and> os_open_mem os pid < 0"
  by (auto simp: refresh_cache_def cache_ok_def Let_def)

lemma refresh_cache_ok: "cache_ok os c \<Longrightarrow> cache_ok os (refresh_cache os pid c)"
  by (auto simp: refresh_cache_def cache_ok_def Let_def)

lemma ReadProcMemViaMem_direct:
  "cache_ok os c \<Longrightarrow> snd (ReadProcMemViaMem os c pid va len) = read_via_mem_direct os pid va len"
  using refresh_cache_fd [of os c pid]
  by (auto simp: ReadProcMemViaMem_def read_via_mem_direct_def Let_def)

lemma ReadProcMemViaMem_ok:
  "cache_ok os c \<Longrightarrow> cache_ok os (fst (ReadProcMemViaMem os c pid va len))"
  by (simp add: ReadProcMemViaMem_def Let_def refresh_cache_ok)

text \<open>
  The pid is remembered only with a descriptor in hand: whatever the kernel answered
  before, a cache without a descriptor opens the file again.
\<close>

lemma failed_open_not_cached:
  "cached_fd c < 0 \<Longrightarrow>
     snd (ReadProcMemViaMem os c pid va len) = read_via_mem_direct os pid va len"
  by (auto simp: ReadProcMemViaMem_def refresh_cache_def read_via_mem_direct_def Let_def)

lemma read_either_ok: "cache_ok os c \<Longrightarrow> cache_ok os (fst (read_either os c pid va len))"
  by (auto simp: read_either_def ReadProcMemViaMem_ok split: option.split)

lemma full_read_length: "full_read n r = Some bs \<Longrightarrow> length bs = n"
  by (auto simp: full_read_def split: option.splits if_splits)

lemma read_either_length: "read_either os c pid va len = (c', Some bs) \<Longrightarrow> length bs = len"
  by (auto simp: read_either_def ReadProcMem_def ReadProcMemViaMem_def Let_def
      dest: full_read_length split: option.splits if_splits)

section \<open>Kernel descriptor sizes\<close>

lemma ReadKernargSize_bound:
  "snd (ReadKernargSize os c pid ko) \<le> kMaxKernargScanBytes"
  by (auto simp: ReadKernargSize_def Let_def not_less split: prod.split option.split)

section \<open>Physical translation\<close>

text \<open>
  A translated address keeps the offset within its page. The side condition says the frame
  number times the page size fits in 64 bits, which holds for every machine's memory.
\<close>

lemma VirtToPhys_frame:
  assumes "os_pagemap os pid = Some entries" and "entries (va div os_page_size os) = Some entry"
    and "entry AND push_bit 63 1 \<noteq> 0" and "pfn = entry AND (push_bit 55 1 - 1)" and "pfn \<noteq> 0"
    and "unat pfn * unat (os_page_size os) + unat (os_page_size os) \<le> 2 ^ 64"
    and "os_page_size os \<noteq> 0"
  shows "unat (VirtToPhys os pid va) =
           unat pfn * unat (os_page_size os) + unat va mod unat (os_page_size os)"
proof -
  let ?p = "os_page_size os"
  have pos: "0 < unat ?p" using assms(7) by (simp add: unat_gt_0)
  have m: "unat (va mod ?p) = unat va mod unat ?p" by (simp add: unat_mod)
  have "unat va mod unat ?p < unat ?p" using pos by simp
  then have lt: "unat pfn * unat ?p + unat va mod unat ?p < 2 ^ 64"
    using assms(6) by linarith
  then have "unat (pfn * ?p) = unat pfn * unat ?p"
    by (simp add: unat_mult_lem [THEN iffD1])
  with lt m have "unat (pfn * ?p + va mod ?p) = unat pfn * unat ?p + unat va mod unat ?p"
    by (subst unat_add_no_wrap) simp_all
  with assms(1-5) show ?thesis
    by (simp add: VirtToPhys_def Let_def)
qed

lemma VirtToPhys_absent:
  assumes "os_pagemap os pid = Some entries" and "entries (va div os_page_size os) = Some entry"
    and "entry AND push_bit 63 1 = 0 \<or> entry AND (push_bit 55 1 - 1) = 0"
  shows "VirtToPhys os pid va = 0"
  using assms by (auto simp: VirtToPhys_def Let_def)

section \<open>Looking up a region\<close>

definition vma_contains :: "u64 \<Rightarrow> VmaRegion \<Rightarrow> bool" where
  "vma_contains addr v = (vma_start v \<le> addr \<and> addr < vma_end v)"

text \<open>
  \<^verbatim>\<open>/proc/<pid>/maps\<close> lists the regions in ascending order; on such a list the early exit
  loses nothing.
\<close>

lemma FindVma_find:
  "sorted (map vma_start vmas) \<Longrightarrow> FindVma vmas addr = find (vma_contains addr) vmas"
proof (induction vmas addr rule: FindVma.induct)
  case (2 v vs addr)
  have none: "find (vma_contains addr) vs = None" if "addr < vma_start v"
    using that "2.prems" by (auto simp: find_None_iff vma_contains_def dest: order_trans leD)
  show ?case
    using 2 none by (auto simp: vma_contains_def [of addr v])
qed simp

lemma FindVma_Some: "FindVma vmas addr = Some v \<Longrightarrow> v \<in> set vmas \<and> vma_contains addr v"
  by (induction vmas addr rule: FindVma.induct) (auto simp: vma_contains_def split: if_splits)

section \<open>What the kernarg scan measures\<close>

definition plausible_va :: "u64 \<Rightarrow> bool" where
  "plausible_va c = (push_bit 32 1 \<le> c \<and> c < push_bit 48 1)"

definition base_region :: "VmaRegion list \<Rightarrow> u64 \<Rightarrow> VmaRegion option" where
  "base_region vmas c =
     (case FindVma vmas c of
        Some v \<Rightarrow> if plausible_va c \<and> vma_start v = c then Some v else None
      | None \<Rightarrow> None)"

definition base_pointers :: "VmaRegion list \<Rightarrow> u64 list \<Rightarrow> u64 list" where
  "base_pointers vmas ws = filter (\<lambda>c. base_region vmas c \<noteq> None) ws"

definition region_bytes :: "VmaRegion list \<Rightarrow> u64 \<Rightarrow> u64" where
  "region_bytes vmas c =
     (case base_region vmas c of Some v \<Rightarrow> vma_end v - vma_start v | None \<Rightarrow> 0)"

lemma scan_words_Cons:
  "scan_words vmas (c # ws) seen acc n =
     (case base_region vmas c of
        None \<Rightarrow> scan_words vmas ws seen acc n
      | Some v \<Rightarrow>
          if c \<in> set seen then scan_words vmas ws seen acc (n + 1)
          else scan_words vmas ws (c # seen) (acc + region_bytes vmas c) (n + 1))"
  by (auto simp: base_region_def plausible_va_def region_bytes_def not_less
      split: option.splits)

declare scan_words.simps(2) [simp del]

text \<open>
  The scan counts every word that is the base of a mapped region and sums the size of each
  such region once, however often and in whatever order it is pointed at.
\<close>

lemma scan_words_eq:
  "scan_words vmas ws seen acc n =
     (acc + (\<Sum>c \<in> set (base_pointers vmas ws) - set seen. region_bytes vmas c),
      n + of_nat (length (base_pointers vmas ws)))"
proof (induction ws arbitrary: seen acc n)
  case Nil
  then show ?case by (simp add: base_pointers_def)
next
  case (Cons c ws)
  show ?case
  proof (cases "base_region vmas c")
    case None
    then show ?thesis
      using Cons.IH by (simp add: scan_words_Cons base_pointers_def)
  next
    case (Some v)
    let ?B = "set (base_pointers vmas ws)"
    have ins: "set (base_pointers vmas (c # ws)) = insert c ?B"
      and len: "length (base_pointers vmas (c # ws)) = Suc (length (base_pointers vmas ws))"
      using Some by (simp_all add: base_pointers_def)
    show ?thesis
    proof (cases "c \<in> set seen")
      case True
      then show ?thesis
        using Some Cons.IH by (simp add: scan_words_Cons ins len insert_Diff_if)
    next
      case False
      have "insert c ?B - set seen = insert c (?B - set (c # seen))"
        using False by auto
      then have "(\<Sum>x \<in> insert c ?B - set seen. region_bytes vmas x)
          = region_bytes vmas c + (\<Sum>x \<in> ?B - set (c # seen). region_bytes vmas x)"
        by simp
      with False Some show ?thesis
        using Cons.IH [of "c # seen"] by (simp add: scan_words_Cons ins len add.assoc)
    qed
  qed
qed

lemma length_qwords_of: "length (qwords_of bs) = length bs div 8"
  by (induction bs rule: qwords_of.induct) auto

end
