(* ===== verification/Kernel_Symbols.thy ===== *)
theory Kernel_Symbols
  imports Proc_Mem
begin

text \<open>
  \<^verbatim>\<open>src/ksym.h\<close> and \<^verbatim>\<open>src/ksym.cpp\<close>: naming a kernel object. AMDGPU ELF images are found
  in the target's memory map, their dynamic symbol tables are walked, every \<^verbatim>\<open>.kd\<close> symbol
  goes into the exact cache and, by its low 20 bits, into the fallback cache. The C++
  demangler \<^verbatim>\<open>abi::__cxa_demangle\<close> is the parameter \<open>dm\<close> (\<open>None\<close> when its status is not
  zero).
\<close>

section \<open>Reading the target through one descriptor\<close>

text \<open>A \<^verbatim>\<open>MemReader\<close> is the descriptor its constructor opened, negative when that failed.\<close>

definition MemReader :: "os_view \<Rightarrow> c_int \<Rightarrow> c_int" where
  "MemReader os pid = os_open_mem os pid"

definition mr_Read :: "os_view \<Rightarrow> c_int \<Rightarrow> u64 \<Rightarrow> nat \<Rightarrow> bytes option" where
  "mr_Read os fd va len = (if fd < 0 then None else full_read len (os_pread os fd va len))"

lemma mr_Read_length: "mr_Read os fd va n = Some bs \<Longrightarrow> length bs = n"
  by (auto simp: mr_Read_def dest: full_read_length split: if_splits)

definition byte_char :: "u8 \<Rightarrow> char" where
  "byte_char b = char_of (unat b)"

text \<open>A NUL-terminated string, in 64-byte chunks, up to about \<open>max\<close> characters.\<close>

function peek_chunks :: "os_view \<Rightarrow> c_int \<Rightarrow> u64 \<Rightarrow> nat \<Rightarrow> string \<Rightarrow> string" where
  "peek_chunks os fd va mx s =
     (if length s < mx then
        (case mr_Read os fd (va + of_nat (length s)) 64 of
           None \<Rightarrow> s
         | Some buf \<Rightarrow>
             if 0 \<in> set buf then s @ map byte_char (takeWhile (\<lambda>b. b \<noteq> 0) buf)
             else peek_chunks os fd va mx (s @ map byte_char buf))
      else s)"
  by pat_completeness auto
termination
  by (relation "measure (\<lambda>(os, fd, va, mx, s). mx - length s)") (auto dest: mr_Read_length)

declare peek_chunks.simps [simp del]

definition PeekStr :: "os_view \<Rightarrow> c_int \<Rightarrow> u64 \<Rightarrow> string" where
  "PeekStr os fd va = peek_chunks os fd va 512 []"

section \<open>Finding the images\<close>

definition kElfMag :: bytes where
  "kElfMag = [0x7F, 0x45, 0x4C, 0x46]"

definition kEmAmdgpu :: nat where
  "kEmAmdgpu = 224"

text \<open>
  \<^verbatim>\<open>sscanf(line, "%lx-%lx %7s %lx", ...)\<close>: \<open>None\<close> unless all four fields convert, else the
  region's start and its permission string.
\<close>

definition scan_maps_line :: "string \<Rightarrow> (u64 \<times> string) option" where
  "scan_maps_line line =
     (case scan_range line of
        None \<Rightarrow> None
      | Some (s, e, rest) \<Rightarrow>
          let w = dropWhile c_isspace rest;
              perms = take 7 (takeWhile (\<lambda>c. \<not> c_isspace c) w)
          in if perms = [] then None
             else case scan_hex (drop (length perms) w) of
               None \<Rightarrow> None
             | Some (off, _) \<Rightarrow> Some (s, perms))"

definition is_amdgpu_elf :: "bytes \<Rightarrow> bool" where
  "is_amdgpu_elf ident = (take 4 ident = kElfMag \<and> field_at 18 2 ident = kEmAmdgpu)"

fun elf_bases :: "os_view \<Rightarrow> c_int \<Rightarrow> string list \<Rightarrow> u64 list" where
  "elf_bases os fd [] = []"
| "elf_bases os fd (line # lines) =
     (case scan_maps_line line of
        None \<Rightarrow> elf_bases os fd lines
      | Some (start, perms) \<Rightarrow>
          if \<not> starts_with perms ''r'' then elf_bases os fd lines
          else case mr_Read os fd start 20 of
            None \<Rightarrow> elf_bases os fd lines
          | Some ident \<Rightarrow>
              if is_amdgpu_elf ident then start # elf_bases os fd lines
              else elf_bases os fd lines)"

definition FindElfBases :: "os_view \<Rightarrow> c_int \<Rightarrow> c_int \<Rightarrow> u64 list" where
  "FindElfBases os pid fd = elf_bases os fd (os_maps os pid)"

section \<open>Walking one image\<close>

definition Demangle :: "(string \<Rightarrow> string option) \<Rightarrow> string \<Rightarrow> string" where
  "Demangle dm mangled = (case dm mangled of Some d \<Rightarrow> d | None \<Rightarrow> mangled)"

text \<open>
  The program-header loop: the least \<^verbatim>\<open>PT_LOAD\<close> address and the \<^verbatim>\<open>PT_DYNAMIC\<close> segment.
  \<open>None\<close> is the \<^verbatim>\<open>return\<close> on an unreadable header.
\<close>

fun scan_phdrs ::
    "os_view \<Rightarrow> c_int \<Rightarrow> u64 \<Rightarrow> nat \<Rightarrow> u64 \<times> u64 \<times> u64 \<Rightarrow> (u64 \<times> u64 \<times> u64) option" where
  "scan_phdrs os fd addr 0 st = Some st"
| "scan_phdrs os fd addr (Suc k) (min_vaddr, dyn_vaddr, dyn_sz) =
     (case mr_Read os fd addr 56 of
        None \<Rightarrow> None
      | Some ph \<Rightarrow>
          let p_type = field_at 0 4 ph;
              p_vaddr = of_nat (field_at 16 8 ph) :: u64;
              p_memsz = of_nat (field_at 40 8 ph) :: u64;
              mv = (if p_type = 1 \<and> p_vaddr < min_vaddr then p_vaddr else min_vaddr);
              dyn = (if p_type = 2 then (p_vaddr, p_memsz) else (dyn_vaddr, dyn_sz))
          in scan_phdrs os fd (addr + 56) k (mv, fst dyn, snd dyn))"

text \<open>The dynamic array: symbol table, string table and symbol size.\<close>

fun scan_dynamic ::
    "os_view \<Rightarrow> c_int \<Rightarrow> u64 \<Rightarrow> nat \<Rightarrow> u64 \<times> u64 \<times> u64 \<Rightarrow> u64 \<times> u64 \<times> u64" where
  "scan_dynamic os fd addr 0 st = st"
| "scan_dynamic os fd addr (Suc k) (symtab, strtab, syment) =
     (case mr_Read os fd addr 16 of
        None \<Rightarrow> (symtab, strtab, syment)
      | Some d \<Rightarrow>
          let tag = field_at 0 8 d; v = of_nat (field_at 8 8 d) :: u64 in
          if tag = 0 then (symtab, strtab, syment)
          else scan_dynamic os fd (addr + 16) k
            (if tag = 6 then (v, strtab, syment)
             else if tag = 5 then (symtab, v, syment)
             else if tag = 11 then (symtab, strtab, v)
             else (symtab, strtab, syment)))"

type_synonym name_cache = "u64 \<Rightarrow> string option"

definition kOffsetMask :: u64 where
  "kOffsetMask = push_bit 20 1 - 1"

text \<open>
  \<^verbatim>\<open>emplace\<close> of a symbol under its low bits: an empty name marks two symbols that share
  them.
\<close>

definition record_offset :: "u64 \<Rightarrow> string \<Rightarrow> name_cache \<Rightarrow> name_cache" where
  "record_offset runtime name oc =
     (let key = runtime AND kOffsetMask in
      case oc key of
        None \<Rightarrow> oc(key \<mapsto> name)
      | Some old \<Rightarrow> if old \<noteq> name \<and> old \<noteq> [] then oc(key \<mapsto> []) else oc)"

text \<open>One symbol-table entry: \<open>None\<close> when it is not a kernel descriptor.\<close>

definition kd_symbol ::
    "(string \<Rightarrow> string option) \<Rightarrow> os_view \<Rightarrow> c_int \<Rightarrow> u64 \<Rightarrow> u64 \<Rightarrow> bytes \<Rightarrow> (u64 \<times> string) option" where
  "kd_symbol dm os fd strtab bias ent =
     (let st_name = of_nat (field_at 0 4 ent) :: u64;
          st_value = of_nat (field_at 8 8 ent) :: u64 in
      if st_name = 0 \<or> st_value = 0 then None
      else
        let name = PeekStr os fd (strtab + st_name) in
        if length name < 4 then None
        else if drop (length name - 3) name \<noteq> ''.kd'' then None
        else Some (st_value + bias, Demangle dm (take (length name - 3) name)))"

fun scan_symbols ::
    "(string \<Rightarrow> string option) \<Rightarrow> os_view \<Rightarrow> c_int \<Rightarrow> u64 \<Rightarrow> u64 \<Rightarrow> u64 \<Rightarrow> u64 \<Rightarrow> nat \<Rightarrow>
      name_cache \<times> name_cache \<Rightarrow> name_cache \<times> name_cache" where
  "scan_symbols dm os fd addr syment strtab bias 0 cs = cs"
| "scan_symbols dm os fd addr syment strtab bias (Suc k) (cache, oc) =
     (case mr_Read os fd addr 24 of
        None \<Rightarrow> (cache, oc)
      | Some ent \<Rightarrow>
          scan_symbols dm os fd (addr + syment) syment strtab bias k
            (case kd_symbol dm os fd strtab bias ent of
               None \<Rightarrow> (cache, oc)
             | Some (runtime, name) \<Rightarrow> (cache(runtime \<mapsto> name), record_offset runtime name oc)))"

definition ScanImage ::
    "(string \<Rightarrow> string option) \<Rightarrow> os_view \<Rightarrow> c_int \<Rightarrow> u64 \<Rightarrow>
      name_cache \<times> name_cache \<Rightarrow> name_cache \<times> name_cache" where
  "ScanImage dm os fd base cs =
     (case mr_Read os fd base 64 of
        None \<Rightarrow> cs
      | Some eh \<Rightarrow>
          if take 4 eh \<noteq> kElfMag then cs
          else
            let e_phoff = of_nat (field_at 32 8 eh) :: u64; e_phnum = field_at 56 2 eh in
            case scan_phdrs os fd (base + e_phoff) e_phnum (- 1, 0, 0) of
              None \<Rightarrow> cs
            | Some (mv, dyn_vaddr, dyn_sz) \<Rightarrow>
                let min_vaddr = (if mv = - 1 then 0 else mv);
                    bias = base - min_vaddr
                in
                if dyn_vaddr = 0 then cs
                else
                  (case scan_dynamic os fd (bias + dyn_vaddr) (unat (dyn_sz div 16)) (0, 0, 24) of
                     (symtab0, strtab0, syment) \<Rightarrow>
                       if symtab0 = 0 \<or> strtab0 = 0 \<or> syment = 0 then cs
                       else
                         let rebase = (\<lambda>p. if p < base then p + bias else p);
                             symtab = rebase symtab0; strtab = rebase strtab0
                         in
                         if strtab \<le> symtab then cs
                         else
                           let n = (strtab - symtab) div syment in
                           if n = 0 \<or> 200000 < n then cs
                           else scan_symbols dm os fd symtab syment strtab bias (unat n) cs))"

section \<open>The resolver\<close>

record KernelSymbolResolver =
  ks_pid :: c_int
  ks_cache :: name_cache
  ks_offset_cache :: name_cache
  ks_scanned_generation :: int

definition new_KernelSymbolResolver :: "c_int \<Rightarrow> KernelSymbolResolver" where
  "new_KernelSymbolResolver pid =
     \<lparr> ks_pid = pid, ks_cache = Map.empty, ks_offset_cache = Map.empty,
       ks_scanned_generation = 0 \<rparr>"

definition ScanCodeObjects ::
    "(string \<Rightarrow> string option) \<Rightarrow> os_view \<Rightarrow> KernelSymbolResolver \<Rightarrow> KernelSymbolResolver" where
  "ScanCodeObjects dm os ks =
     (let fd = MemReader os (ks_pid ks);
          bases = FindElfBases os (ks_pid ks) fd;
          cs = fold (ScanImage dm os fd) bases (ks_cache ks, ks_offset_cache ks)
      in ks\<lparr>ks_cache := fst cs, ks_offset_cache := snd cs,
            ks_scanned_generation := ks_scanned_generation ks + 1\<rparr>)"

definition hex_label :: "u64 \<Rightarrow> string" where
  "hex_label ko = ''kernel_0x'' @ show_hex (unat ko)"

definition Resolve ::
    "(string \<Rightarrow> string option) \<Rightarrow> os_view \<Rightarrow> KernelSymbolResolver \<Rightarrow> u64 \<Rightarrow>
      KernelSymbolResolver \<times> string" where
  "Resolve dm os ks ko =
     (case ks_cache ks ko of
        Some name \<Rightarrow> (ks, name)
      | None \<Rightarrow>
          let ks' = ScanCodeObjects dm os ks in
          (case ks_cache ks' ko of
             Some name \<Rightarrow> (ks', name)
           | None \<Rightarrow>
               let name = (case ks_offset_cache ks' (ko AND kOffsetMask) of
                             Some n \<Rightarrow> if n \<noteq> [] then n else hex_label ko
                           | None \<Rightarrow> hex_label ko)
               in (ks'\<lparr>ks_cache := (ks_cache ks')(ko \<mapsto> name)\<rparr>, name)))"

section \<open>A scan is a sequence of recorded symbols\<close>

type_synonym symbol_log = "(u64 \<times> string) list"

definition record_symbol :: "u64 \<times> string \<Rightarrow> name_cache \<times> name_cache \<Rightarrow> name_cache \<times> name_cache" where
  "record_symbol s cs = ((fst cs)(fst s \<mapsto> snd s), record_offset (fst s) (snd s) (snd cs))"

definition named_log :: "symbol_log \<Rightarrow> bool" where
  "named_log syms = (\<forall>s \<in> set syms. snd s \<noteq> [])"

text \<open>
  \<open>f\<close> only records symbols: its effect on any pair of caches is that of one list of named
  symbols. Every stage of a scan is of this kind.
\<close>

definition records_only :: "(name_cache \<times> name_cache \<Rightarrow> name_cache \<times> name_cache) \<Rightarrow> bool" where
  "records_only f = (\<exists>syms. named_log syms \<and> f = fold record_symbol syms)"

named_theorems records "stages of a scan that only record symbols"

lemma records_only_id [records]: "records_only (\<lambda>cs. cs)"
proof -
  have "named_log [] \<and> (\<lambda>cs. cs) = fold record_symbol []"
    by (auto simp: named_log_def)
  then show ?thesis unfolding records_only_def by blast
qed

lemma records_only_comp:
  assumes "records_only f" and "records_only g"
  shows "records_only (\<lambda>cs. g (f cs))"
proof -
  obtain xs ys where xs: "named_log xs" and f: "f = fold record_symbol xs"
    and ys: "named_log ys" and g: "g = fold record_symbol ys"
    using assms by (auto simp: records_only_def)
  have "named_log (xs @ ys)" using xs ys by (auto simp: named_log_def)
  moreover have "(\<lambda>cs. g (f cs)) = fold record_symbol (xs @ ys)"
    unfolding f g by (simp add: comp_def)
  ultimately show ?thesis unfolding records_only_def by blast
qed

lemma records_only_one: "snd s \<noteq> [] \<Longrightarrow> records_only (record_symbol s)"
proof -
  assume "snd s \<noteq> []"
  then have "named_log [s] \<and> record_symbol s = fold record_symbol [s]"
    by (auto simp: named_log_def)
  then show ?thesis unfolding records_only_def by blast
qed

lemma records_only_fold:
  assumes "\<And>x. records_only (f x)"
  shows "records_only (fold f xs)"
proof (induction xs)
  case Nil
  have "fold f [] = (\<lambda>cs. cs)" by (rule ext) simp
  then show ?case by (simp only: records_only_id)
next
  case (Cons x xs)
  have "fold f (x # xs) = (\<lambda>cs. fold f xs (f x cs))" by (rule ext) simp
  then show ?case
    using records_only_comp [OF assms Cons.IH] by (simp only:)
qed

text \<open>The demangler never answers with an empty name.\<close>

definition demangler_ok :: "(string \<Rightarrow> string option) \<Rightarrow> bool" where
  "demangler_ok dm = (\<forall>s. dm s \<noteq> Some [])"

lemma kd_symbol_named:
  assumes "demangler_ok dm" and "kd_symbol dm os fd strtab bias ent = Some s"
  shows "snd s \<noteq> []"
  using assms
  by (auto simp: kd_symbol_def Demangle_def demangler_ok_def Let_def
      split: if_splits option.splits)

lemma records_only_scan_symbols:
  assumes "demangler_ok dm"
  shows "records_only (scan_symbols dm os fd addr syment strtab bias k)"
proof (induction k arbitrary: addr)
  case 0
  have "scan_symbols dm os fd addr syment strtab bias 0 = (\<lambda>cs. cs)" by (rule ext) simp
  then show ?case by (simp add: records_only_id)
next
  case (Suc k)
  show ?case
  proof (cases "mr_Read os fd addr 24")
    case None
    then have "scan_symbols dm os fd addr syment strtab bias (Suc k) = (\<lambda>cs. cs)"
      by (auto simp: fun_eq_iff)
    then show ?thesis by (simp add: records_only_id)
  next
    case read: (Some ent)
    let ?rest = "scan_symbols dm os fd (addr + syment) syment strtab bias k"
    show ?thesis
    proof (cases "kd_symbol dm os fd strtab bias ent")
      case None
      with read have "scan_symbols dm os fd addr syment strtab bias (Suc k) = ?rest"
        by (auto simp: fun_eq_iff)
      then show ?thesis by (simp add: Suc.IH)
    next
      case (Some s)
      with read have "scan_symbols dm os fd addr syment strtab bias (Suc k)
          = (\<lambda>cs. ?rest (record_symbol s cs))"
        by (cases s) (auto simp: fun_eq_iff record_symbol_def)
      moreover have "records_only (record_symbol s)"
        using assms Some by (intro records_only_one) (rule kd_symbol_named)
      ultimately show ?thesis
        using Suc.IH by (simp add: records_only_comp)
    qed
  qed
qed

text \<open>The stages of \<^verbatim>\<open>ScanImage\<close>: either it gives up, or it walks one symbol table.\<close>

lemma records_only_if [records]:
  "records_only f \<Longrightarrow> records_only g \<Longrightarrow> records_only (\<lambda>cs. if b then f cs else g cs)"
  by (cases b) simp_all

lemma records_only_option [records]:
  "records_only f \<Longrightarrow> (\<And>x. records_only (g x)) \<Longrightarrow>
     records_only (\<lambda>cs. case r of None \<Rightarrow> f cs | Some x \<Rightarrow> g x cs)"
  by (cases r) simp_all

lemma records_only_triple [records]:
  "(\<And>a b c. records_only (g a b c)) \<Longrightarrow>
     records_only (\<lambda>cs. case r of (a, b, c) \<Rightarrow> g a b c cs)"
  by (cases r) simp

lemma records_only_ScanImage:
  assumes "demangler_ok dm"
  shows "records_only (ScanImage dm os fd base)"
proof -
  note sym = records_only_scan_symbols [OF assms]
  show ?thesis
    unfolding ScanImage_def [abs_def] Let_def
    by (intro records sym)
qed

lemma ScanCodeObjects_log:
  assumes "demangler_ok dm"
  obtains syms where "named_log syms"
    and "(ks_cache (ScanCodeObjects dm os ks), ks_offset_cache (ScanCodeObjects dm os ks))
           = fold record_symbol syms (ks_cache ks, ks_offset_cache ks)"
proof -
  have "records_only (fold (ScanImage dm os (MemReader os (ks_pid ks)))
      (FindElfBases os (ks_pid ks) (MemReader os (ks_pid ks))))"
    using records_only_ScanImage [OF assms] by (rule records_only_fold)
  then show ?thesis
    using that by (auto simp: records_only_def ScanCodeObjects_def Let_def)
qed

section \<open>What the caches hold\<close>

definition low_names :: "symbol_log \<Rightarrow> u64 \<Rightarrow> string list" where
  "low_names syms key = map snd (filter (\<lambda>s. fst s AND kOffsetMask = key) syms)"

text \<open>
  The contract of the fallback cache: nothing for low bits no symbol has, the name when all
  symbols with these low bits agree on it, the empty name when they do not.
\<close>

definition offset_spec :: "symbol_log \<Rightarrow> name_cache" where
  "offset_spec syms key =
     (case low_names syms key of
        [] \<Rightarrow> None
      | n # ns \<Rightarrow> Some (if \<forall>m \<in> set ns. m = n then n else []))"

lemma low_names_snoc:
  "low_names (syms @ [s]) key =
     low_names syms key @ (if fst s AND kOffsetMask = key then [snd s] else [])"
  by (simp add: low_names_def)

lemma low_names_nonempty: "named_log syms \<Longrightarrow> n \<in> set (low_names syms key) \<Longrightarrow> n \<noteq> []"
  by (auto simp: low_names_def named_log_def)

lemma record_offset_same:
  assumes "named_log hist" and "snd s \<noteq> []" and key: "key = fst s AND kOffsetMask"
  shows "record_offset (fst s) (snd s) (offset_spec hist) key = offset_spec (hist @ [s]) key"
proof (cases "low_names hist key")
  case Nil
  with key show ?thesis
    by (simp add: record_offset_def offset_spec_def low_names_snoc)
next
  case (Cons n ns)
  then have "n \<noteq> []" using low_names_nonempty [OF assms(1), of n key] by simp
  with Cons key show ?thesis
    by (simp add: record_offset_def offset_spec_def low_names_snoc)
qed

lemma record_offset_other:
  "key \<noteq> fst s AND kOffsetMask \<Longrightarrow>
     record_offset (fst s) (snd s) (offset_spec hist) key = offset_spec (hist @ [s]) key"
  by (simp add: record_offset_def offset_spec_def low_names_snoc Let_def split: option.split)

lemma record_offset_spec:
  assumes "named_log hist" and "snd s \<noteq> []"
  shows "record_offset (fst s) (snd s) (offset_spec hist) = offset_spec (hist @ [s])"
  using record_offset_same [OF assms] record_offset_other [of _ s hist]
  by (intro ext) metis

lemma fold_record_offset:
  assumes "named_log hist" and "named_log syms"
  shows "snd (fold record_symbol syms (c, offset_spec hist)) = offset_spec (hist @ syms)"
  using assms
proof (induction syms arbitrary: c hist)
  case (Cons s syms)
  have "record_offset (fst s) (snd s) (offset_spec hist) = offset_spec (hist @ [s])"
    using Cons.prems by (intro record_offset_spec) (auto simp: named_log_def)
  moreover have "named_log (hist @ [s])" and "named_log syms"
    using Cons.prems by (auto simp: named_log_def)
  ultimately show ?case
    using Cons.IH [of "hist @ [s]"] by (simp add: record_symbol_def)
qed simp

lemma fold_record_exact:
  "fst (fold record_symbol syms (c, oc)) ko = Some n \<Longrightarrow> (ko, n) \<in> set syms \<or> c ko = Some n"
proof (induction syms arbitrary: c oc)
  case (Cons s syms)
  have "fst (fold record_symbol syms (c(fst s \<mapsto> snd s), record_offset (fst s) (snd s) oc)) ko
      = Some n"
    using Cons.prems by (simp add: record_symbol_def [of s "(c, oc)"])
  from Cons.IH [OF this] show ?case
    by (cases s) (auto split: if_splits)
qed simp

text \<open>The resolver's invariant, over the hist of every symbol it has seen.\<close>

definition resolver_log :: "KernelSymbolResolver \<Rightarrow> symbol_log \<Rightarrow> bool" where
  "resolver_log ks hist = (named_log hist \<and> ks_offset_cache ks = offset_spec hist)"

lemma resolver_log_new: "resolver_log (new_KernelSymbolResolver pid) []"
  by (auto simp: resolver_log_def new_KernelSymbolResolver_def named_log_def offset_spec_def
      low_names_def)

lemma ScanCodeObjects_resolver_log:
  assumes "demangler_ok dm" and "resolver_log ks hist"
  obtains new where "resolver_log (ScanCodeObjects dm os ks) (hist @ new)"
    and "\<And>ko n. ks_cache ks ko = None \<Longrightarrow> ks_cache (ScanCodeObjects dm os ks) ko = Some n \<Longrightarrow>
           (ko, n) \<in> set new"
proof -
  obtain new where new: "named_log new"
    and eq: "(ks_cache (ScanCodeObjects dm os ks), ks_offset_cache (ScanCodeObjects dm os ks))
           = fold record_symbol new (ks_cache ks, ks_offset_cache ks)"
    using ScanCodeObjects_log [OF assms(1)] .
  have "ks_offset_cache (ScanCodeObjects dm os ks) = offset_spec (hist @ new)"
    using fold_record_offset [of hist new "ks_cache ks"] assms(2) new eq
    by (simp add: resolver_log_def prod_eq_iff)
  then have "resolver_log (ScanCodeObjects dm os ks) (hist @ new)"
    using assms(2) new by (auto simp: resolver_log_def named_log_def)
  moreover have "(ko, n) \<in> set new"
    if "ks_cache ks ko = None" and "ks_cache (ScanCodeObjects dm os ks) ko = Some n" for ko n
    using fold_record_exact [of new "ks_cache ks" "ks_offset_cache ks" ko n] that eq
    by (simp add: prod_eq_iff)
  ultimately show ?thesis by (rule that)
qed

lemma offset_spec_agrees:
  assumes "offset_spec hist key = Some n" and "n \<noteq> []"
  shows "\<exists>r. (r, n) \<in> set hist \<and> r AND kOffsetMask = key"
    and "\<forall>(r, m) \<in> set hist. r AND kOffsetMask = key \<longrightarrow> m = n"
proof -
  obtain ns where ns: "low_names hist key = n # ns" and all: "\<forall>m \<in> set ns. m = n"
    using assms by (auto simp: offset_spec_def split: list.splits if_splits)
  then have "n \<in> set (low_names hist key)" by simp
  then show "\<exists>r. (r, n) \<in> set hist \<and> r AND kOffsetMask = key"
    by (auto simp: low_names_def)
  have "m \<in> set (low_names hist key)" if "(r, m) \<in> set hist" "r AND kOffsetMask = key" for r m
    using that by (force simp: low_names_def)
  then show "\<forall>(r, m) \<in> set hist. r AND kOffsetMask = key \<longrightarrow> m = n"
    using ns all by auto
qed

section \<open>What Resolve answers\<close>

text \<open>A resolved name is stable: the same address gets it again from the cache alone.\<close>

lemma Resolve_cached:
  "Resolve dm os ks ko = (ks', name) \<Longrightarrow> Resolve dm os' ks' ko = (ks', name)"
  by (auto simp: Resolve_def Let_def split: option.splits)

lemma Resolve_hit: "ks_cache ks ko = Some n \<Longrightarrow> Resolve dm os ks ko = (ks, n)"
  by (simp add: Resolve_def)

text \<open>
  On a miss the answer is the name of a symbol at exactly that address, or the one name all
  symbols with its low bits share, or the hexadecimal label.
\<close>

lemma Resolve_miss:
  assumes dm: "demangler_ok dm" and hist: "resolver_log ks hist" and miss: "ks_cache ks ko = None"
    and res: "Resolve dm os ks ko = (ks', name)"
  shows "\<exists>new. resolver_log ks' (hist @ new) \<and>
           ((ko, name) \<in> set new \<or>
            (\<exists>r. (r, name) \<in> set (hist @ new) \<and> r AND kOffsetMask = ko AND kOffsetMask) \<and>
            (\<forall>(r, m) \<in> set (hist @ new). r AND kOffsetMask = ko AND kOffsetMask \<longrightarrow> m = name) \<or>
            name = hex_label ko)"
proof -
  let ?s = "ScanCodeObjects dm os ks"
  obtain new where new: "resolver_log ?s (hist @ new)"
    and exact: "\<And>k n. ks_cache ks k = None \<Longrightarrow> ks_cache ?s k = Some n \<Longrightarrow> (k, n) \<in> set new"
    using ScanCodeObjects_resolver_log [OF dm hist] by blast
  have keep: "resolver_log (?s\<lparr>ks_cache := c\<rparr>) (hist @ new)" for c
    using new by (simp add: resolver_log_def)
  show ?thesis
  proof (cases "ks_cache ?s ko")
    case (Some n)
    with miss res have "ks' = ?s" "name = n" by (simp_all add: Resolve_def)
    with new exact [OF miss Some] show ?thesis by blast
  next
    case None
    with miss res have ks': "ks' = ?s\<lparr>ks_cache := (ks_cache ?s)(ko \<mapsto> name)\<rparr>"
      and name: "name = (case ks_offset_cache ?s (ko AND kOffsetMask) of
          Some n \<Rightarrow> if n \<noteq> [] then n else hex_label ko | None \<Rightarrow> hex_label ko)"
      by (auto simp: Resolve_def Let_def)
    have oc: "ks_offset_cache ?s = offset_spec (hist @ new)"
      using new by (simp add: resolver_log_def)
    show ?thesis
    proof (cases "name = hex_label ko")
      case True
      with ks' keep show ?thesis by blast
    next
      case False
      then have "offset_spec (hist @ new) (ko AND kOffsetMask) = Some name" and "name \<noteq> []"
        using name oc by (auto split: option.splits if_splits)
      note agree = offset_spec_agrees [OF this]
      from ks' keep agree show ?thesis by blast
    qed
  qed
qed

end
