(* ===== verification/Ring_State.thy ===== *)
theory Ring_State
  imports Data_Model Kernel_Symbols
begin

text \<open>
  The per-queue state of \<^verbatim>\<open>RingParser\<close> (\<^verbatim>\<open>src/parser.h\<close>), the pointer reads both ring
  formats start with (\<^verbatim>\<open>src/parser.cpp\<close>), and the contract a poller of either format
  keeps: the locale \<open>poll_machine\<close>, whose run-level theorems both pollers obtain by
  interpretation.
\<close>

section \<open>Queue state\<close>

text \<open>\<open>qs_page_host\<close> is an \<^verbatim>\<open>unordered_map\<close>; its order is not observable.\<close>

record QueueState =
  qs_info :: QueueInfo
  qs_ksym :: "KernelSymbolResolver option"
  qs_next_id :: u64
  qs_last_rptr :: u64
  qs_primed :: bool
  qs_dropped :: u64
  qs_inflight :: "(u64, PacketRecord) odict"
  qs_sdma_seq :: u64
  qs_sdma_inflight :: "(u64, SdmaRecord) odict"
  qs_page_host :: "(u64, bool) odict"
  qs_read_fail_count :: c_int
  qs_evict :: bool

definition new_QueueState :: "QueueInfo \<Rightarrow> QueueState" where
  "new_QueueState q =
     \<lparr> qs_info = q, qs_ksym = None, qs_next_id = 0, qs_last_rptr = 0, qs_primed = False,
       qs_dropped = 0, qs_inflight = [], qs_sdma_seq = 0, qs_sdma_inflight = [],
       qs_page_host = [], qs_read_fail_count = 0, qs_evict = False \<rparr>"

section \<open>Pointers\<close>

text \<open>
  The target runs while it is read. A poll is given the operating system's view at each of
  its moments: the pointers are read at moments 0 and 1, the k-th packet at moment \<open>k + 2\<close>.
\<close>

type_synonym moments = "nat \<Rightarrow> os_view"

definition ReadQueuePtr :: "os_view \<Rightarrow> fd_cache \<Rightarrow> c_int \<Rightarrow> u64 \<Rightarrow> fd_cache \<times> u64 option" where
  "ReadQueuePtr os c pid va =
     (case ReadU64 os pid va of
        Some v \<Rightarrow> (c, Some v)
      | None \<Rightarrow> ReadU64ViaMem os c pid va)"

text \<open>
  The condition both polls open with. \<open>Some (wptr, rptr)\<close> when both reads succeed; the
  second read is not made when the first fails.
\<close>

definition read_pointers ::
    "moments \<Rightarrow> fd_cache \<Rightarrow> QueueInfo \<Rightarrow> fd_cache \<times> (u64 \<times> u64) option" where
  "read_pointers os c q =
     (case ReadQueuePtr (os 0) c (q_pid q) (q_wptr_addr q) of
        (c1, None) \<Rightarrow> (c1, None)
      | (c1, Some wptr) \<Rightarrow>
          (case ReadQueuePtr (os 1) c1 (q_pid q) (q_rptr_addr q) of
             (c2, None) \<Rightarrow> (c2, None)
           | (c2, Some rptr) \<Rightarrow> (c2, Some (wptr, rptr))))"

definition kEvictThreshold :: c_int where
  "kEvictThreshold = 50"

text \<open>The failure branch of both polls: count, and evict at the threshold.\<close>

definition read_failed :: "QueueState \<Rightarrow> QueueState" where
  "read_failed qs =
     (let n = qs_read_fail_count qs + 1 in
      qs\<lparr>qs_read_fail_count := n, qs_evict := (if kEvictThreshold \<le> n then True else qs_evict qs)\<rparr>)"

lemma ReadQueuePtr_cache_ok:
  assumes "\<And>pid. os_open_mem os pid = os_open_mem os' pid" and "cache_ok os' c"
    and "ReadQueuePtr os c pid va = (c', r)"
  shows "cache_ok os' c'"
  using assms
  by (auto simp: ReadQueuePtr_def ReadU64ViaMem_def ReadProcMemViaMem_def refresh_cache_def
      cache_ok_def Let_def split: option.splits prod.splits if_splits)

lemma read_failed_simps [simp]:
  "qs_info (read_failed qs) = qs_info qs"
  "qs_ksym (read_failed qs) = qs_ksym qs"
  "qs_next_id (read_failed qs) = qs_next_id qs"
  "qs_primed (read_failed qs) = qs_primed qs"
  "qs_dropped (read_failed qs) = qs_dropped qs"
  "qs_inflight (read_failed qs) = qs_inflight qs"
  "qs_sdma_seq (read_failed qs) = qs_sdma_seq qs"
  "qs_sdma_inflight (read_failed qs) = qs_sdma_inflight qs"
  "qs_page_host (read_failed qs) = qs_page_host qs"
  "qs_read_fail_count (read_failed qs) = qs_read_fail_count qs + 1"
  "qs_evict (read_failed qs) = (qs_evict qs \<or> kEvictThreshold \<le> qs_read_fail_count qs + 1)"
  by (simp_all add: read_failed_def Let_def)

section \<open>Skipping what the producer has overwritten\<close>

text \<open>The guard against slots the producer has wrapped over.\<close>

definition skip_lapped :: "u64 \<Rightarrow> u64 \<Rightarrow> QueueState \<Rightarrow> QueueState" where
  "skip_lapped cap wptr qs =
     (if qs_next_id qs + cap < wptr then
        qs\<lparr>qs_dropped := qs_dropped qs + ((wptr - qs_next_id qs) - cap), qs_next_id := wptr - cap\<rparr>
      else qs)"

lemma skip_frame [simp]:
  "qs_info (skip_lapped cap w qs) = qs_info qs" "qs_inflight (skip_lapped cap w qs) = qs_inflight qs"
  "qs_ksym (skip_lapped cap w qs) = qs_ksym qs" "qs_primed (skip_lapped cap w qs) = qs_primed qs"
  "qs_last_rptr (skip_lapped cap w qs) = qs_last_rptr qs"
  "qs_read_fail_count (skip_lapped cap w qs) = qs_read_fail_count qs"
  "qs_evict (skip_lapped cap w qs) = qs_evict qs"
  "qs_sdma_seq (skip_lapped cap w qs) = qs_sdma_seq qs"
  "qs_sdma_inflight (skip_lapped cap w qs) = qs_sdma_inflight qs"
  "qs_page_host (skip_lapped cap w qs) = qs_page_host qs"
  by (simp_all add: skip_lapped_def)

text \<open>
  Skipping never moves back, never past the write pointer, leaves at most one lap to read and
  counts what it skips.
\<close>

lemma skip_lapped_bounds:
  assumes "unat (qs_next_id qs) + unat cap < 2 ^ 64"
  shows "qs_next_id qs \<le> qs_next_id (skip_lapped cap w qs)"
    and "qs_next_id (skip_lapped cap w qs) = qs_next_id qs \<or> qs_next_id (skip_lapped cap w qs) \<le> w"
    and "unat w \<le> unat (qs_next_id (skip_lapped cap w qs)) + unat cap"
    and "qs_next_id (skip_lapped cap w qs) - qs_next_id qs
           = qs_dropped (skip_lapped cap w qs) - qs_dropped qs"
proof -
  let ?n = "qs_next_id qs"
  have sum: "unat (?n + cap) = unat ?n + unat cap"
    using assms by (intro unat_add_no_wrap) simp
  have d: "unat (w - cap) = unat w - unat cap" if "?n + cap < w"
    using that sum by (intro unat_sub) (simp add: word_less_nat_alt word_le_nat_alt)
  show "?n \<le> qs_next_id (skip_lapped cap w qs)"
    using sum d by (auto simp: skip_lapped_def word_less_nat_alt word_le_nat_alt)
  show "qs_next_id (skip_lapped cap w qs) = ?n \<or> qs_next_id (skip_lapped cap w qs) \<le> w"
    using sum d by (auto simp: skip_lapped_def word_less_nat_alt word_le_nat_alt)
  show "unat w \<le> unat (qs_next_id (skip_lapped cap w qs)) + unat cap"
    using sum d by (auto simp: skip_lapped_def word_less_nat_alt word_le_nat_alt)
  show "qs_next_id (skip_lapped cap w qs) - ?n = qs_dropped (skip_lapped cap w qs) - qs_dropped qs"
    by (simp add: skip_lapped_def)
qed

text \<open>One step below a bound does not wrap.\<close>

lemma next_less:
  fixes n w :: u64
  assumes "n < w"
  shows "n < n + 1" and "n + 1 \<le> w"
  using assms unat_inc [OF assms] by (simp_all add: word_less_nat_alt word_le_nat_alt)

section \<open>Retiring\<close>

text \<open>
  The final loop of both polls: from the front of the ordered map, retire the entries \<open>done\<close>
  accepts, stop at the first it does not.
\<close>

fun retire :: "('k \<Rightarrow> bool) \<Rightarrow> ('v \<Rightarrow> 'v) \<Rightarrow> ('k, 'v) odict \<Rightarrow> 'v list \<times> ('k, 'v) odict" where
  "retire fin stamp [] = ([], [])"
| "retire fin stamp ((k, r) # m) =
     (if \<not> fin k then ([], (k, r) # m)
      else case retire fin stamp m of (out, m') \<Rightarrow> (stamp r # out, m'))"

lemma retire_eq:
  "retire fin stamp m =
     (map (stamp \<circ> snd) (takeWhile (fin \<circ> fst) m), dropWhile (fin \<circ> fst) m)"
  by (induction fin stamp m rule: retire.induct) auto

text \<open>Stopping at the first entry loses nothing: in a sorted map the retirable keys are a prefix.\<close>

lemma takeWhile_sorted_keys:
  assumes "od_ok m" and "\<And>k k'. k < k' \<Longrightarrow> fin k' \<Longrightarrow> fin k"
  shows "takeWhile (fin \<circ> fst) m = filter (fin \<circ> fst) m"
    and "dropWhile (fin \<circ> fst) m = filter (Not \<circ> fin \<circ> fst) m"
proof -
  have none: "filter (fin \<circ> fst) m = [] \<and> filter (Not \<circ> fin \<circ> fst) m = m"
    if "\<forall>k' \<in> set (keys m). k < k'" and "\<not> fin k" for k and m :: "('a \<times> 'b) list"
  proof -
    have "\<not> fin (fst kv)" if "kv \<in> set m" for kv
      using that \<open>\<forall>k' \<in> set (keys m). k < k'\<close> \<open>\<not> fin k\<close> assms(2) by (auto simp: keys_def)
    then show ?thesis by (auto simp: filter_empty_conv intro!: filter_True)
  qed
  have "takeWhile (fin \<circ> fst) m = filter (fin \<circ> fst) m \<and>
      dropWhile (fin \<circ> fst) m = filter (Not \<circ> fin \<circ> fst) m"
    using assms(1)
  proof (induction m)
    case (Cons kv m)
    obtain k r where kv: "kv = (k, r)" by force
    with Cons none [of m k] show ?case by (auto simp: comp_def)
  qed simp
  then show "takeWhile (fin \<circ> fst) m = filter (fin \<circ> fst) m"
    and "dropWhile (fin \<circ> fst) m = filter (Not \<circ> fin \<circ> fst) m" by simp_all
qed

lemma retire_sorted:
  assumes "od_ok m" and "\<And>k k'. k < k' \<Longrightarrow> fin k' \<Longrightarrow> fin k"
  shows "retire fin stamp m =
     (map (stamp \<circ> snd) (filter (fin \<circ> fst) m), filter (Not \<circ> fin \<circ> fst) m)"
  using takeWhile_sorted_keys [OF assms] by (simp add: retire_eq)

lemma retire_keeps:
  assumes "retire fin stamp m = (out, m')"
  shows "length out + length m' = length m" and "od_ok m \<Longrightarrow> od_ok m'"
    and "set m' \<subseteq> set m" and "set out \<subseteq> (stamp \<circ> snd) ` {kv \<in> set m. fin (fst kv)}"
    and "m' = [] \<or> \<not> fin (fst (hd m'))"
proof -
  let ?P = "fin \<circ> fst"
  have m': "m' = dropWhile ?P m" and out: "out = map (stamp \<circ> snd) (takeWhile ?P m)"
    using assms by (simp_all add: retire_eq)
  have "length (takeWhile ?P m @ dropWhile ?P m) = length m" by simp
  then show "length out + length m' = length m" using m' out by (simp del: takeWhile_dropWhile_id)
  show "od_ok m'" if "od_ok m"
  proof -
    have "od_ok (takeWhile ?P m @ dropWhile ?P m)" using that by simp
    then show ?thesis
      unfolding m' od_ok_def keys_def map_append sorted_wrt_append by simp
  qed
  show "set m' \<subseteq> set m" using m' set_dropWhileD by fastforce
  show "set out \<subseteq> (stamp \<circ> snd) ` {kv \<in> set m. fin (fst kv)}"
    using out by (auto dest!: set_takeWhileD)
  show "m' = [] \<or> \<not> fin (fst (hd m'))"
    using m' hd_dropWhile [of ?P m] by auto
qed

lemma od_ok_dropWhile: "od_ok m \<Longrightarrow> od_ok (dropWhile P m)"
proof -
  assume "od_ok m"
  then have "od_ok (takeWhile P m @ dropWhile P m)" by simp
  then show "od_ok (dropWhile P m)"
    unfolding od_ok_def keys_def map_append sorted_wrt_append by simp
qed

lemma keys_dropWhile: "set (dropWhile P m) \<subseteq> set m"
  by (auto dest: set_dropWhileD)

lemma retired_prefix:
  fixes rptr :: u64
  shows "od_ok m \<Longrightarrow> takeWhile (\<lambda>kr. fst kr < rptr) m = filter (\<lambda>kr. fst kr < rptr) m"
    and "od_ok m \<Longrightarrow> dropWhile (\<lambda>kr. fst kr < rptr) m = filter (\<lambda>kr. \<not> fst kr < rptr) m"
  using takeWhile_sorted_keys [of m "\<lambda>k. k < rptr"] by (auto simp: comp_def)

lemma distinct_keys_split:
  "distinct (map fst m) \<Longrightarrow>
     distinct (map fst (filter (\<lambda>kr. P (fst kr)) m) @ map fst (filter (\<lambda>kr. \<not> P (fst kr)) m))"
  by (induction m) auto

lemma distinct_unat: "distinct (map unat xs) = distinct (xs :: 'a::len word list)"
  by (simp add: distinct_map inj_on_def flip: word_unat_eq_iff)

lemma unat_image_subset:
  fixes A B :: "'a::len word set"
  assumes "A \<subseteq> B \<union> {lo..<hi}"
  shows "unat ` A \<subseteq> unat ` B \<union> {unat lo..<unat hi}"
  using assms by (auto simp: word_le_nat_alt word_less_nat_alt)

section \<open>The contract of a poller\<close>

text \<open>
  \<open>frontier\<close> numbers the packets taken from the ring so far, \<open>pending\<close> the numbers still in
  flight. A poll may retire pending packets and take new ones, it never hands out a number
  twice, and it accounts for every packet: \<open>account\<close> grows by exactly what it emits.
\<close>

fun poll_run :: "('e \<Rightarrow> 's \<Rightarrow> 's \<times> 'r list) \<Rightarrow> 'e list \<Rightarrow> 's \<Rightarrow> 's \<times> 'r list" where
  "poll_run poll [] s = (s, [])"
| "poll_run poll (e # es) s =
     (case poll e s of (s1, out1) \<Rightarrow>
        case poll_run poll es s1 of (s2, out2) \<Rightarrow> (s2, out1 @ out2))"

fun poll_run_ok ::
    "('e \<Rightarrow> 's \<Rightarrow> 's \<times> 'r list) \<Rightarrow> ('e \<Rightarrow> 's \<Rightarrow> bool) \<Rightarrow> 'e list \<Rightarrow> 's \<Rightarrow> bool" where
  "poll_run_ok poll ok [] s = True"
| "poll_run_ok poll ok (e # es) s = (ok e s \<and> poll_run_ok poll ok es (fst (poll e s)))"

locale poll_machine =
  fixes poll :: "'e \<Rightarrow> 's \<Rightarrow> 's \<times> 'r list"
    and ok :: "'e \<Rightarrow> 's \<Rightarrow> bool"
    and inv :: "'s \<Rightarrow> bool"
    and frontier :: "'s \<Rightarrow> nat"
    and pending :: "'s \<Rightarrow> nat list"
    and ident :: "'r \<Rightarrow> nat"
    and account :: "'s \<Rightarrow> u64"
  assumes poll_inv: "inv s \<Longrightarrow> ok e s \<Longrightarrow> poll e s = (s', out) \<Longrightarrow> inv s'"
    and pending_distinct: "inv s \<Longrightarrow> distinct (pending s)"
    and pending_below: "inv s \<Longrightarrow> n \<in> set (pending s) \<Longrightarrow> n < frontier s"
    and poll_advance: "inv s \<Longrightarrow> ok e s \<Longrightarrow> poll e s = (s', out) \<Longrightarrow> frontier s \<le> frontier s'"
    and poll_moves: "inv s \<Longrightarrow> ok e s \<Longrightarrow> poll e s = (s', out) \<Longrightarrow>
          set (map ident out) \<union> set (pending s') \<subseteq> set (pending s) \<union> {frontier s..<frontier s'}"
    and poll_once: "inv s \<Longrightarrow> ok e s \<Longrightarrow> poll e s = (s', out) \<Longrightarrow>
          distinct (map ident out @ pending s')"
    and poll_account: "inv s \<Longrightarrow> ok e s \<Longrightarrow> poll e s = (s', out) \<Longrightarrow>
          account s' = account s + of_nat (length out)"
begin

lemma run_inv: "inv s \<Longrightarrow> poll_run_ok poll ok es s \<Longrightarrow> poll_run poll es s = (s', out) \<Longrightarrow> inv s'"
  by (induction es arbitrary: s out) (auto split: prod.splits intro: poll_inv)

lemma run_advance: "inv s \<Longrightarrow> poll_run_ok poll ok es s \<Longrightarrow> poll_run poll es s = (s', out) \<Longrightarrow> frontier s \<le> frontier s'"
  by (induction es arbitrary: s out)
    (auto split: prod.splits intro: poll_inv dest: poll_advance le_trans)

lemma run_account:
  "inv s \<Longrightarrow> poll_run_ok poll ok es s \<Longrightarrow> poll_run poll es s = (s', out) \<Longrightarrow>
     account s' = account s + of_nat (length out)"
proof (induction es arbitrary: s out)
  case (Cons e es)
  obtain s1 out1 where p: "poll e s = (s1, out1)" by force
  obtain s2 out2 where r: "poll_run poll es s1 = (s2, out2)" by force
  have "account s' = account s1 + of_nat (length out2)"
    using Cons p r by (intro Cons.IH) (auto intro: poll_inv)
  moreover have "account s1 = account s + of_nat (length out1)"
    using Cons.prems p by (auto intro: poll_account)
  ultimately show ?case using Cons.prems p r by auto
qed simp

text \<open>Over any sequence of polls no number is emitted twice, nor emitted and still pending.\<close>

lemma run_once:
  assumes "inv s" and "poll_run_ok poll ok es s" and "poll_run poll es s = (s', out)"
  shows "distinct (map ident out @ pending s')"
    and "set (map ident out) \<union> set (pending s') \<subseteq> set (pending s) \<union> {frontier s..<frontier s'}"
proof -
  have "distinct (map ident out @ pending s') \<and>
      set (map ident out) \<union> set (pending s') \<subseteq> set (pending s) \<union> {frontier s..<frontier s'}"
    using assms
  proof (induction es arbitrary: s out)
    case (Cons e es)
    obtain s1 out1 where p: "poll e s = (s1, out1)" by force
    obtain s2 out2 where r: "poll_run poll es s1 = (s2, out2)" by force
    have eq: "s' = s2" "out = out1 @ out2" using Cons.prems p r by auto
    have i1: "inv s1" and ok1: "poll_run_ok poll ok es s1" using Cons.prems p by (auto intro: poll_inv)
    have f: "frontier s \<le> frontier s1" "frontier s1 \<le> frontier s2"
      using Cons.prems p r i1 ok1 by (auto intro: poll_advance run_advance)
    have d1: "distinct (map ident out1 @ pending s1)"
      and m1: "set (map ident out1) \<union> set (pending s1) \<subseteq> set (pending s) \<union> {frontier s..<frontier s1}"
      using Cons.prems p poll_once [of s e] poll_moves [of s e] by auto
    have m2: "set (map ident out2) \<union> set (pending s2) \<subseteq> set (pending s1) \<union> {frontier s1..<frontier s2}"
      and d2: "distinct (map ident out2 @ pending s2)"
      using Cons.IH [OF i1 ok1] r eq by auto
    have below: "n < frontier s1" if "n \<in> set (pending s1)" for n
      using that i1 pending_below by blast
    have below0: "n < frontier s" if "n \<in> set (pending s)" for n
      using that Cons.prems(1) pending_below by blast
    have "n < frontier s1" if "n \<in> set (map ident out1)" for n
      using that m1 below0 [of n] f by fastforce
    then have "set (map ident out1) \<inter> set (map ident out2 @ pending s2) = {}"
      using m2 d1 by fastforce
    then have "distinct (map ident out @ pending s')"
      using d1 d2 eq by auto
    moreover have "set (map ident out) \<union> set (pending s') \<subseteq> set (pending s) \<union> {frontier s..<frontier s'}"
      using eq m1 m2 f by fastforce
    ultimately show ?case by simp
  qed (simp add: pending_distinct)
  then show "distinct (map ident out @ pending s')"
    and "set (map ident out) \<union> set (pending s') \<subseteq> set (pending s) \<union> {frontier s..<frontier s'}"
    by simp_all
qed

end

text \<open>
  A poller that retires in the order it took: what is emitted and what is left pending is, as
  one list, what was pending followed by what was taken. This is the stronger contract.
\<close>

locale fifo_machine =
  fixes poll :: "'e \<Rightarrow> 's \<Rightarrow> 's \<times> 'r list"
    and ok :: "'e \<Rightarrow> 's \<Rightarrow> bool"
    and inv :: "'s \<Rightarrow> bool"
    and frontier :: "'s \<Rightarrow> nat"
    and pending :: "'s \<Rightarrow> nat list"
    and ident :: "'r \<Rightarrow> nat"
  assumes fifo_inv: "inv s \<Longrightarrow> ok e s \<Longrightarrow> poll e s = (s', out) \<Longrightarrow> inv s'"
    and fifo_pending: "inv s \<Longrightarrow> sorted_wrt (<) (pending s)"
    and fifo_below: "inv s \<Longrightarrow> n \<in> set (pending s) \<Longrightarrow> n < frontier s"
    and fifo_advance: "inv s \<Longrightarrow> ok e s \<Longrightarrow> poll e s = (s', out) \<Longrightarrow> frontier s \<le> frontier s'"
    and fifo: "inv s \<Longrightarrow> ok e s \<Longrightarrow> poll e s = (s', out) \<Longrightarrow>
          map ident out @ pending s' = pending s @ [frontier s..<frontier s']"
begin

lemma fifo_run_inv:
  "inv s \<Longrightarrow> poll_run_ok poll ok es s \<Longrightarrow> poll_run poll es s = (s', out) \<Longrightarrow>
     inv s' \<and> frontier s \<le> frontier s'"
proof (induction es arbitrary: s out)
  case (Cons e es)
  obtain s1 out1 where p: "poll e s = (s1, out1)" by force
  then have "inv s1" "frontier s \<le> frontier s1"
    using Cons.prems by (auto intro: fifo_inv fifo_advance)
  with Cons p show ?case by (fastforce split: prod.splits)
qed simp

lemma fifo_run:
  "inv s \<Longrightarrow> poll_run_ok poll ok es s \<Longrightarrow> poll_run poll es s = (s', out) \<Longrightarrow>
     map ident out @ pending s' = pending s @ [frontier s..<frontier s']"
proof (induction es arbitrary: s out)
  case (Cons e es)
  obtain s1 out1 where p: "poll e s = (s1, out1)" by force
  obtain out2 where r: "poll_run poll es s1 = (s', out2)" and out: "out = out1 @ out2"
    using Cons.prems p by (auto split: prod.splits)
  have i1: "inv s1" and f1: "frontier s \<le> frontier s1" and ok1: "poll_run_ok poll ok es s1"
    using Cons.prems p by (auto intro: fifo_inv fifo_advance)
  have f2: "frontier s1 \<le> frontier s'" using fifo_run_inv [OF i1 ok1 r] by simp
  have "map ident out @ pending s' = map ident out1 @ pending s1 @ [frontier s1..<frontier s']"
    using Cons.IH [OF i1 ok1 r] out by simp
  also have "\<dots> = (map ident out1 @ pending s1) @ [frontier s1..<frontier s']" by simp
  also have "map ident out1 @ pending s1 = pending s @ [frontier s..<frontier s1]"
    using Cons.prems p by (intro fifo) auto
  also have "(pending s @ [frontier s..<frontier s1]) @ [frontier s1..<frontier s']
      = pending s @ [frontier s..<frontier s']"
    using f1 f2 upt_add_eq_append [of "frontier s" "frontier s1" "frontier s' - frontier s1"] by simp
  finally show ?case .
qed simp

lemma fifo_sorted: "inv s \<Longrightarrow> sorted_wrt (<) (pending s @ [frontier s..<n])"
  using fifo_pending fifo_below by (force simp: sorted_wrt_append)

end

sublocale fifo_machine \<subseteq>
  poll_machine poll ok inv frontier pending ident
    "\<lambda>s. of_nat (frontier s) - of_nat (length (pending s))"
proof
  fix s s' :: 's and e :: 'e and out :: "'r list" and n
  assume inv: "inv s"
  show "distinct (pending s)" using fifo_pending [OF inv] by (simp add: strict_sorted_iff)
  show "n \<in> set (pending s) \<Longrightarrow> n < frontier s" by (rule fifo_below [OF inv])
  assume "ok e s" and "poll e s = (s', out)"
  note step = inv this
  note eq = fifo [OF step]
  show "inv s'" by (rule fifo_inv [OF step])
  show adv: "frontier s \<le> frontier s'" by (rule fifo_advance [OF step])
  have "set (map ident out @ pending s') = set (pending s @ [frontier s..<frontier s'])"
    by (simp only: eq)
  then show "set (map ident out) \<union> set (pending s') \<subseteq> set (pending s) \<union> {frontier s..<frontier s'}"
    by auto
  show "distinct (map ident out @ pending s')"
    unfolding eq using fifo_sorted [OF inv] by (simp only: strict_sorted_iff)
  have "length (map ident out @ pending s') = length (pending s @ [frontier s..<frontier s'])"
    by (simp only: eq)
  then have "length out + length (pending s') + frontier s = length (pending s) + frontier s'"
    using adv by simp
  then have "of_nat (length out) + of_nat (length (pending s')) + of_nat (frontier s)
      = (of_nat (length (pending s)) + of_nat (frontier s') :: u64)"
    by (metis of_nat_add)
  then show "of_nat (frontier s') - of_nat (length (pending s'))
      = (of_nat (frontier s) - of_nat (length (pending s)) + of_nat (length out) :: u64)"
    by (simp add: algebra_simps)
qed

end
