(* ===== verification/Aql_Ring.thy ===== *)
theory Aql_Ring
  imports Ring_State
begin

text \<open>
  The AQL path of \<^verbatim>\<open>src/parser.cpp\<close>: \<^verbatim>\<open>DecodeSlot\<close> and \<^verbatim>\<open>PollQueue\<close>. The outcome
  \<open>None\<close> is the one undefined behaviour the code could run into here, a call through the
  null \<^verbatim>\<open>ksym\<close> pointer; \<open>PollQueue_no_fault\<close> shows that it does not happen.
\<close>

section \<open>DecodeSlot\<close>

text \<open>\<^verbatim>\<open>qs->ksym->Resolve(kernel_object)\<close>.\<close>

definition resolve_name ::
    "(string \<Rightarrow> string option) \<Rightarrow> os_view \<Rightarrow> QueueState \<Rightarrow> u64 \<Rightarrow> (QueueState \<times> string) option" where
  "resolve_name dm os qs ko =
     (case qs_ksym qs of
        None \<Rightarrow> None
      | Some ks \<Rightarrow>
          (case Resolve dm os ks ko of (ks', name) \<Rightarrow> Some (qs\<lparr>qs_ksym := Some ks'\<rparr>, name)))"

definition dispatch_record ::
    "QueueInfo \<Rightarrow> u64 \<Rightarrow> bool \<Rightarrow> KernelDispatchPacket \<Rightarrow> string \<Rightarrow> PacketRecord" where
  "dispatch_record q did barrier p name =
     new_PacketRecord
       \<lparr>p_queue_uid := q_uid q, p_dispatch_id := did, p_type := KernelDispatch,
        p_barrier := barrier, p_kernel_object := kd_kernel_object p,
        p_grid := kd_grid_size p, p_wg := kd_workgroup_size p,
        p_private_seg := kd_private_segment_size p, p_group_seg := kd_group_segment_size p,
        p_completion_signal := kd_completion_signal p,
        p_kernarg_address := kd_kernarg_address p, p_kernel_name := name\<rparr>"

definition slot_addr :: "QueueInfo \<Rightarrow> u64 \<Rightarrow> u64" where
  "slot_addr q did = q_ring_base q + (did mod ucast (num_slots q)) * of_nat kPacketSize"

text \<open>The inner option is the code's boolean result, \<open>Some rec\<close> for true.\<close>

definition DecodeSlot ::
    "(string \<Rightarrow> string option) \<Rightarrow> os_view \<Rightarrow> QueueState \<Rightarrow> u64 \<Rightarrow> u64 \<Rightarrow>
      (QueueState \<times> PacketRecord option) option" where
  "DecodeSlot dm os qs did rptr =
     (let q = qs_info qs in
      if num_slots q = 0 then Some (qs, None)
      else case ReadProcMem os (q_pid q) (slot_addr q did) kPacketSize of
        None \<Rightarrow> Some (qs, None)
      | Some raw \<Rightarrow>
          let header = of_nat (field_at 0 2 raw) :: u16;
              type = HeaderType header;
              p = parse_dispatch raw in
          if type = Invalid then
            if did < rptr \<and> kd_kernel_object p \<noteq> 0 then
              (case resolve_name dm os qs (kd_kernel_object p) of
                 None \<Rightarrow> None
               | Some (qs', name) \<Rightarrow> Some (qs', Some (dispatch_record q did False p name)))
            else Some (qs, None)
          else if type = KernelDispatch then
            (case resolve_name dm os qs (kd_kernel_object p) of
               None \<Rightarrow> None
             | Some (qs', name) \<Rightarrow>
                 Some (qs', Some (dispatch_record q did (HeaderBarrier header) p name)))
          else
            Some (qs, Some (new_PacketRecord
              \<lparr>p_queue_uid := q_uid q, p_dispatch_id := did, p_type := type,
               p_barrier := HeaderBarrier header, p_kernel_name := PacketTypeName type\<rparr>)))"

text \<open>Decoding touches nothing but the resolver.\<close>

lemma resolve_name_frame:
  "resolve_name dm os qs ko = Some (qs', name) \<Longrightarrow> \<exists>ks. qs' = qs\<lparr>qs_ksym := Some ks\<rparr>"
  by (auto simp: resolve_name_def split: option.splits prod.splits)

lemma resolve_name_total: "qs_ksym qs \<noteq> None \<Longrightarrow> resolve_name dm os qs ko \<noteq> None"
  by (auto simp: resolve_name_def split: prod.splits)

lemma DecodeSlot_cases:
  assumes "DecodeSlot dm os qs did rptr = Some (qs', r)"
  obtains "qs' = qs" | ks where "qs' = qs\<lparr>qs_ksym := Some ks\<rparr>"
proof -
  have "qs' = qs \<or> (\<exists>ks. qs' = qs\<lparr>qs_ksym := Some ks\<rparr>)"
    using assms
    by (auto simp: DecodeSlot_def Let_def dest!: resolve_name_frame
        split: if_splits option.splits prod.splits)
  then show ?thesis using that by blast
qed

lemma DecodeSlot_frame:
  assumes "DecodeSlot dm os qs did rptr = Some (qs', r)"
  shows "qs_info qs' = qs_info qs" "qs_next_id qs' = qs_next_id qs"
    "qs_last_rptr qs' = qs_last_rptr qs" "qs_primed qs' = qs_primed qs"
    "qs_dropped qs' = qs_dropped qs" "qs_inflight qs' = qs_inflight qs"
    "qs_sdma_seq qs' = qs_sdma_seq qs" "qs_sdma_inflight qs' = qs_sdma_inflight qs"
    "qs_page_host qs' = qs_page_host qs" "qs_read_fail_count qs' = qs_read_fail_count qs"
    "qs_evict qs' = qs_evict qs"
  using assms by (auto elim!: DecodeSlot_cases)

lemma DecodeSlot_ksym:
  "DecodeSlot dm os qs did rptr = Some (qs', r) \<Longrightarrow> qs_ksym qs \<noteq> None \<Longrightarrow> qs_ksym qs' \<noteq> None"
  by (auto elim!: DecodeSlot_cases)

lemma DecodeSlot_total:
  assumes "qs_ksym qs \<noteq> None"
  shows "DecodeSlot dm os qs did rptr \<noteq> None"
proof -
  have named: "\<exists>qs' name. resolve_name dm os qs ko = Some (qs', name)" for ko
    using resolve_name_total [OF assms, of dm os ko] by auto
  have "(case resolve_name dm os qs ko of None \<Rightarrow> None | Some (qs', name) \<Rightarrow> Some (F qs' name)) \<noteq> None"
    for ko and F :: "QueueState \<Rightarrow> string \<Rightarrow> QueueState \<times> PacketRecord option"
    using named [of ko] by auto
  then show ?thesis
    by (simp add: DecodeSlot_def Let_def del: not_None_eq split: option.split)
qed

definition fresh_record :: "QueueInfo \<Rightarrow> u64 \<Rightarrow> PacketRecord \<Rightarrow> bool" where
  "fresh_record q did r \<longleftrightarrow>
     p_queue_uid r = q_uid q \<and> p_dispatch_id r = did \<and> \<not> p_completed r \<and> p_type r \<noteq> Invalid"

lemma DecodeSlot_record:
  "DecodeSlot dm os qs did rptr = Some (qs', Some r) \<Longrightarrow> fresh_record (qs_info qs) did r"
  by (auto simp: DecodeSlot_def Let_def dispatch_record_def new_PacketRecord_def fresh_record_def
      split: if_splits option.splits prod.splits)

section \<open>PollQueue\<close>

text \<open>
  One iteration of the decode loop: a fault, the \<^verbatim>\<open>break\<close> on a pending slot, or one step
  forward with the records handed to the sink.
\<close>

datatype decode_outcome =
  Fault
| Pending QueueState
| Advance QueueState "PacketRecord list"

definition complete_packet :: "seconds \<Rightarrow> PacketRecord \<Rightarrow> PacketRecord" where
  "complete_packet now r = r\<lparr>p_complete_ts := now, p_completed := True\<rparr>"

definition decode_step ::
    "(string \<Rightarrow> string option) \<Rightarrow> os_view \<Rightarrow> seconds \<Rightarrow> u64 \<Rightarrow> QueueState \<Rightarrow> decode_outcome" where
  "decode_step dm os now rptr qs =
     (let did = qs_next_id qs in
      case DecodeSlot dm os qs did rptr of
        None \<Rightarrow> Fault
      | Some (qs1, Some dec) \<Rightarrow>
          let rec = dec\<lparr>p_submit_ts := now\<rparr> in
          if did < rptr then Advance (qs1\<lparr>qs_next_id := did + 1\<rparr>) [complete_packet now rec]
          else Advance (qs1\<lparr>qs_inflight := od_emplace did rec (qs_inflight qs1),
                            qs_next_id := did + 1\<rparr>) []
      | Some (qs1, None) \<Rightarrow>
          if did < rptr then
            Advance (qs1\<lparr>qs_dropped := qs_dropped qs1 + 1, qs_next_id := did + 1\<rparr>) []
          else Pending qs1)"

lemma decode_step_next:
  "decode_step dm os now rptr qs = Advance qs1 out \<Longrightarrow> qs_next_id qs1 = qs_next_id qs + 1"
  by (auto simp: decode_step_def Let_def split: option.splits prod.splits if_splits)

text \<open>
  The loop; the second component lists the records handed to the sink, in order, and \<open>k\<close>
  counts the moments.
\<close>

function decode_loop ::
    "(string \<Rightarrow> string option) \<Rightarrow> moments \<Rightarrow> seconds \<Rightarrow> u64 \<Rightarrow> u64 \<Rightarrow> nat \<Rightarrow> QueueState \<Rightarrow>
      (QueueState \<times> PacketRecord list) option" where
  "decode_loop dm os now wptr rptr k qs =
     (if qs_next_id qs < wptr then
        (case decode_step dm (os k) now rptr qs of
           Fault \<Rightarrow> None
         | Pending qs1 \<Rightarrow> Some (qs1, [])
         | Advance qs1 out1 \<Rightarrow>
             (case decode_loop dm os now wptr rptr (Suc k) qs1 of
                None \<Rightarrow> None
              | Some (qs2, out2) \<Rightarrow> Some (qs2, out1 @ out2)))
      else Some (qs, []))"
  by pat_completeness auto
termination
  by (relation "measure (\<lambda>(dm, os, now, wptr, rptr, k, qs). unat wptr - unat (qs_next_id qs))")
    (auto dest!: decode_step_next simp: unat_inc word_less_nat_alt)

declare decode_loop.simps [simp del]

definition poll_aql ::
    "(string \<Rightarrow> string option) \<Rightarrow> moments \<Rightarrow> seconds \<Rightarrow> u64 \<Rightarrow> u64 \<Rightarrow> QueueState \<Rightarrow>
      (QueueState \<times> PacketRecord list) option" where
  "poll_aql dm os now wptr rptr qs =
     (case decode_loop dm os now wptr rptr 2
             (skip_lapped (ucast (num_slots (qs_info qs))) wptr qs) of
        None \<Rightarrow> None
      | Some (qs1, out1) \<Rightarrow>
          (case retire (\<lambda>k. k < rptr) (complete_packet now) (qs_inflight qs1) of (out2, m) \<Rightarrow>
             Some (qs1\<lparr>qs_inflight := m, qs_last_rptr := rptr\<rparr>, out1 @ out2)))"

definition PollQueue ::
    "(string \<Rightarrow> string option) \<Rightarrow> moments \<Rightarrow> fd_cache \<Rightarrow> QueueState \<Rightarrow> seconds \<Rightarrow>
      (fd_cache \<times> QueueState \<times> PacketRecord list) option" where
  "PollQueue dm os c qs now =
     (case read_pointers os c (qs_info qs) of
        (c', None) \<Rightarrow> Some (c', read_failed qs, [])
      | (c', Some (wptr, rptr)) \<Rightarrow>
          let qs0 = qs\<lparr>qs_read_fail_count := 0\<rparr> in
          if \<not> qs_primed qs0 then
            Some (c', qs0\<lparr>qs_next_id := wptr, qs_last_rptr := rptr, qs_primed := True\<rparr>, [])
          else map_option (Pair c') (poll_aql dm os now wptr rptr qs0))"

section \<open>What the decode loop does\<close>

definition emitted_by :: "QueueInfo \<Rightarrow> seconds \<Rightarrow> u64 \<Rightarrow> PacketRecord \<Rightarrow> bool" where
  "emitted_by q now rptr r \<longleftrightarrow>
     p_queue_uid r = q_uid q \<and> p_dispatch_id r < rptr \<and> p_completed r \<and>
     p_complete_ts r = now \<and> p_type r \<noteq> Invalid"

definition tracked :: "QueueInfo \<Rightarrow> u64 \<times> PacketRecord \<Rightarrow> bool" where
  "tracked q kr \<longleftrightarrow> fresh_record q (fst kr) (snd kr)"

text \<open>
  \<open>decoded_span rptr now qs qs' out new\<close>: between \<open>qs\<close> and \<open>qs'\<close> the identifiers from
  \<open>qs_next_id qs\<close> up to \<open>qs_next_id qs'\<close> were each emitted (\<open>out\<close>), put in flight (\<open>new\<close>) or
  counted as dropped.
\<close>

definition decoded_span ::
    "u64 \<Rightarrow> seconds \<Rightarrow> QueueState \<Rightarrow> QueueState \<Rightarrow> PacketRecord list \<Rightarrow> (u64, PacketRecord) odict \<Rightarrow> bool"
where
  "decoded_span rptr now qs qs' out new \<longleftrightarrow>
     qs_next_id qs \<le> qs_next_id qs' \<and>
     qs_inflight qs' = qs_inflight qs @ new \<and> od_ok new \<and>
     sorted_wrt (<) (map p_dispatch_id out) \<and>
     (\<forall>r \<in> set out. qs_next_id qs \<le> p_dispatch_id r \<and> p_dispatch_id r < qs_next_id qs' \<and>
        emitted_by (qs_info qs) now rptr r \<and> p_submit_ts r = now) \<and>
     (\<forall>kr \<in> set new. qs_next_id qs \<le> fst kr \<and> fst kr < qs_next_id qs' \<and> rptr \<le> fst kr \<and>
        tracked (qs_info qs) kr \<and> p_submit_ts (snd kr) = now) \<and>
     qs_next_id qs' - qs_next_id qs =
       (qs_dropped qs' - qs_dropped qs) + of_nat (length out) + of_nat (length new)"

lemma decoded_span_refl: "decoded_span rptr now qs qs [] []"
  by (simp add: decoded_span_def)

lemma decoded_span_trans:
  assumes a: "decoded_span rptr now qs qs1 out1 new1" and b: "decoded_span rptr now qs1 qs2 out2 new2"
    and info: "qs_info qs1 = qs_info qs"
  shows "decoded_span rptr now qs qs2 (out1 @ out2) (new1 @ new2)"
proof -
  let ?n = "qs_next_id qs" and ?n1 = "qs_next_id qs1" and ?n2 = "qs_next_id qs2"
  have le: "?n \<le> ?n1" "?n1 \<le> ?n2" using a b by (simp_all add: decoded_span_def)
  have ids: "p_dispatch_id r < p_dispatch_id r'" if "r \<in> set out1" "r' \<in> set out2" for r r'
    using a b that unfolding decoded_span_def by (meson order_less_le_trans)
  have ks: "fst kr < fst kr'" if "kr \<in> set new1" "kr' \<in> set new2" for kr kr'
    using a b that unfolding decoded_span_def by (meson order_less_le_trans)
  have c1: "?n1 - ?n = (qs_dropped qs1 - qs_dropped qs) + of_nat (length out1) + of_nat (length new1)"
    and c2: "?n2 - ?n1 = (qs_dropped qs2 - qs_dropped qs1) + of_nat (length out2) + of_nat (length new2)"
    using a b unfolding decoded_span_def by blast+
  have "?n2 - ?n = (?n1 - ?n) + (?n2 - ?n1)" by simp
  also have "\<dots> = (qs_dropped qs2 - qs_dropped qs) + of_nat (length (out1 @ out2))
      + of_nat (length (new1 @ new2))"
    unfolding c1 c2 by simp
  finally have count: "?n2 - ?n = (qs_dropped qs2 - qs_dropped qs) + of_nat (length (out1 @ out2))
      + of_nat (length (new1 @ new2))" .
  have "sorted_wrt (<) (map p_dispatch_id (out1 @ out2))"
    using a b ids by (auto simp: decoded_span_def sorted_wrt_append)
  moreover have "od_ok (new1 @ new2)"
    using a b ks by (auto simp: decoded_span_def od_ok_def keys_def sorted_wrt_append)
  moreover have "\<forall>r \<in> set (out1 @ out2). ?n \<le> p_dispatch_id r \<and> p_dispatch_id r < ?n2 \<and>
        emitted_by (qs_info qs) now rptr r \<and> p_submit_ts r = now"
    using a b le info unfolding decoded_span_def by fastforce
  moreover have "\<forall>kr \<in> set (new1 @ new2). ?n \<le> fst kr \<and> fst kr < ?n2 \<and> rptr \<le> fst kr \<and>
        tracked (qs_info qs) kr \<and> p_submit_ts (snd kr) = now"
    using a b le info unfolding decoded_span_def by fastforce
  ultimately show ?thesis
    unfolding decoded_span_def using a b le
    by (intro conjI) (simp_all only: count, auto simp: decoded_span_def)
qed

definition keys_below :: "QueueState \<Rightarrow> bool" where
  "keys_below qs = (\<forall>k \<in> set (keys (qs_inflight qs)). k < qs_next_id qs)"

lemma decode_step_span:
  assumes d: "decode_step dm os now rptr qs = Advance qs1 out" and below: "keys_below qs"
    and less: "qs_next_id qs < qs_next_id qs + 1"
  shows "\<exists>new. decoded_span rptr now qs qs1 out new"
proof -
  let ?n = "qs_next_id qs"
  obtain qs0 dr where dec: "DecodeSlot dm os qs ?n rptr = Some (qs0, dr)"
    using d by (auto simp: decode_step_def Let_def split: option.splits)
  note frame = DecodeSlot_frame [OF dec]
  show ?thesis
  proof (cases dr)
    case None
    with d dec frame less have "decoded_span rptr now qs qs1 out []"
      by (auto simp: decode_step_def decoded_span_def Let_def split: if_splits)
    then show ?thesis ..
  next
    case (Some r)
    then have fresh: "fresh_record (qs_info qs) ?n r" using DecodeSlot_record dec by blast
    show ?thesis
    proof (cases "?n < rptr")
      case True
      with d dec Some frame less fresh have "decoded_span rptr now qs qs1 out []"
        by (auto simp: decode_step_def decoded_span_def Let_def fresh_record_def emitted_by_def
            complete_packet_def)
      then show ?thesis ..
    next
      case False
      have "od_emplace ?n (r\<lparr>p_submit_ts := now\<rparr>) (qs_inflight qs)
          = qs_inflight qs @ [(?n, r\<lparr>p_submit_ts := now\<rparr>)]"
        using below by (intro od_emplace_above) (simp add: keys_below_def)
      with False d dec Some frame less fresh
      have "decoded_span rptr now qs qs1 out [(?n, r\<lparr>p_submit_ts := now\<rparr>)]"
        by (auto simp: decode_step_def decoded_span_def Let_def fresh_record_def tracked_def)
      then show ?thesis ..
    qed
  qed
qed

lemma decode_step_frame:
  assumes "decode_step dm os now rptr qs = Pending qs1 \<or> decode_step dm os now rptr qs = Advance qs1 out"
  shows "qs_info qs1 = qs_info qs" "qs_last_rptr qs1 = qs_last_rptr qs"
    "qs_primed qs1 = qs_primed qs" "qs_sdma_seq qs1 = qs_sdma_seq qs"
    "qs_sdma_inflight qs1 = qs_sdma_inflight qs" "qs_page_host qs1 = qs_page_host qs"
    "qs_read_fail_count qs1 = qs_read_fail_count qs" "qs_evict qs1 = qs_evict qs"
    "qs_ksym qs \<noteq> None \<Longrightarrow> qs_ksym qs1 \<noteq> None"
  using assms
  by (auto simp: decode_step_def Let_def dest: DecodeSlot_frame DecodeSlot_ksym
      split: option.splits prod.splits if_splits)

lemma decode_step_pending:
  "decode_step dm os now rptr qs = Pending qs1 \<Longrightarrow>
     qs_next_id qs1 = qs_next_id qs \<and> qs_inflight qs1 = qs_inflight qs \<and>
     qs_dropped qs1 = qs_dropped qs \<and> rptr \<le> qs_next_id qs"
  by (auto simp: decode_step_def Let_def dest: DecodeSlot_frame
      split: option.splits prod.splits if_splits)

lemma decoded_span_below:
  "decoded_span rptr now qs qs1 out new \<Longrightarrow> keys_below qs \<Longrightarrow> keys_below qs1"
  by (fastforce simp: decoded_span_def keys_below_def keys_def)

lemma decode_loop_unfold:
  "qs_next_id qs < wptr \<Longrightarrow> decode_step dm (os k) now rptr qs = Advance qs1 out1 \<Longrightarrow>
     decode_loop dm os now wptr rptr k qs = Some (qs', out) \<Longrightarrow>
     \<exists>out2. decode_loop dm os now wptr rptr (Suc k) qs1 = Some (qs', out2) \<and> out = out1 @ out2"
  by (auto simp: decode_loop.simps [of dm os now wptr rptr k qs] split: option.splits)

lemma decode_loop_stop:
  "decode_loop dm os now wptr rptr k qs = Some (qs', out) \<Longrightarrow>
     \<not> (qs_next_id qs < wptr \<and> (\<exists>qs1 out1. decode_step dm (os k) now rptr qs = Advance qs1 out1)) \<Longrightarrow>
     out = [] \<and> (qs' = qs \<and> wptr \<le> qs_next_id qs \<or> decode_step dm (os k) now rptr qs = Pending qs')"
  by (auto simp: decode_loop.simps [of dm os now wptr rptr k qs]
      split: option.splits decode_outcome.splits if_splits)

lemma decode_loop_span:
  assumes "decode_loop dm os now wptr rptr k qs = Some (qs', out)" and "keys_below qs"
  shows "\<exists>new. decoded_span rptr now qs qs' out new"
  using assms
proof (induction dm os now wptr rptr k qs arbitrary: out rule: decode_loop.induct)
  case (1 dm os now wptr rptr k qs)
  show ?case
  proof (cases "qs_next_id qs < wptr \<and> (\<exists>qs1 out1. decode_step dm (os k) now rptr qs = Advance qs1 out1)")
    case False
    then have "out = []" and "qs' = qs \<or> decode_step dm (os k) now rptr qs = Pending qs'"
      using decode_loop_stop "1.prems"(1) by blast+
    then have "decoded_span rptr now qs qs' out []"
      using decoded_span_refl by (auto simp: decoded_span_def dest: decode_step_pending)
    then show ?thesis ..
  next
    case True
    then obtain qs1 out1 where lt: "qs_next_id qs < wptr"
      and d: "decode_step dm (os k) now rptr qs = Advance qs1 out1" by blast
    obtain new1 where n1: "decoded_span rptr now qs qs1 out1 new1"
      using decode_step_span [OF d "1.prems"(2) next_less(1) [OF lt]] ..
    obtain out2 where out: "out = out1 @ out2"
      and rest: "decode_loop dm os now wptr rptr (Suc k) qs1 = Some (qs', out2)"
      using decode_loop_unfold [of qs wptr dm os k now rptr, OF lt d "1.prems"(1)] by blast
    obtain new2 where "decoded_span rptr now qs1 qs' out2 new2"
      using "1.IH" [OF lt d rest decoded_span_below [OF n1 "1.prems"(2)]] ..
    then show ?thesis
      using decoded_span_trans [OF n1] decode_step_frame(1) d out by blast
  qed
qed

section \<open>The invariant of an AQL queue\<close>

text \<open>
  The pointers live in the target's memory, so nothing but the hypothesis on the values it
  stores keeps them small: dispatch identifiers stay below \<open>2\<^sup>6\<^sup>3\<close>, the range of the signed
  counters the HSA runtime keeps them in.
\<close>

definition kPtrLimit :: u64 where
  "kPtrLimit = push_bit 63 1"

definition aql_inv :: "QueueState \<Rightarrow> bool" where
  "aql_inv qs \<longleftrightarrow>
     qs_primed qs \<and> qs_ksym qs \<noteq> None \<and> qs_next_id qs \<le> kPtrLimit \<and>
     od_ok (qs_inflight qs) \<and> keys_below qs \<and>
     (\<forall>kr \<in> set (qs_inflight qs). tracked (qs_info qs) kr)"

lemma num_slots_small:
  assumes "qs_next_id qs \<le> kPtrLimit"
  shows "unat (qs_next_id qs) + unat (ucast (num_slots q) :: u64) < 2 ^ 64"
proof -
  have "unat (ucast (num_slots q) :: u64) = unat (num_slots q)"
    by simp
  moreover have "unat (num_slots q) < 2 ^ 32" using unat_bound [of "num_slots q"] by simp
  moreover have "unat (qs_next_id qs) \<le> 2 ^ 63"
    using assms by (simp add: word_le_nat_alt kPtrLimit_def push_bit_eq_mult)
  ultimately show ?thesis by simp
qed

lemma decode_loop_frame:
  assumes "decode_loop dm os now wptr rptr k qs = Some (qs', out)"
  shows "qs_info qs' = qs_info qs" "qs_primed qs' = qs_primed qs"
    "qs_last_rptr qs' = qs_last_rptr qs" "qs_sdma_seq qs' = qs_sdma_seq qs"
    "qs_sdma_inflight qs' = qs_sdma_inflight qs" "qs_page_host qs' = qs_page_host qs"
    "qs_read_fail_count qs' = qs_read_fail_count qs" "qs_evict qs' = qs_evict qs"
    "qs_ksym qs \<noteq> None \<Longrightarrow> qs_ksym qs' \<noteq> None"
    "qs_next_id qs' = qs_next_id qs \<or> qs_next_id qs' \<le> wptr"
proof -
  have "qs_info qs' = qs_info qs \<and> qs_primed qs' = qs_primed qs \<and>
    qs_last_rptr qs' = qs_last_rptr qs \<and> qs_sdma_seq qs' = qs_sdma_seq qs \<and>
    qs_sdma_inflight qs' = qs_sdma_inflight qs \<and> qs_page_host qs' = qs_page_host qs \<and>
    qs_read_fail_count qs' = qs_read_fail_count qs \<and> qs_evict qs' = qs_evict qs \<and>
    (qs_ksym qs \<noteq> None \<longrightarrow> qs_ksym qs' \<noteq> None) \<and>
    (qs_next_id qs' = qs_next_id qs \<or> qs_next_id qs' \<le> wptr)"
    using assms
  proof (induction dm os now wptr rptr k qs arbitrary: out rule: decode_loop.induct)
    case (1 dm os now wptr rptr k qs)
    show ?case
    proof (cases "qs_next_id qs < wptr \<and> (\<exists>qs1 out1. decode_step dm (os k) now rptr qs = Advance qs1 out1)")
      case False
      then have "qs' = qs \<or> decode_step dm (os k) now rptr qs = Pending qs'"
        using decode_loop_stop "1.prems" by blast
      then show ?thesis
        using decode_step_frame [of dm "os k" now rptr qs qs'] decode_step_pending by metis
    next
      case True
      then obtain qs1 out1 where lt: "qs_next_id qs < wptr"
        and d: "decode_step dm (os k) now rptr qs = Advance qs1 out1" by blast
      obtain out2 where rest: "decode_loop dm os now wptr rptr (Suc k) qs1 = Some (qs', out2)"
        using decode_loop_unfold [of qs wptr dm os k now rptr, OF lt d "1.prems"] by blast
      have "qs_next_id qs1 \<le> wptr"
        using decode_step_next [OF d] next_less(2) [OF lt] by simp
      then show ?thesis
        using "1.IH" [OF lt d rest] decode_step_frame [of dm "os k" now rptr qs qs1 out1] d
        by metis
    qed
  qed
  then show "qs_info qs' = qs_info qs" "qs_primed qs' = qs_primed qs"
    "qs_last_rptr qs' = qs_last_rptr qs" "qs_sdma_seq qs' = qs_sdma_seq qs"
    "qs_sdma_inflight qs' = qs_sdma_inflight qs" "qs_page_host qs' = qs_page_host qs"
    "qs_read_fail_count qs' = qs_read_fail_count qs" "qs_evict qs' = qs_evict qs"
    "qs_ksym qs \<noteq> None \<Longrightarrow> qs_ksym qs' \<noteq> None"
    "qs_next_id qs' = qs_next_id qs \<or> qs_next_id qs' \<le> wptr" by blast+
qed

lemma decode_loop_total:
  "qs_ksym qs \<noteq> None \<Longrightarrow> decode_loop dm os now wptr rptr k qs \<noteq> None"
proof (induction dm os now wptr rptr k qs rule: decode_loop.induct)
  case (1 dm os now wptr rptr k qs)
  have "decode_step dm (os k) now rptr qs \<noteq> Fault"
    using DecodeSlot_total [OF "1.prems", of dm "os k"]
    by (auto simp: decode_step_def Let_def split: option.split prod.split)
  then show ?case
    using "1.IH" "1.prems" decode_step_frame(9) [of dm "os k" now rptr qs]
    by (auto simp: decode_loop.simps [of dm os now wptr rptr k qs]
        split: decode_outcome.split option.split)
qed

section \<open>One poll\<close>

lemma poll_aql_parts:
  assumes "poll_aql dm os now wptr rptr qs = Some (qs', out)"
  obtains qs1 out1 where
    "decode_loop dm os now wptr rptr 2 (skip_lapped (ucast (num_slots (qs_info qs))) wptr qs)
       = Some (qs1, out1)"
    and "qs' = qs1\<lparr>qs_inflight := dropWhile (\<lambda>kr. fst kr < rptr) (qs_inflight qs1), qs_last_rptr := rptr\<rparr>"
    and "out = out1 @ map (complete_packet now \<circ> snd) (takeWhile (\<lambda>kr. fst kr < rptr) (qs_inflight qs1))"
  using assms by (auto simp: poll_aql_def retire_eq comp_def split: option.splits)

lemma account_chain:
  fixes n s n1 d ds d1 i nw e :: u64
  assumes "n1 - s = (d1 - ds) + e + nw" and "s - n = ds - d"
  shows "n1 - d1 - (i + nw) = n - d - i + e"
proof -
  have n1: "n1 = (d1 - ds) + e + nw + s" and ds: "ds = d + (s - n)"
    using assms by (simp_all add: diff_eq_eq)
  show ?thesis unfolding n1 ds by (simp add: algebra_simps)
qed

text \<open>Everything a poll does to the queue, before retiring.\<close>

lemma poll_aql_middle:
  assumes inv: "aql_inv qs" and w: "wptr \<le> kPtrLimit"
    and loop: "decode_loop dm os now wptr rptr 2 (skip_lapped (ucast (num_slots (qs_info qs))) wptr qs)
       = Some (qs1, out1)"
  shows "aql_inv qs1"
    and "qs_info qs1 = qs_info qs"
    and "qs_next_id qs \<le> qs_next_id qs1"
    and "\<exists>new. qs_inflight qs1 = qs_inflight qs @ new \<and>
          (\<forall>kr \<in> set new. qs_next_id qs \<le> fst kr \<and> rptr \<le> fst kr \<and> p_submit_ts (snd kr) = now)"
    and "sorted_wrt (<) (map p_dispatch_id out1)"
    and "\<forall>r \<in> set out1. qs_next_id qs \<le> p_dispatch_id r \<and> p_dispatch_id r < qs_next_id qs1 \<and>
          emitted_by (qs_info qs) now rptr r \<and> p_submit_ts r = now"
    and "qs_next_id qs1 - qs_dropped qs1 - of_nat (length (qs_inflight qs1))
          = qs_next_id qs - qs_dropped qs - of_nat (length (qs_inflight qs)) + of_nat (length out1)"
proof -
  let ?s = "skip_lapped (ucast (num_slots (qs_info qs))) wptr qs"
  have small: "unat (qs_next_id qs) + unat (ucast (num_slots (qs_info qs)) :: u64) < 2 ^ 64"
    using inv by (intro num_slots_small) (simp add: aql_inv_def)
  note skip = skip_lapped_bounds [OF small, of wptr]
  have below: "keys_below ?s"
    using inv skip(1) by (auto simp: aql_inv_def keys_below_def)
  obtain new where span: "decoded_span rptr now ?s qs1 out1 new"
    using decode_loop_span [OF loop below] ..
  note frame = decode_loop_frame [OF loop]
  have infl: "qs_inflight qs1 = qs_inflight qs @ new"
    using span by (simp add: decoded_span_def)
  have new: "qs_next_id ?s \<le> fst kr" "fst kr < qs_next_id qs1" "rptr \<le> fst kr"
    "tracked (qs_info qs) kr" "p_submit_ts (snd kr) = now" if "kr \<in> set new" for kr
    using span that by (auto simp: decoded_span_def)
  show mono: "qs_next_id qs \<le> qs_next_id qs1"
    using skip(1) span by (auto simp: decoded_span_def)
  show "qs_info qs1 = qs_info qs" using frame(1) by simp
  show "\<exists>new. qs_inflight qs1 = qs_inflight qs @ new \<and>
      (\<forall>kr \<in> set new. qs_next_id qs \<le> fst kr \<and> rptr \<le> fst kr \<and> p_submit_ts (snd kr) = now)"
    using infl new skip(1) by (intro exI [of _ new]) (auto intro: order_trans)
  show "sorted_wrt (<) (map p_dispatch_id out1)"
    using span by (simp add: decoded_span_def)
  show "\<forall>r \<in> set out1. qs_next_id qs \<le> p_dispatch_id r \<and> p_dispatch_id r < qs_next_id qs1 \<and>
      emitted_by (qs_info qs) now rptr r \<and> p_submit_ts r = now"
    using span skip(1) by (auto simp: decoded_span_def intro: order_trans)
  have "qs_next_id qs1 - qs_next_id ?s
      = (qs_dropped qs1 - qs_dropped ?s) + of_nat (length out1) + of_nat (length new)"
    using span by (simp add: decoded_span_def)
  then show "qs_next_id qs1 - qs_dropped qs1 - of_nat (length (qs_inflight qs1))
      = qs_next_id qs - qs_dropped qs - of_nat (length (qs_inflight qs)) + of_nat (length out1)"
    unfolding infl length_append of_nat_add by (rule account_chain) (rule skip(4))
  have "qs_next_id qs1 \<le> kPtrLimit"
    using frame(10) skip(2) inv w by (auto simp: aql_inv_def)
  moreover have "od_ok (qs_inflight qs1)"
    using inv span below skip(1) new(1)
    by (fastforce simp: infl aql_inv_def decoded_span_def od_ok_def keys_def sorted_wrt_append
        keys_below_def)
  moreover have "keys_below qs1" by (rule decoded_span_below [OF span below])
  moreover have "qs_ksym qs1 \<noteq> None" using frame(9) inv by (simp add: aql_inv_def)
  ultimately show "aql_inv qs1"
    using inv frame(1,2) new(4) unfolding aql_inv_def by (auto simp: infl)
qed

lemma aql_inv_retire:
  assumes "aql_inv qs"
  shows "aql_inv (qs\<lparr>qs_inflight := dropWhile P (qs_inflight qs), qs_last_rptr := r\<rparr>)"
proof -
  have "od_ok (takeWhile P (qs_inflight qs) @ dropWhile P (qs_inflight qs))"
    using assms by (simp add: aql_inv_def)
  then have "od_ok (dropWhile P (qs_inflight qs))"
    unfolding od_ok_def keys_def map_append sorted_wrt_append by simp
  then show ?thesis
    using assms keys_dropWhile [of P "qs_inflight qs"]
    by (auto simp: aql_inv_def keys_below_def keys_def)
qed

lemma tracked_complete:
  "tracked q kr \<Longrightarrow> fst kr < rptr \<Longrightarrow>
     emitted_by q now rptr (complete_packet now (snd kr)) \<and>
     p_dispatch_id (complete_packet now (snd kr)) = fst kr"
  by (auto simp: tracked_def fresh_record_def emitted_by_def complete_packet_def)

lemma tracked_id: "tracked q kr \<Longrightarrow> p_dispatch_id (complete_packet now (snd kr)) = fst kr"
  by (simp add: tracked_def fresh_record_def complete_packet_def)

text \<open>The shape of a poll: what it emits at once, what it newly tracks, what it retires.\<close>

lemma poll_aql_shape:
  assumes inv: "aql_inv qs" and w: "wptr \<le> kPtrLimit"
    and poll: "poll_aql dm os now wptr rptr qs = Some (qs', out)"
  obtains out1 new where
    "out = out1 @ map (complete_packet now \<circ> snd)
       (filter (\<lambda>kr. fst kr < rptr) (qs_inflight qs @ new))"
    and "qs_inflight qs' = filter (\<lambda>kr. \<not> fst kr < rptr) (qs_inflight qs @ new)"
    and "od_ok (qs_inflight qs @ new)"
    and "\<forall>kr \<in> set (qs_inflight qs @ new). tracked (qs_info qs) kr \<and> fst kr < qs_next_id qs'"
    and "\<forall>kr \<in> set new. qs_next_id qs \<le> fst kr \<and> rptr \<le> fst kr"
    and "sorted_wrt (<) (map p_dispatch_id out1)"
    and "\<forall>r \<in> set out1. qs_next_id qs \<le> p_dispatch_id r \<and> p_dispatch_id r < qs_next_id qs' \<and>
          emitted_by (qs_info qs) now rptr r"
    and "qs_next_id qs' - qs_dropped qs' - of_nat (length (qs_inflight qs @ new))
          = qs_next_id qs - qs_dropped qs - of_nat (length (qs_inflight qs)) + of_nat (length out1)"
    and "aql_inv qs'" and "qs_info qs' = qs_info qs" and "qs_next_id qs \<le> qs_next_id qs'"
proof -
  obtain qs1 out1 where
    loop: "decode_loop dm os now wptr rptr 2 (skip_lapped (ucast (num_slots (qs_info qs))) wptr qs)
       = Some (qs1, out1)"
    and qs': "qs' = qs1\<lparr>qs_inflight := dropWhile (\<lambda>kr. fst kr < rptr) (qs_inflight qs1), qs_last_rptr := rptr\<rparr>"
    and out: "out = out1 @ map (complete_packet now \<circ> snd) (takeWhile (\<lambda>kr. fst kr < rptr) (qs_inflight qs1))"
    using poll by (rule poll_aql_parts)
  note mid = poll_aql_middle [OF inv w loop]
  obtain new where new: "qs_inflight qs1 = qs_inflight qs @ new"
    and lo: "\<forall>kr \<in> set new. qs_next_id qs \<le> fst kr \<and> rptr \<le> fst kr" using mid(4) by blast
  have ok: "od_ok (qs_inflight qs1)" and nxt: "qs_next_id qs' = qs_next_id qs1"
    and drop: "qs_dropped qs' = qs_dropped qs1" and info: "qs_info qs' = qs_info qs1"
    and infl: "qs_inflight qs' = dropWhile (\<lambda>kr. fst kr < rptr) (qs_inflight qs1)"
    using mid(1) qs' by (simp_all add: aql_inv_def)
  note split = retired_prefix [OF ok, of rptr]
  have tr: "\<forall>kr \<in> set (qs_inflight qs1). tracked (qs_info qs) kr \<and> fst kr < qs_next_id qs1"
    using mid(1,2) by (auto simp: aql_inv_def keys_below_def keys_def)
  show ?thesis
  proof (rule that [of out1 new])
    show "out = out1 @ map (complete_packet now \<circ> snd)
        (filter (\<lambda>kr. fst kr < rptr) (qs_inflight qs @ new))"
      using out split(1) new by simp
    show "qs_inflight qs' = filter (\<lambda>kr. \<not> fst kr < rptr) (qs_inflight qs @ new)"
      using infl split(2) new by simp
    show "od_ok (qs_inflight qs @ new)" using ok new by simp
    show "\<forall>kr \<in> set (qs_inflight qs @ new). tracked (qs_info qs) kr \<and> fst kr < qs_next_id qs'"
      using tr new nxt by simp
    show "\<forall>r \<in> set out1. qs_next_id qs \<le> p_dispatch_id r \<and> p_dispatch_id r < qs_next_id qs' \<and>
          emitted_by (qs_info qs) now rptr r" using mid(6) nxt by simp
    show "qs_next_id qs' - qs_dropped qs' - of_nat (length (qs_inflight qs @ new))
          = qs_next_id qs - qs_dropped qs - of_nat (length (qs_inflight qs)) + of_nat (length out1)"
      using mid(7) new nxt drop by simp
    show "aql_inv qs'" unfolding qs' by (rule aql_inv_retire [OF mid(1)])
  qed (use lo mid nxt info in simp_all)
qed

text \<open>
  The identifiers in play: those pending before or taken by this poll are, after it, emitted
  once or pending, never both; every emitted record is a consumed packet.
\<close>

lemma poll_aql_emitted:
  assumes "aql_inv qs" and "wptr \<le> kPtrLimit" and "poll_aql dm os now wptr rptr qs = Some (qs', out)"
  shows "\<forall>r \<in> set out. emitted_by (qs_info qs) now rptr r"
    and "\<forall>k \<in> set (keys (qs_inflight qs')). rptr \<le> k"
    and "aql_inv qs'" and "qs_info qs' = qs_info qs" and "qs_next_id qs \<le> qs_next_id qs'"
  by (rule poll_aql_shape [OF assms]; auto simp: keys_def dest!: tracked_complete)+

lemma poll_aql_account:
  assumes "aql_inv qs" and "wptr \<le> kPtrLimit" and "poll_aql dm os now wptr rptr qs = Some (qs', out)"
  shows "qs_next_id qs' - qs_dropped qs' - of_nat (length (qs_inflight qs'))
    = qs_next_id qs - qs_dropped qs - of_nat (length (qs_inflight qs)) + of_nat (length out)"
proof -
  obtain out1 new where out: "out = out1 @ map (complete_packet now \<circ> snd)
       (filter (\<lambda>kr. fst kr < rptr) (qs_inflight qs @ new))"
    and left: "qs_inflight qs' = filter (\<lambda>kr. \<not> fst kr < rptr) (qs_inflight qs @ new)"
    and acc: "qs_next_id qs' - qs_dropped qs' - of_nat (length (qs_inflight qs @ new))
          = qs_next_id qs - qs_dropped qs - of_nat (length (qs_inflight qs)) + of_nat (length out1)"
    by (rule poll_aql_shape [OF assms])
  have "length out1 + length (qs_inflight qs @ new) = length out + length (qs_inflight qs')"
    using sum_length_filter_compl [of "\<lambda>kr. fst kr < rptr" "qs_inflight qs @ new"]
    unfolding out left by (simp only: length_append length_map)
  then have split: "of_nat (length out1) + of_nat (length (qs_inflight qs @ new))
      = (of_nat (length out) + of_nat (length (qs_inflight qs')) :: u64)"
    by (metis of_nat_add)
  have "qs_next_id qs' - qs_dropped qs' - of_nat (length (qs_inflight qs')) =
      (qs_next_id qs' - qs_dropped qs' - of_nat (length (qs_inflight qs @ new))) +
      ((of_nat (length out1) + of_nat (length (qs_inflight qs @ new)))
       - of_nat (length (qs_inflight qs')) - of_nat (length out1))"
    by simp
  then show ?thesis unfolding acc split by simp
qed

lemma poll_aql_once:
  assumes "aql_inv qs" and "wptr \<le> kPtrLimit" and "poll_aql dm os now wptr rptr qs = Some (qs', out)"
  shows "distinct (map p_dispatch_id out @ keys (qs_inflight qs'))"
    and "set (map p_dispatch_id out @ keys (qs_inflight qs'))
           \<subseteq> set (keys (qs_inflight qs)) \<union> {qs_next_id qs..<qs_next_id qs'}"
proof -
  obtain out1 new where out: "out = out1 @ map (complete_packet now \<circ> snd)
       (filter (\<lambda>kr. fst kr < rptr) (qs_inflight qs @ new))"
    and left: "qs_inflight qs' = filter (\<lambda>kr. \<not> fst kr < rptr) (qs_inflight qs @ new)"
    and ok: "od_ok (qs_inflight qs @ new)"
    and tr: "\<forall>kr \<in> set (qs_inflight qs @ new). tracked (qs_info qs) kr \<and> fst kr < qs_next_id qs'"
    and lo: "\<forall>kr \<in> set new. qs_next_id qs \<le> fst kr \<and> rptr \<le> fst kr"
    and srt: "sorted_wrt (<) (map p_dispatch_id out1)"
    and one: "\<forall>r \<in> set out1. qs_next_id qs \<le> p_dispatch_id r \<and> p_dispatch_id r < qs_next_id qs' \<and>
          emitted_by (qs_info qs) now rptr r"
    by (rule poll_aql_shape [OF assms])
  have below: "\<forall>kr \<in> set (qs_inflight qs). fst kr < qs_next_id qs"
    using assms(1) by (auto simp: aql_inv_def keys_below_def keys_def)
  let ?m = "qs_inflight qs @ new"
  have "map (p_dispatch_id \<circ> (complete_packet now \<circ> snd)) (filter (\<lambda>kr. fst kr < rptr) ?m)
      = map fst (filter (\<lambda>kr. fst kr < rptr) ?m)"
    using tr tracked_id by (intro map_cong) fastforce+
  then have ids: "map p_dispatch_id out @ keys (qs_inflight qs') = map p_dispatch_id out1 @
      (map fst (filter (\<lambda>kr. fst kr < rptr) ?m) @ map fst (filter (\<lambda>kr. \<not> fst kr < rptr) ?m))"
    unfolding out left keys_def by simp
  have all: "set (map fst (filter (\<lambda>kr. fst kr < rptr) ?m) @ map fst (filter (\<lambda>kr. \<not> fst kr < rptr) ?m))
      = fst ` set ?m"
    by auto
  have "p_dispatch_id r \<noteq> fst kr" if "r \<in> set out1" "kr \<in> set ?m" for r kr
    using that bspec [OF one, of r] bspec [OF lo, of kr] bspec [OF below, of kr]
    by (auto simp: emitted_by_def)
  then have disj: "set (map p_dispatch_id out1) \<inter> fst ` set ?m = {}"
    unfolding set_map by blast
  have "distinct (map p_dispatch_id out1)" using srt by (simp add: strict_sorted_iff)
  moreover have "distinct (map fst ?m)" using od_ok_distinct [OF ok] by (simp add: keys_def)
  ultimately show "distinct (map p_dispatch_id out @ keys (qs_inflight qs'))"
    unfolding ids distinct_append [of "map p_dispatch_id out1"] all
    using disj distinct_keys_split [of "qs_inflight qs @ new" "\<lambda>k. k < rptr"] by (intro conjI) simp_all
  have "fst ` set ?m \<subseteq> set (keys (qs_inflight qs)) \<union> {qs_next_id qs..<qs_next_id qs'}"
  proof (intro subsetI, elim imageE)
    fix n kr assume "n = fst kr" and kr: "kr \<in> set ?m"
    then show "n \<in> set (keys (qs_inflight qs)) \<union> {qs_next_id qs..<qs_next_id qs'}"
      using bspec [OF lo, of kr] bspec [OF tr kr] by (auto simp: keys_def)
  qed
  moreover have "set (map p_dispatch_id out1) \<subseteq> {qs_next_id qs..<qs_next_id qs'}"
    using one by auto
  ultimately show "set (map p_dispatch_id out @ keys (qs_inflight qs'))
      \<subseteq> set (keys (qs_inflight qs)) \<union> {qs_next_id qs..<qs_next_id qs'}"
    unfolding ids set_append [of "map p_dispatch_id out1"] all by blast
qed

section \<open>PollQueue as a poll machine\<close>

definition aql_poll ::
    "(string \<Rightarrow> string option) \<Rightarrow> moments \<times> seconds \<Rightarrow> fd_cache \<times> QueueState \<Rightarrow>
      (fd_cache \<times> QueueState) \<times> PacketRecord list" where
  "aql_poll dm e s =
     (case PollQueue dm (fst e) (fst s) (snd s) (snd e) of
        None \<Rightarrow> (s, [])
      | Some (c, qs, out) \<Rightarrow> ((c, qs), out))"

text \<open>The write pointer the target shows at this poll, when it shows one, is in range.\<close>

definition aql_ok :: "moments \<times> seconds \<Rightarrow> fd_cache \<times> QueueState \<Rightarrow> bool" where
  "aql_ok e s =
     (case snd (read_pointers (fst e) (fst s) (qs_info (snd s))) of
        None \<Rightarrow> True
      | Some (wptr, rptr) \<Rightarrow> wptr \<le> kPtrLimit)"

lemma PollQueue_no_fault:
  assumes "qs_ksym qs \<noteq> None"
  shows "PollQueue dm os c qs now \<noteq> None"
proof -
  have "poll_aql dm os now w r (qs\<lparr>qs_read_fail_count := 0\<rparr>) \<noteq> None" for w r
    using decode_loop_total [of "skip_lapped (ucast (num_slots (qs_info qs))) w
        (qs\<lparr>qs_read_fail_count := 0\<rparr>)" dm os now w r 2] assms
    by (auto simp: poll_aql_def split: prod.split)
  then show ?thesis
    by (auto simp: PollQueue_def Let_def split: prod.split option.split)
qed

lemma aql_inv_cong:
  "aql_inv (qs\<lparr>qs_read_fail_count := n\<rparr>) = aql_inv qs"
  by (simp add: aql_inv_def keys_below_def)

lemma aql_inv_read_failed: "aql_inv (read_failed qs) = aql_inv qs"
  by (simp add: aql_inv_def keys_below_def)

text \<open>A poll of a primed queue either fails to read the pointers or is \<open>poll_aql\<close>.\<close>

lemma aql_poll_cases:
  assumes inv: "aql_inv qs" and poll: "aql_poll dm (os, now) (c, qs) = ((c', qs'), out)"
  obtains "snd (read_pointers os c (qs_info qs)) = None" and "qs' = read_failed qs" and "out = []"
  | wptr rptr where "snd (read_pointers os c (qs_info qs)) = Some (wptr, rptr)"
      and "poll_aql dm os now wptr rptr (qs\<lparr>qs_read_fail_count := 0\<rparr>) = Some (qs', out)"
proof -
  have "qs_ksym qs \<noteq> None" using inv by (simp add: aql_inv_def)
  then have p: "PollQueue dm os c qs now = Some (c', qs', out)"
    using poll PollQueue_no_fault [of qs dm os c now] by (auto simp: aql_poll_def)
  obtain c1 ptrs where r: "read_pointers os c (qs_info qs) = (c1, ptrs)" by force
  show ?thesis
  proof (cases ptrs)
    case None
    with r p show ?thesis using that(1) by (auto simp: PollQueue_def)
  next
    case (Some wr)
    with r p inv show ?thesis using that(2) by (cases wr) (auto simp: PollQueue_def aql_inv_def)
  qed
qed

lemma aql_poll_facts:
  assumes inv: "aql_inv qs" and ok: "aql_ok (os, now) (c, qs)"
    and poll: "aql_poll dm (os, now) (c, qs) = ((c', qs'), out)"
  shows "aql_inv qs'" and "qs_info qs' = qs_info qs" and "qs_next_id qs \<le> qs_next_id qs'"
    and "distinct (map p_dispatch_id out @ keys (qs_inflight qs'))"
    and "set (map p_dispatch_id out @ keys (qs_inflight qs'))
           \<subseteq> set (keys (qs_inflight qs)) \<union> {qs_next_id qs..<qs_next_id qs'}"
    and "qs_next_id qs' - qs_dropped qs' - of_nat (length (qs_inflight qs'))
          = qs_next_id qs - qs_dropped qs - of_nat (length (qs_inflight qs)) + of_nat (length out)"
proof -
  have "aql_inv qs' \<and> qs_info qs' = qs_info qs \<and> qs_next_id qs \<le> qs_next_id qs' \<and>
    distinct (map p_dispatch_id out @ keys (qs_inflight qs')) \<and>
    set (map p_dispatch_id out @ keys (qs_inflight qs'))
           \<subseteq> set (keys (qs_inflight qs)) \<union> {qs_next_id qs..<qs_next_id qs'} \<and>
    qs_next_id qs' - qs_dropped qs' - of_nat (length (qs_inflight qs'))
          = qs_next_id qs - qs_dropped qs - of_nat (length (qs_inflight qs)) + of_nat (length out)"
    using inv poll
  proof (cases rule: aql_poll_cases)
    case 1
    then show ?thesis
      using inv od_ok_distinct by (auto simp: aql_inv_read_failed aql_inv_def keys_below_def)
  next
    case (2 wptr rptr)
    have inv0: "aql_inv (qs\<lparr>qs_read_fail_count := 0\<rparr>)" using inv by (simp add: aql_inv_cong)
    have "wptr \<le> kPtrLimit" using ok 2(1) by (simp add: aql_ok_def)
    note facts = poll_aql_emitted [OF inv0 this 2(2)] poll_aql_once [OF inv0 this 2(2)]
      poll_aql_account [OF inv0 this 2(2)]
    show ?thesis using facts by simp
  qed
  then show "aql_inv qs'" and "qs_info qs' = qs_info qs" and "qs_next_id qs \<le> qs_next_id qs'"
    and "distinct (map p_dispatch_id out @ keys (qs_inflight qs'))"
    and "set (map p_dispatch_id out @ keys (qs_inflight qs'))
           \<subseteq> set (keys (qs_inflight qs)) \<union> {qs_next_id qs..<qs_next_id qs'}"
    and "qs_next_id qs' - qs_dropped qs' - of_nat (length (qs_inflight qs'))
          = qs_next_id qs - qs_dropped qs - of_nat (length (qs_inflight qs)) + of_nat (length out)"
    by blast+
qed

definition aql_state_inv :: "fd_cache \<times> QueueState \<Rightarrow> bool" where
  "aql_state_inv s = aql_inv (snd s)"

definition aql_frontier :: "fd_cache \<times> QueueState \<Rightarrow> nat" where
  "aql_frontier s = unat (qs_next_id (snd s))"

definition aql_pending :: "fd_cache \<times> QueueState \<Rightarrow> nat list" where
  "aql_pending s = map unat (keys (qs_inflight (snd s)))"

definition aql_ident :: "PacketRecord \<Rightarrow> nat" where
  "aql_ident r = unat (p_dispatch_id r)"

text \<open>Identifiers taken so far, less those dropped and those in flight.\<close>

definition aql_account :: "fd_cache \<times> QueueState \<Rightarrow> u64" where
  "aql_account s =
     qs_next_id (snd s) - qs_dropped (snd s) - of_nat (length (qs_inflight (snd s)))"

lemma aql_ids_map:
  "map aql_ident out @ aql_pending s = map unat (map p_dispatch_id out @ keys (qs_inflight (snd s)))"
  by (simp add: aql_ident_def aql_pending_def)

interpretation aql: poll_machine "aql_poll dm" aql_ok aql_state_inv aql_frontier
    aql_pending aql_ident aql_account
  for dm
proof
  fix e :: "moments \<times> seconds" and s s' :: "fd_cache \<times> QueueState" and out n
  assume state: "aql_state_inv s"
  then have inv: "aql_inv (snd s)" by (simp add: aql_state_inv_def)
  obtain os now where e: "e = (os, now)" by force
  obtain c qs where s: "s = (c, qs)" by force
  obtain c' qs' where s': "s' = (c', qs')" by force
  show "distinct (aql_pending s)"
    using inv od_ok_distinct [of "qs_inflight (snd s)"]
    unfolding aql_pending_def distinct_unat by (simp add: aql_inv_def)
  show "n < aql_frontier s" if "n \<in> set (aql_pending s)"
    using inv that
    by (auto simp: aql_inv_def keys_below_def aql_pending_def aql_frontier_def word_less_nat_alt)
  assume "aql_ok e s" and "aql_poll dm e s = (s', out)"
  note facts = aql_poll_facts [OF inv [unfolded s snd_conv] this [unfolded e s s']]
  show "aql_state_inv s'" using facts(1) s' by (simp add: aql_state_inv_def)
  show "aql_frontier s \<le> aql_frontier s'"
    using facts(3) s s' by (simp add: aql_frontier_def word_le_nat_alt)
  show "aql_account s' = aql_account s + of_nat (length out)"
    using facts(6) s s' by (simp add: aql_account_def)
  show "distinct (map aql_ident out @ aql_pending s')"
    unfolding aql_ids_map distinct_unat using facts(4) s' by simp
  have "set (map aql_ident out @ aql_pending s') \<subseteq> set (aql_pending s) \<union> {aql_frontier s..<aql_frontier s'}"
    unfolding aql_ids_map set_map using unat_image_subset [OF facts(5)] s s'
    by (simp add: aql_pending_def aql_frontier_def)
  then show "set (map aql_ident out) \<union> set (aql_pending s')
      \<subseteq> set (aql_pending s) \<union> {aql_frontier s..<aql_frontier s'}" by simp
qed

end
