(* ===== verification/Sdma_Ring.thy ===== *)
theory Sdma_Ring
  imports Ring_State
begin

text \<open>
  The SDMA path of \<^verbatim>\<open>src/parser.cpp\<close>: reading dwords across the ring's end, classifying copy
  directions with the page cache, and \<^verbatim>\<open>PollSdmaQueue\<close>. The calibration dump
  (\<^verbatim>\<open>HSA_SNOOP_SDMA_DUMP\<close>) only prints and is left out.
\<close>

definition kSdmaWindow :: u64 where
  "kSdmaWindow = 16"

definition kPageCacheMax :: nat where
  "kPageCacheMax = 65536"

section \<open>Ring reads and copy directions\<close>

definition ReadRingDwords :: "os_view \<Rightarrow> QueueInfo \<Rightarrow> u64 \<Rightarrow> u32 \<Rightarrow> u32 list option" where
  "ReadRingDwords os q start_dw n =
     (let ring_dw = ucast (num_dwords q) :: u64 in
      if ring_dw = 0 then None
      else
        let off = start_dw mod ring_dw;
            first = min (ucast n) (ring_dw - off)
        in
        case ReadProcMem os (q_pid q) (q_ring_base q + off * 4) (unat (first * 4)) of
          None \<Rightarrow> None
        | Some b1 \<Rightarrow>
            if first < ucast n then
              (case ReadProcMem os (q_pid q) (q_ring_base q) (unat ((ucast n - first) * 4)) of
                 None \<Rightarrow> None
               | Some b2 \<Rightarrow> Some (dwords_of b1 @ dwords_of b2))
            else Some (dwords_of b1))"

definition IsHostVA :: "os_view \<Rightarrow> QueueState \<Rightarrow> u64 \<Rightarrow> QueueState \<times> bool" where
  "IsHostVA os qs va =
     (let page = va AND NOT 0xFFF in
      case map_of (qs_page_host qs) page of
        Some host \<Rightarrow> (qs, host)
      | None \<Rightarrow>
          let host = VirtToPhys os (q_pid (qs_info qs)) va \<noteq> 0;
              cache = (if kPageCacheMax \<le> length (qs_page_host qs) then [] else qs_page_host qs)
          in (qs\<lparr>qs_page_host := od_assign page host cache\<rparr>, host))"

definition ClassifyDir :: "os_view \<Rightarrow> QueueState \<Rightarrow> u64 \<Rightarrow> u64 \<Rightarrow> QueueState \<times> CopyDir" where
  "ClassifyDir os qs src dst =
     (case IsHostVA os qs src of (qs1, src_host) \<Rightarrow>
        case IsHostVA os qs1 dst of (qs2, dst_host) \<Rightarrow>
          (qs2, if src_host \<and> \<not> dst_host then HostToDevice
                else if \<not> src_host \<and> dst_host then DeviceToHost
                else if \<not> src_host \<and> \<not> dst_host then DeviceToDevice
                else HostToHost))"

section \<open>PollSdmaQueue\<close>

text \<open>Two dwords as an address, low half first.\<close>

definition addr_of_dwords :: "u32 \<Rightarrow> u32 \<Rightarrow> u64" where
  "addr_of_dwords lo hi = ucast lo OR push_bit 32 (ucast hi)"

text \<open>The record of the packet at the front of the window \<open>dws\<close> of \<open>win\<close> dwords.\<close>

definition sdma_record ::
    "os_view \<Rightarrow> seconds \<Rightarrow> QueueState \<Rightarrow> u32 list \<Rightarrow> u32 \<Rightarrow> QueueState \<times> SdmaRecord" where
  "sdma_record os now qs dws win =
     (let q = qs_info qs;
          v = q_sdma_version q;
          opc = HeaderOp (dws ! 0);
          sub = HeaderSubOp (dws ! 0);
          r0 = new_SdmaRecord
            \<lparr>s_queue_uid := q_uid q, s_seq := qs_sdma_seq qs, s_opcode := opc,
             s_sub_opcode := sub, s_sdma_version := v, s_submit_ts := now\<rparr>;
          qs0 = qs\<lparr>qs_sdma_seq := qs_sdma_seq qs + 1\<rparr>
      in
      if opc = OP_COPY then
        let r1 = r0\<lparr>s_op_name := ''copy_'' @ CopySubOpName v sub @
                     (if HeaderBroadcast (dws ! 0) then ''_broadcast'' else [])\<rparr> in
        if IsLinearCopy v sub \<and> 7 \<le> win then
          let src = addr_of_dwords (dws ! 3) (dws ! 4); dst = addr_of_dwords (dws ! 5) (dws ! 6) in
          (case ClassifyDir os qs0 src dst of (qs1, dir) \<Rightarrow>
             (qs1, r1\<lparr>s_bytes := LinearCopyBytes v sub (dws ! 1), s_src_addr := src,
                      s_dst_addr := dst, s_dir := dir\<rparr>))
        else (qs0, r1)
      else (qs0, r0\<lparr>s_op_name := OpName v opc\<rparr>))"

text \<open>One iteration of the packet loop: a \<^verbatim>\<open>break\<close>, or one packet put in flight.\<close>

datatype sdma_outcome = Stop QueueState | Step QueueState

definition sdma_step :: "os_view \<Rightarrow> seconds \<Rightarrow> u64 \<Rightarrow> QueueState \<Rightarrow> sdma_outcome" where
  "sdma_step os now wptr qs =
     (let q = qs_info qs;
          avail = wptr - qs_next_id qs;
          win = ucast (min avail kSdmaWindow) :: u32
      in
      case ReadRingDwords os q (qs_next_id qs) win of
        None \<Rightarrow> Stop qs
      | Some dws \<Rightarrow>
          let len = PacketLenDwords (q_sdma_version q) dws win in
          if len = 0 then
            if avail < 4 then Stop qs
            else Stop (qs\<lparr>qs_dropped := qs_dropped qs + avail, qs_next_id := wptr\<rparr>)
          else if avail < ucast len then Stop qs
          else
            (case sdma_record os now qs dws win of (qs1, rec) \<Rightarrow>
               let end_dw = qs_next_id qs + ucast len in
               Step (qs1\<lparr>qs_sdma_inflight := od_emplace end_dw rec (qs_sdma_inflight qs1),
                         qs_next_id := end_dw\<rparr>)))"

lemma IsHostVA_frame:
  "IsHostVA os qs va = (qs', h) \<Longrightarrow> \<exists>m. qs' = qs\<lparr>qs_page_host := m\<rparr>"
  by (auto simp: IsHostVA_def Let_def split: option.splits intro: exI [of _ "qs_page_host qs"])

lemma ClassifyDir_frame:
  "ClassifyDir os qs s d = (qs', dir) \<Longrightarrow> \<exists>m. qs' = qs\<lparr>qs_page_host := m\<rparr>"
  by (fastforce simp: ClassifyDir_def dest: IsHostVA_frame split: prod.splits)

lemma sdma_record_frame:
  assumes "sdma_record os now qs dws win = (qs', r)"
  shows "\<exists>m. qs' = qs\<lparr>qs_sdma_seq := qs_sdma_seq qs + 1, qs_page_host := m\<rparr>"
proof -
  have "\<exists>m. qs\<lparr>qs_sdma_seq := x\<rparr> = qs\<lparr>qs_sdma_seq := x, qs_page_host := m\<rparr>" for x
    by (intro exI [of _ "qs_page_host qs"]) simp
  then show ?thesis
    using assms by (auto simp: sdma_record_def Let_def dest!: ClassifyDir_frame split: if_splits prod.splits)
qed

lemma sdma_record_fields:
  "sdma_record os now qs dws win = (qs', r) \<Longrightarrow>
     s_queue_uid r = q_uid (qs_info qs) \<and> s_seq r = qs_sdma_seq qs \<and> \<not> s_completed r \<and>
     s_opcode r = HeaderOp (dws ! 0) \<and> s_sub_opcode r = HeaderSubOp (dws ! 0) \<and>
     s_sdma_version r = q_sdma_version (qs_info qs) \<and> s_submit_ts r = now"
  by (auto simp: sdma_record_def new_SdmaRecord_def Let_def split: if_splits prod.splits)

text \<open>A step moves forward by the packet's length and stays at or below the write pointer.\<close>

lemma sdma_step_next:
  assumes "sdma_step os now wptr qs = Step qs'" and "qs_next_id qs < wptr"
  shows "qs_next_id qs < qs_next_id qs'" and "qs_next_id qs' \<le> wptr"
proof -
  let ?n = "qs_next_id qs"
  obtain len :: u32 where "len \<noteq> 0" and le: "ucast len \<le> wptr - ?n"
    and nxt: "qs_next_id qs' = ?n + ucast len"
    using assms(1)
    by (auto simp: sdma_step_def Let_def not_less split: option.splits if_splits prod.splits)
  have "?n \<le> wptr" using assms(2) by simp
  note add = unat_add_within [OF this le]
  have "0 < unat (ucast len :: u64)" using \<open>len \<noteq> 0\<close> by (simp add: unat_gt_0)
  then show "?n < qs_next_id qs'" using add(1) by (simp add: nxt word_less_nat_alt)
  show "qs_next_id qs' \<le> wptr" using add(2) by (simp add: nxt)
qed

function sdma_loop :: "moments \<Rightarrow> seconds \<Rightarrow> u64 \<Rightarrow> nat \<Rightarrow> QueueState \<Rightarrow> QueueState" where
  "sdma_loop os now wptr k qs =
     (if qs_next_id qs < wptr then
        (case sdma_step (os k) now wptr qs of
           Stop qs1 \<Rightarrow> qs1
         | Step qs1 \<Rightarrow> sdma_loop os now wptr (Suc k) qs1)
      else qs)"
  by pat_completeness auto
termination
  by (relation "measure (\<lambda>(os, now, wptr, k, qs). unat wptr - unat (qs_next_id qs))")
    (auto dest: sdma_step_next(1) simp: word_less_nat_alt)

declare sdma_loop.simps [simp del]

definition complete_sdma :: "seconds \<Rightarrow> SdmaRecord \<Rightarrow> SdmaRecord" where
  "complete_sdma now r = r\<lparr>s_complete_ts := now, s_completed := True\<rparr>"

definition poll_sdma ::
    "moments \<Rightarrow> seconds \<Rightarrow> u64 \<Rightarrow> u64 \<Rightarrow> QueueState \<Rightarrow> QueueState \<times> SdmaRecord list" where
  "poll_sdma os now wptr rptr qs =
     (let qs1 = sdma_loop os now wptr 2 (skip_lapped (ucast (num_dwords (qs_info qs))) wptr qs) in
      case retire (\<lambda>k. k \<le> rptr) (complete_sdma now) (qs_sdma_inflight qs1) of (out, m) \<Rightarrow>
        (qs1\<lparr>qs_sdma_inflight := m, qs_last_rptr := rptr\<rparr>, out))"

definition PollSdmaQueue ::
    "moments \<Rightarrow> fd_cache \<Rightarrow> QueueState \<Rightarrow> seconds \<Rightarrow> fd_cache \<times> QueueState \<times> SdmaRecord list" where
  "PollSdmaQueue os c qs now =
     (case read_pointers os c (qs_info qs) of
        (c', None) \<Rightarrow> (c', read_failed qs, [])
      | (c', Some (wptr_raw, rptr_raw)) \<Rightarrow>
          let qs0 = qs\<lparr>qs_read_fail_count := 0\<rparr> in
          if num_dwords (qs_info qs) = 0 then (c', qs0, [])
          else
            let wptr = RingBytesToDwords wptr_raw; rptr = RingBytesToDwords rptr_raw in
            if \<not> qs_primed qs0 then
              (c', qs0\<lparr>qs_next_id := wptr, qs_last_rptr := rptr, qs_primed := True\<rparr>, [])
            else (c', poll_sdma os now wptr rptr qs0))"

section \<open>The invariant of an SDMA queue\<close>

text \<open>
  Byte offsets fit 64 bits, so dword indices stay below \<open>2\<^sup>6\<^sup>2\<close> whatever the target stores:
  unlike the AQL path, no hypothesis on the pointers is needed.
\<close>

definition kDwordLimit :: u64 where
  "kDwordLimit = push_bit 62 1"

lemma RingBytesToDwords_le: "RingBytesToDwords b \<le> kDwordLimit"
proof -
  have "unat (b div 4) \<le> 2 ^ 62"
    using unat_bound [of b] by (simp add: unat_div)
  then show ?thesis
    by (simp add: RingBytesToDwords_def kDwordLimit_def word_le_nat_alt push_bit_eq_mult)
qed

definition page_cache_ok :: "(u64, bool) odict \<Rightarrow> bool" where
  "page_cache_ok m \<longleftrightarrow> od_ok m \<and> length m \<le> kPageCacheMax"

definition sdma_tracked :: "QueueState \<Rightarrow> u64 \<times> SdmaRecord \<Rightarrow> bool" where
  "sdma_tracked qs kr \<longleftrightarrow>
     fst kr \<le> qs_next_id qs \<and> s_queue_uid (snd kr) = q_uid (qs_info qs) \<and> \<not> s_completed (snd kr)"

definition sdma_pending_seqs :: "QueueState \<Rightarrow> nat list" where
  "sdma_pending_seqs qs = map (unat \<circ> s_seq \<circ> snd) (qs_sdma_inflight qs)"

text \<open>The packets in flight carry the latest sequence numbers, without a gap.\<close>

definition sdma_inv :: "QueueState \<Rightarrow> bool" where
  "sdma_inv qs \<longleftrightarrow>
     qs_primed qs \<and> qs_next_id qs \<le> kDwordLimit \<and>
     od_ok (qs_sdma_inflight qs) \<and> (\<forall>kr \<in> set (qs_sdma_inflight qs). sdma_tracked qs kr) \<and>
     length (qs_sdma_inflight qs) \<le> unat (qs_sdma_seq qs) \<and>
     sdma_pending_seqs qs =
       [unat (qs_sdma_seq qs) - length (qs_sdma_inflight qs)..<unat (qs_sdma_seq qs)] \<and>
     qs_sdma_seq qs \<le> qs_next_id qs \<and> page_cache_ok (qs_page_host qs)"

lemma length_od_assign: "length (od_assign k v m) \<le> Suc (length m)"
  by (induction k v m rule: od_assign.induct) auto

lemma page_cache_assign:
  "page_cache_ok m \<Longrightarrow>
     page_cache_ok (od_assign k v (if kPageCacheMax \<le> length m then [] else m))"
  using length_od_assign [of k v m]
  by (auto simp: page_cache_ok_def od_ok_assign kPageCacheMax_def)

lemma IsHostVA_cache:
  "IsHostVA os qs va = (qs', h) \<Longrightarrow> page_cache_ok (qs_page_host qs) \<Longrightarrow> page_cache_ok (qs_page_host qs')"
  using page_cache_assign [of "qs_page_host qs" "va AND NOT 0xFFF"]
  by (auto simp: IsHostVA_def Let_def simp del: bit.compl_eq_compl_iff split: option.splits)

lemma ClassifyDir_cache:
  "ClassifyDir os qs s d = (qs', dir) \<Longrightarrow> page_cache_ok (qs_page_host qs) \<Longrightarrow>
     page_cache_ok (qs_page_host qs')"
  by (auto simp: ClassifyDir_def dest: IsHostVA_cache split: prod.splits)

lemma sdma_record_cache:
  "sdma_record os now qs dws win = (qs', r) \<Longrightarrow> page_cache_ok (qs_page_host qs) \<Longrightarrow>
     page_cache_ok (qs_page_host qs')"
  by (auto simp: sdma_record_def Let_def dest!: ClassifyDir_cache split: if_splits prod.splits)

text \<open>
  \<open>sdma_grown qs qs' new\<close>: the loop moved from \<open>qs\<close> to \<open>qs'\<close> and put exactly the packets
  \<open>new\<close> in flight, behind those already there.
\<close>

definition sdma_grown :: "seconds \<Rightarrow> QueueState \<Rightarrow> QueueState \<Rightarrow> (u64, SdmaRecord) odict \<Rightarrow> bool" where
  "sdma_grown now qs qs' new \<longleftrightarrow>
     sdma_inv qs' \<and> qs_info qs' = qs_info qs \<and> qs_next_id qs \<le> qs_next_id qs' \<and>
     qs_sdma_inflight qs' = qs_sdma_inflight qs @ new \<and>
     unat (qs_sdma_seq qs') = unat (qs_sdma_seq qs) + length new \<and>
     (\<forall>kr \<in> set new. qs_next_id qs < fst kr \<and> s_submit_ts (snd kr) = now) \<and>
     qs_evict qs' = qs_evict qs \<and> qs_read_fail_count qs' = qs_read_fail_count qs \<and>
     qs_ksym qs' = qs_ksym qs \<and> qs_inflight qs' = qs_inflight qs"

lemma sdma_grown_refl: "sdma_inv qs \<Longrightarrow> sdma_grown now qs qs []"
  by (simp add: sdma_grown_def)

lemma sdma_grown_trans:
  "sdma_grown now qs qs1 new1 \<Longrightarrow> sdma_grown now qs1 qs2 new2 \<Longrightarrow>
     sdma_grown now qs qs2 (new1 @ new2)"
  unfolding sdma_grown_def by auto

lemma sdma_step_parts:
  assumes "sdma_step os now wptr qs = Step qs'"
  obtains m r n where "qs' = qs\<lparr>qs_sdma_seq := qs_sdma_seq qs + 1, qs_page_host := m,
      qs_sdma_inflight := od_emplace n r (qs_sdma_inflight qs), qs_next_id := n\<rparr>"
    and "page_cache_ok (qs_page_host qs) \<Longrightarrow> page_cache_ok m"
    and "s_queue_uid r = q_uid (qs_info qs)" and "s_seq r = qs_sdma_seq qs"
    and "\<not> s_completed r" and "s_submit_ts r = now"
proof -
  obtain dws win qs1 r n where rec: "sdma_record os now qs dws win = (qs1, r)"
    and qs': "qs' = qs1\<lparr>qs_sdma_inflight := od_emplace n r (qs_sdma_inflight qs1), qs_next_id := n\<rparr>"
    using assms by (auto simp: sdma_step_def Let_def split: option.splits if_splits prod.splits)
  obtain m where "qs1 = qs\<lparr>qs_sdma_seq := qs_sdma_seq qs + 1, qs_page_host := m\<rparr>"
    using sdma_record_frame [OF rec] ..
  then show ?thesis
    using that [of n r m] qs' sdma_record_fields [OF rec] sdma_record_cache [OF rec] by simp
qed

lemma sdma_step_grown:
  assumes step: "sdma_step os now wptr qs = Step qs'" and inv: "sdma_inv qs"
    and lt: "qs_next_id qs < wptr" and w: "wptr \<le> kDwordLimit"
  shows "\<exists>new. sdma_grown now qs qs' new"
proof -
  obtain m r n where qs': "qs' = qs\<lparr>qs_sdma_seq := qs_sdma_seq qs + 1, qs_page_host := m,
      qs_sdma_inflight := od_emplace n r (qs_sdma_inflight qs), qs_next_id := n\<rparr>"
    and m: "page_cache_ok (qs_page_host qs) \<Longrightarrow> page_cache_ok m"
    and r: "s_queue_uid r = q_uid (qs_info qs)" "s_seq r = qs_sdma_seq qs"
      "\<not> s_completed r" "s_submit_ts r = now"
    by (rule sdma_step_parts [OF step]) (rule that)
  have n: "qs_next_id qs < n" "n \<le> wptr"
    using sdma_step_next [OF step lt] qs' by simp_all
  have seq_lt: "qs_sdma_seq qs < wptr" using inv lt by (auto simp: sdma_inv_def)
  have seq: "unat (qs_sdma_seq qs + 1) = Suc (unat (qs_sdma_seq qs))"
    using unat_inc [OF seq_lt] .
  have old: "fst kr < n" if "kr \<in> set (qs_sdma_inflight qs)" for kr
    using inv that n(1) by (auto simp: sdma_inv_def sdma_tracked_def)
  have infl: "od_emplace n r (qs_sdma_inflight qs) = qs_sdma_inflight qs @ [(n, r)]"
    using old by (intro od_emplace_above) (auto simp: keys_def)
  have "od_ok (qs_sdma_inflight qs @ [(n, r)])"
    using inv old by (intro od_ok_append1) (auto simp: sdma_inv_def keys_def)
  moreover have "sdma_pending_seqs qs' = [unat (qs_sdma_seq qs') - length (qs_sdma_inflight qs')..<unat (qs_sdma_seq qs')]"
    using inv r(2) by (simp add: sdma_inv_def sdma_pending_seqs_def qs' infl seq Suc_diff_le)
  moreover have "qs_sdma_seq qs + 1 \<le> n"
    using inv n(1) seq by (auto simp: sdma_inv_def word_le_nat_alt word_less_nat_alt)
  moreover have "\<forall>kr \<in> set (qs_sdma_inflight qs'). sdma_tracked qs' kr"
    using inv n r by (auto simp: qs' infl sdma_inv_def sdma_tracked_def)
  ultimately have "sdma_inv qs'"
    using inv n w seq m by (auto simp: sdma_inv_def qs' infl)
  then have "sdma_grown now qs qs' [(n, r)]"
    using n r seq by (simp add: sdma_grown_def qs' infl)
  then show ?thesis ..
qed

lemma sdma_inv_jump:
  assumes "sdma_inv qs" and "qs_next_id qs \<le> n" and "n \<le> kDwordLimit"
  shows "sdma_inv (qs\<lparr>qs_dropped := d, qs_next_id := n\<rparr>)"
  using assms by (auto simp: sdma_inv_def sdma_tracked_def sdma_pending_seqs_def)

lemma sdma_step_stop:
  assumes "sdma_step os now wptr qs = Stop qs'" and "sdma_inv qs"
    and "qs_next_id qs < wptr" and "wptr \<le> kDwordLimit"
  shows "sdma_grown now qs qs' []"
  using assms sdma_inv_jump [of qs wptr]
  by (auto simp: sdma_step_def Let_def sdma_grown_def split: option.splits if_splits prod.splits)

lemma sdma_loop_grown:
  "sdma_inv qs \<Longrightarrow> wptr \<le> kDwordLimit \<Longrightarrow> \<exists>new. sdma_grown now qs (sdma_loop os now wptr k qs) new"
proof (induction os now wptr k qs rule: sdma_loop.induct)
  case (1 os now wptr k qs)
  show ?case
  proof (cases "qs_next_id qs < wptr")
    case False
    then have "sdma_loop os now wptr k qs = qs"
      by (simp add: sdma_loop.simps [of os now wptr k qs])
    then show ?thesis using "1.prems" sdma_grown_refl by auto
  next
    case lt: True
    show ?thesis
    proof (cases "sdma_step (os k) now wptr qs")
      case (Stop qs1)
      then have "sdma_loop os now wptr k qs = qs1"
        using lt by (simp add: sdma_loop.simps [of os now wptr k qs])
      then show ?thesis using sdma_step_stop [OF Stop "1.prems"(1) lt "1.prems"(2)] by auto
    next
      case (Step qs1)
      then have eq: "sdma_loop os now wptr k qs = sdma_loop os now wptr (Suc k) qs1"
        using lt by (simp add: sdma_loop.simps [of os now wptr k qs])
      obtain new where new: "sdma_grown now qs qs1 new"
        using sdma_step_grown [OF Step "1.prems"(1) lt "1.prems"(2)] ..
      then have "\<exists>new. sdma_grown now qs1 (sdma_loop os now wptr (Suc k) qs1) new"
        using "1.IH" [OF lt Step] "1.prems"(2) by (simp add: sdma_grown_def)
      then show ?thesis using eq new sdma_grown_trans by metis
    qed
  qed
qed

section \<open>One poll\<close>

lemma sdma_skip_inv:
  assumes inv: "sdma_inv qs" and w: "wptr \<le> kDwordLimit"
  shows "sdma_inv (skip_lapped (ucast (num_dwords q)) wptr qs)"
    and "qs_next_id qs \<le> qs_next_id (skip_lapped (ucast (num_dwords q)) wptr qs)"
    and "unat wptr \<le> unat (qs_next_id (skip_lapped (ucast (num_dwords q)) wptr qs)) + unat (num_dwords q)"
proof -
  have "unat (qs_next_id qs) \<le> 2 ^ 62"
    using inv by (simp add: sdma_inv_def kDwordLimit_def word_le_nat_alt push_bit_eq_mult)
  moreover have "unat (num_dwords q) < 2 ^ 32" using unat_bound [of "num_dwords q"] by simp
  ultimately have small: "unat (qs_next_id qs) + unat (ucast (num_dwords q) :: u64) < 2 ^ 64"
    by simp
  note skip = skip_lapped_bounds [OF small, of wptr]
  show "qs_next_id qs \<le> qs_next_id (skip_lapped (ucast (num_dwords q)) wptr qs)" by (rule skip(1))
  show "unat wptr \<le> unat (qs_next_id (skip_lapped (ucast (num_dwords q)) wptr qs)) + unat (num_dwords q)"
    using skip(3) by simp
  show "sdma_inv (skip_lapped (ucast (num_dwords q)) wptr qs)"
  proof (cases "qs_next_id qs + ucast (num_dwords q) < wptr")
    case True
    then have "qs_next_id (skip_lapped (ucast (num_dwords q)) wptr qs) = wptr - ucast (num_dwords q)"
      by (simp add: skip_lapped_def)
    with skip(1,2) inv w have "qs_next_id qs \<le> wptr - ucast (num_dwords q)"
      and "wptr - ucast (num_dwords q) \<le> kDwordLimit" by (auto simp: sdma_inv_def)
    then have "sdma_inv (qs\<lparr>qs_dropped := d, qs_next_id := wptr - ucast (num_dwords q)\<rparr>)" for d
      by (rule sdma_inv_jump [OF inv])
    with True show ?thesis by (simp only: skip_lapped_def if_True)
  qed (use inv in \<open>simp add: skip_lapped_def\<close>)
qed

lemma sdma_retired_prefix:
  fixes rptr :: u64
  shows "od_ok m \<Longrightarrow> takeWhile (\<lambda>kr. fst kr \<le> rptr) m = filter (\<lambda>kr. fst kr \<le> rptr) m"
    and "od_ok m \<Longrightarrow> dropWhile (\<lambda>kr. fst kr \<le> rptr) m = filter (\<lambda>kr. \<not> fst kr \<le> rptr) m"
  using takeWhile_sorted_keys [of m "\<lambda>k. k \<le> rptr"] by (auto simp: comp_def)

lemma sdma_inv_retire:
  assumes inv: "sdma_inv qs"
  shows "sdma_inv (qs\<lparr>qs_sdma_inflight := dropWhile P (qs_sdma_inflight qs), qs_last_rptr := r\<rparr>)"
proof -
  let ?m = "qs_sdma_inflight qs" and ?seq = "unat (qs_sdma_seq qs)"
  obtain d where d: "dropWhile P ?m = drop d ?m" and le: "d \<le> length ?m"
    by (metis dropWhile_eq_drop length_takeWhile_le)
  have "map (unat \<circ> s_seq \<circ> snd) (drop d ?m) = drop d [?seq - length ?m..<?seq]"
    using inv by (simp add: sdma_inv_def sdma_pending_seqs_def flip: drop_map)
  also have "\<dots> = [?seq - (length ?m - d)..<?seq]"
    using inv le by (simp add: sdma_inv_def)
  finally have "map (unat \<circ> s_seq \<circ> snd) (dropWhile P ?m) = [?seq - length (dropWhile P ?m)..<?seq]"
    using d le by simp
  then show ?thesis
    using inv keys_dropWhile [of P ?m] length_dropWhile_le [of P ?m]
    by (auto simp: sdma_inv_def sdma_pending_seqs_def sdma_tracked_def od_ok_dropWhile)
qed

text \<open>The shape of an SDMA poll: the sequence numbers leave in the order they were given.\<close>

lemma poll_sdma_facts:
  assumes inv: "sdma_inv qs" and w: "wptr \<le> kDwordLimit"
    and poll: "poll_sdma os now wptr rptr qs = (qs', out)"
  shows "sdma_inv qs'" and "qs_info qs' = qs_info qs" and "qs_next_id qs \<le> qs_next_id qs'"
    and "qs_sdma_seq qs \<le> qs_sdma_seq qs'"
    and "map (unat \<circ> s_seq) out @ sdma_pending_seqs qs'
           = sdma_pending_seqs qs @ [unat (qs_sdma_seq qs)..<unat (qs_sdma_seq qs')]"
    and "\<forall>r \<in> set out. s_completed r \<and> s_complete_ts r = now \<and> s_queue_uid r = q_uid (qs_info qs)"
    and "\<forall>k \<in> set (keys (qs_sdma_inflight qs')). rptr < k"
proof -
  let ?s = "skip_lapped (ucast (num_dwords (qs_info qs))) wptr qs"
  let ?l = "sdma_loop os now wptr 2 ?s"
  note skip = sdma_skip_inv [OF inv w, of "qs_info qs"]
  obtain new where new: "sdma_grown now ?s ?l new" using sdma_loop_grown [OF skip(1) w] ..
  then have inv1: "sdma_inv ?l" by (simp add: sdma_grown_def)
  let ?m = "qs_sdma_inflight ?l" and ?P = "\<lambda>kr. fst kr \<le> rptr"
  have qs': "qs' = ?l\<lparr>qs_sdma_inflight := dropWhile ?P ?m, qs_last_rptr := rptr\<rparr>"
    and out: "out = map (complete_sdma now \<circ> snd) (takeWhile ?P ?m)"
    using poll by (auto simp: poll_sdma_def retire_eq comp_def Let_def)
  show "sdma_inv qs'" unfolding qs' by (rule sdma_inv_retire [OF inv1])
  show "qs_info qs' = qs_info qs" using new by (simp add: qs' sdma_grown_def)
  show "qs_next_id qs \<le> qs_next_id qs'" using new skip(2) by (auto simp: qs' sdma_grown_def)
  have seq: "unat (qs_sdma_seq qs') = unat (qs_sdma_seq qs) + length new"
    using new by (simp add: qs' sdma_grown_def)
  then show le: "qs_sdma_seq qs \<le> qs_sdma_seq qs'" by (simp add: word_le_nat_alt)
  have "map (unat \<circ> s_seq) out @ sdma_pending_seqs qs'
      = map (unat \<circ> s_seq \<circ> snd) (takeWhile ?P ?m @ dropWhile ?P ?m)"
    unfolding map_append
    by (simp add: out qs' sdma_pending_seqs_def complete_sdma_def del: takeWhile_dropWhile_id)
  also have "\<dots> = sdma_pending_seqs ?l" by (simp add: sdma_pending_seqs_def)
  also have "\<dots> = [unat (qs_sdma_seq qs') - length ?m..<unat (qs_sdma_seq qs')]"
    using inv1 by (simp add: sdma_inv_def qs')
  also have "\<dots> = [unat (qs_sdma_seq qs) - length (qs_sdma_inflight qs)..<unat (qs_sdma_seq qs) + length new]"
    using new seq by (simp add: sdma_grown_def)
  also have "\<dots> = [unat (qs_sdma_seq qs) - length (qs_sdma_inflight qs)..<unat (qs_sdma_seq qs)]
      @ [unat (qs_sdma_seq qs)..<unat (qs_sdma_seq qs')]"
    unfolding seq by (rule upt_add_eq_append) simp
  finally show "map (unat \<circ> s_seq) out @ sdma_pending_seqs qs'
      = sdma_pending_seqs qs @ [unat (qs_sdma_seq qs)..<unat (qs_sdma_seq qs')]"
    using inv by (simp add: sdma_inv_def)
  show "\<forall>r \<in> set out. s_completed r \<and> s_complete_ts r = now \<and> s_queue_uid r = q_uid (qs_info qs)"
    using inv1 new
    by (auto simp: out complete_sdma_def sdma_inv_def sdma_tracked_def sdma_grown_def
        dest!: set_takeWhileD)
  show "\<forall>k \<in> set (keys (qs_sdma_inflight qs')). rptr < k"
    using sdma_retired_prefix(2) [of ?m rptr] inv1 by (auto simp: qs' keys_def sdma_inv_def)
qed

section \<open>PollSdmaQueue as a first-in first-out machine\<close>

definition sdma_poll ::
    "moments \<times> seconds \<Rightarrow> fd_cache \<times> QueueState \<Rightarrow> (fd_cache \<times> QueueState) \<times> SdmaRecord list" where
  "sdma_poll e s =
     (case PollSdmaQueue (fst e) (fst s) (snd s) (snd e) of (c, qs, out) \<Rightarrow> ((c, qs), out))"

definition sdma_ok :: "moments \<times> seconds \<Rightarrow> fd_cache \<times> QueueState \<Rightarrow> bool" where
  "sdma_ok e s = True"

definition sdma_state_inv :: "fd_cache \<times> QueueState \<Rightarrow> bool" where
  "sdma_state_inv s = sdma_inv (snd s)"

definition sdma_frontier :: "fd_cache \<times> QueueState \<Rightarrow> nat" where
  "sdma_frontier s = unat (qs_sdma_seq (snd s))"

definition sdma_pending :: "fd_cache \<times> QueueState \<Rightarrow> nat list" where
  "sdma_pending s = sdma_pending_seqs (snd s)"

definition sdma_ident :: "SdmaRecord \<Rightarrow> nat" where
  "sdma_ident r = unat (s_seq r)"

lemma sdma_inv_cong: "sdma_inv (qs\<lparr>qs_read_fail_count := n\<rparr>) = sdma_inv qs"
  by (simp add: sdma_inv_def sdma_tracked_def sdma_pending_seqs_def)

lemma sdma_inv_read_failed: "sdma_inv (read_failed qs) = sdma_inv qs"
  by (simp add: sdma_inv_def sdma_tracked_def sdma_pending_seqs_def)

lemma sdma_poll_cases:
  assumes inv: "sdma_inv qs" and poll: "sdma_poll (os, now) (c, qs) = ((c', qs'), out)"
  obtains "snd (read_pointers os c (qs_info qs)) = None" and "qs' = read_failed qs" and "out = []"
  | "num_dwords (qs_info qs) = 0" and "qs' = qs\<lparr>qs_read_fail_count := 0\<rparr>" and "out = []"
  | w r where "snd (read_pointers os c (qs_info qs)) = Some (w, r)"
      and "num_dwords (qs_info qs) \<noteq> 0"
      and "poll_sdma os now (RingBytesToDwords w) (RingBytesToDwords r)
             (qs\<lparr>qs_read_fail_count := 0\<rparr>) = (qs', out)"
proof -
  have p: "PollSdmaQueue os c qs now = (c', qs', out)"
    using poll by (auto simp: sdma_poll_def split: prod.splits)
  obtain c1 ptrs where r: "read_pointers os c (qs_info qs) = (c1, ptrs)" by force
  show ?thesis
  proof (cases ptrs)
    case None
    with r p show ?thesis using that(1) by (auto simp: PollSdmaQueue_def)
  next
    case (Some wr)
    with r p inv show ?thesis using that(2,3)
      by (cases wr) (auto simp: PollSdmaQueue_def sdma_inv_def Let_def split: if_splits)
  qed
qed

lemma sdma_poll_facts:
  assumes inv: "sdma_inv qs" and poll: "sdma_poll (os, now) (c, qs) = ((c', qs'), out)"
  shows "sdma_inv qs'" and "qs_sdma_seq qs \<le> qs_sdma_seq qs'"
    and "map (unat \<circ> s_seq) out @ sdma_pending_seqs qs'
           = sdma_pending_seqs qs @ [unat (qs_sdma_seq qs)..<unat (qs_sdma_seq qs')]"
proof -
  have "sdma_inv qs' \<and> qs_sdma_seq qs \<le> qs_sdma_seq qs' \<and>
    map (unat \<circ> s_seq) out @ sdma_pending_seqs qs'
      = sdma_pending_seqs qs @ [unat (qs_sdma_seq qs)..<unat (qs_sdma_seq qs')]"
    using inv poll
  proof (cases rule: sdma_poll_cases)
    case 1
    then show ?thesis using inv by (simp add: sdma_inv_read_failed sdma_pending_seqs_def)
  next
    case 2
    then show ?thesis using inv by (simp add: sdma_inv_cong sdma_pending_seqs_def)
  next
    case (3 w r)
    have "sdma_inv (qs\<lparr>qs_read_fail_count := 0\<rparr>)" using inv by (simp add: sdma_inv_cong)
    note facts = poll_sdma_facts [OF this RingBytesToDwords_le 3(3)]
    show ?thesis using facts(1,4,5) by (simp add: sdma_pending_seqs_def)
  qed
  then show "sdma_inv qs'" and "qs_sdma_seq qs \<le> qs_sdma_seq qs'"
    and "map (unat \<circ> s_seq) out @ sdma_pending_seqs qs'
           = sdma_pending_seqs qs @ [unat (qs_sdma_seq qs)..<unat (qs_sdma_seq qs')]" by blast+
qed

interpretation sdma: fifo_machine sdma_poll sdma_ok sdma_state_inv sdma_frontier sdma_pending sdma_ident
proof
  fix e :: "moments \<times> seconds" and s s' :: "fd_cache \<times> QueueState" and out n
  assume "sdma_state_inv s"
  then have inv: "sdma_inv (snd s)" by (simp add: sdma_state_inv_def)
  have pend: "sdma_pending s = [sdma_frontier s - length (qs_sdma_inflight (snd s))..<sdma_frontier s]"
    using inv by (simp add: sdma_inv_def sdma_pending_def sdma_frontier_def)
  show "sorted_wrt (<) (sdma_pending s)" unfolding pend by simp
  show "n \<in> set (sdma_pending s) \<Longrightarrow> n < sdma_frontier s" unfolding pend by simp
  obtain os now where e: "e = (os, now)" by force
  obtain c qs where s: "s = (c, qs)" by force
  obtain c' qs' where s': "s' = (c', qs')" by force
  assume "sdma_poll e s = (s', out)"
  note facts = sdma_poll_facts [OF inv [unfolded s snd_conv] this [unfolded e s s']]
  show "sdma_state_inv s'" using facts(1) s' by (simp add: sdma_state_inv_def)
  show "sdma_frontier s \<le> sdma_frontier s'"
    using facts(2) s s' by (simp add: sdma_frontier_def word_le_nat_alt)
  show "map sdma_ident out @ sdma_pending s' = sdma_pending s @ [sdma_frontier s..<sdma_frontier s']"
    using facts(3) s s'
    by (simp add: sdma_pending_def sdma_frontier_def sdma_ident_def [abs_def] comp_def)
qed

end
