(* ===== verification/Sdma_Stream.thy ===== *)
theory Sdma_Stream
  imports Sdma_Ring
begin

text \<open>
  What the SDMA poller decodes, stated over the dwords of the ring instead of over reads: the
  ring as a circular list, a reference walk that splits a dword list into packets, and the
  refinement between \<^verbatim>\<open>PollSdmaQueue\<close>'s loop and that walk. The length decoder is an
  interface (locale \<open>packet_decoder\<close>), interpreted on \<^verbatim>\<open>sdma::PacketLenDwords\<close>.
\<close>

section \<open>The ring as a circular list\<close>

definition ring_slice :: "'a list \<Rightarrow> nat \<Rightarrow> nat \<Rightarrow> 'a list" where
  "ring_slice ring start n = map (\<lambda>i. ring ! ((start + i) mod length ring)) [0..<n]"

text \<open>
  The target's ring buffer is mapped and holds \<open>ring\<close>: reading whole dwords inside it returns
  their little-endian bytes.
\<close>

definition ring_memory :: "os_view \<Rightarrow> QueueInfo \<Rightarrow> u32 list \<Rightarrow> bool" where
  "ring_memory os q ring \<longleftrightarrow>
     length ring = unat (num_dwords q) \<and>
     (\<forall>off cnt. off + cnt \<le> length ring \<longrightarrow>
        os_vm_readv os (q_pid q) (q_ring_base q + of_nat off * 4) (4 * cnt)
          = Some (concat (map bytes_of_dword (take cnt (drop off ring)))))"

lemma ring_memory_read:
  assumes "ring_memory os q ring" and "off + cnt \<le> length ring"
  shows "ReadProcMem os (q_pid q) (q_ring_base q + of_nat off * 4) (4 * cnt)
    = Some (concat (map bytes_of_dword (take cnt (drop off ring))))"
proof -
  have "length (concat (map bytes_of_dword (take cnt (drop off ring)))) = 4 * cnt"
    using assms(2) by (simp add: length_bytes_of_dwords)
  then show ?thesis
    using assms by (simp add: ReadProcMem_def full_read_def ring_memory_def)
qed

lemma length_ring_slice [simp]: "length (ring_slice ring start n) = n"
  by (simp add: ring_slice_def)

lemma ring_slice_wrap:
  assumes "off < length ring" and "n \<le> length ring"
  shows "ring_slice ring off n =
    take (min n (length ring - off)) (drop off ring) @ take (n - min n (length ring - off)) ring"
proof (rule nth_equalityI)
  show "length (ring_slice ring off n) = length (take (min n (length ring - off)) (drop off ring) @
      take (n - min n (length ring - off)) ring)"
    using assms by auto
next
  fix i assume "i < length (ring_slice ring off n)"
  then have i: "i < n" by simp
  show "ring_slice ring off n ! i = (take (min n (length ring - off)) (drop off ring) @
      take (n - min n (length ring - off)) ring) ! i"
  proof (cases "off + i < length ring")
    case True
    then have "i < length ring - off" by simp
    then show ?thesis using True i assms by (simp add: ring_slice_def nth_append)
  next
    case False
    then have "(off + i) mod length ring = off + i - length ring"
      using i assms by (simp add: mod_if)
    then show ?thesis using False i assms by (auto simp: ring_slice_def nth_append min_def add.commute)
  qed
qed

lemma ring_slice_mod: "ring_slice ring (start mod length ring) n = ring_slice ring start n"
  by (simp add: ring_slice_def mod_add_left_eq)

lemma take_ring_slice: "take k (ring_slice ring start n) = ring_slice ring start (min k n)"
  by (auto simp: ring_slice_def take_map min_def)

lemma drop_ring_slice:
  "k \<le> n \<Longrightarrow> drop k (ring_slice ring start n) = ring_slice ring (start + k) (n - k)"
  by (intro nth_equalityI) (auto simp: ring_slice_def add.assoc)

lemma unat_times_4: "unat x * 4 < 2 ^ 64 \<Longrightarrow> unat (x * 4 :: u64) = 4 * unat x"
  by (simp add: unat_word_ariths)

text \<open>Reading \<open>n\<close> dwords from any position gives the circular slice, across the ring's end.\<close>

lemma ReadRingDwords_slice:
  assumes mem: "ring_memory os q ring" and pos: "0 < length ring" and n: "unat n \<le> length ring"
  shows "ReadRingDwords os q start n = Some (ring_slice ring (unat start) (unat n))"
proof -
  let ?L = "length ring" and ?R = "ucast (num_dwords q) :: u64"
  define off where "off = unat start mod ?L"
  define fst' where "fst' = min (unat n) (?L - off)"
  have L: "unat ?R = ?L" using mem by (simp add: ring_memory_def)
  have L32: "?L < 2 ^ 32"
    using mem unat_bound [of "num_dwords q"] by (simp add: ring_memory_def)
  have off_lt: "off < ?L" using pos by (simp add: off_def)
  have R0: "?R \<noteq> 0" using L pos by (metis unat_0 less_irrefl)
  have woff: "unat (start mod ?R) = off" by (simp add: unat_mod L off_def)
  then have moff: "start mod ?R = of_nat off" by (simp flip: woff)
  have sub: "unat (?R - start mod ?R) = ?L - off"
    using woff off_lt L by (simp add: unat_sub word_le_nat_alt)
  have first: "unat (min (ucast n) (?R - start mod ?R)) = fst'"
    using sub by (simp add: min_def fst'_def word_le_nat_alt)
  have small: "fst' * 4 < 2 ^ 64" "(unat n - fst') * 4 < 2 ^ 64"
    using L32 n by (auto simp: fst'_def)
  have len1: "unat (min (ucast n) (?R - start mod ?R) * 4) = 4 * fst'"
    using small(1) unat_times_4 [of "min (ucast n) (?R - start mod ?R)"] unfolding first by simp
  have le: "min (ucast n) (?R - start mod ?R) \<le> ucast n" by simp
  have len2: "unat ((ucast n - min (ucast n) (?R - start mod ?R)) * 4) = 4 * (unat n - fst')"
  proof -
    have d: "unat (ucast n - min (ucast n) (?R - start mod ?R)) = unat n - fst'"
      using unat_sub [OF le] first by simp
    show ?thesis
      using small(2) unat_times_4 [of "ucast n - min (ucast n) (?R - start mod ?R)"] unfolding d by simp
  qed
  have r1: "ReadProcMem os (q_pid q) (q_ring_base q + start mod ?R * 4) (4 * fst')
      = Some (concat (map bytes_of_dword (take fst' (drop off ring))))"
    unfolding moff by (rule ring_memory_read [OF mem]) (use off_lt in \<open>simp add: fst'_def\<close>)
  have r2: "ReadProcMem os (q_pid q) (q_ring_base q) (4 * (unat n - fst'))
      = Some (concat (map bytes_of_dword (take (unat n - fst') ring)))"
    using ring_memory_read [OF mem, of 0 "unat n - fst'"] n by simp
  have lt: "min (ucast n) (?R - start mod ?R) < ucast n \<longleftrightarrow> fst' < unat n"
    using first by (simp add: word_less_nat_alt)
  have slice: "ring_slice ring (unat start) (unat n) = take fst' (drop off ring) @ take (unat n - fst') ring"
    using ring_slice_wrap [OF off_lt n] ring_slice_mod [of ring "unat start"]
    by (simp add: off_def fst'_def)
  have "fst' \<le> unat n" by (simp add: fst'_def)
  then show ?thesis
    unfolding ReadRingDwords_def Let_def len1 len2 r1 lt slice
    using R0 by (simp add: r2 dwords_of_bytes)
qed

section \<open>Splitting a dword list into packets\<close>

text \<open>
  Where the poller's walk over the published dwords ends: at the write pointer, before a
  packet that is not published to its end, or at an opcode it does not know.
\<close>

datatype walk_end = Caught_up | Incomplete | Lost_sync

definition window :: "u32 list \<Rightarrow> u32 list" where
  "window ds = take 16 ds"

function frame_walk ::
    "(u32 list \<Rightarrow> u32 \<Rightarrow> u32) \<Rightarrow> u32 list \<Rightarrow> u32 list list \<times> walk_end" where
  "frame_walk plen ds =
     (if ds = [] then ([], Caught_up)
      else let len = unat (plen (window ds) (of_nat (length (window ds)))) in
        if len = 0 then ([], if length ds < 4 then Incomplete else Lost_sync)
        else if length ds < len then ([], Incomplete)
        else case frame_walk plen (drop len ds) of (ps, e) \<Rightarrow> (take len ds # ps, e))"
  by pat_completeness auto
termination
  by (relation "measure (\<lambda>(plen, ds). length ds)") auto

declare frame_walk.simps [simp del]

text \<open>A dword list that the decoder, shown it alone, takes for exactly one packet.\<close>

definition framed :: "(u32 list \<Rightarrow> u32 \<Rightarrow> u32) \<Rightarrow> u32 list \<Rightarrow> bool" where
  "framed plen p = (p \<noteq> [] \<and> unat (plen (window p) (of_nat (length (window p)))) = length p)"

text \<open>A decoder whose answer, once given, does not change when more dwords are seen.\<close>

locale packet_decoder =
  fixes plen :: "u32 list \<Rightarrow> u32 \<Rightarrow> u32"
  assumes plen_prefix: "plen p n \<noteq> 0 \<Longrightarrow> n \<le> m \<Longrightarrow> unat n \<le> length p \<Longrightarrow> unat n \<le> length q \<Longrightarrow>
      take (unat n) q = take (unat n) p \<Longrightarrow> plen q m = plen p n"
    and plen_empty: "plen p 0 = 0"
begin

lemma framed_in_stream:
  assumes "framed plen p"
  shows "unat (plen (window (p @ rest)) (of_nat (length (window (p @ rest))))) = length p"
proof -
  let ?n = "of_nat (length (window p)) :: u32" and ?m = "of_nat (length (window (p @ rest))) :: u32"
  have sz: "length (window p) < 2 ^ 32" "length (window (p @ rest)) < 2 ^ 32"
    by (simp_all add: window_def)
  have n: "unat ?n = length (window p)" and m: "unat ?m = length (window (p @ rest))"
    using sz by (simp_all add: unat_of_nat_small)
  have le: "length (window p) \<le> length (window (p @ rest))" by (simp add: window_def)
  have "plen (window (p @ rest)) ?m = plen (window p) ?n"
  proof (rule plen_prefix)
    show "plen (window p) ?n \<noteq> 0" using assms by (auto simp: framed_def)
    show "?n \<le> ?m" using n m le by (simp add: word_le_nat_alt)
    show "take (unat ?n) (window (p @ rest)) = take (unat ?n) (window p)"
      unfolding n by (simp add: window_def)
  qed (use n le in simp_all)
  then show ?thesis using assms by (simp add: framed_def)
qed

text \<open>Packets written one after the other are found again, one by one.\<close>

lemma frame_walk_framed:
  "\<forall>p \<in> set ps. framed plen p \<Longrightarrow> frame_walk plen (concat ps) = (ps, Caught_up)"
proof (induction ps)
  case Nil
  then show ?case by (simp add: frame_walk.simps)
next
  case (Cons p ps)
  have p: "framed plen p" and ne: "p \<noteq> []" using Cons.prems by (auto simp: framed_def)
  have "unat (plen (window (p @ concat ps)) (of_nat (length (window (p @ concat ps))))) = length p"
    by (rule framed_in_stream [OF p])
  then show ?case
    using ne Cons by (simp add: frame_walk.simps [of plen "p @ concat ps"])
qed

lemma frame_walk_prefix:
  "frame_walk plen ds = (ps, e) \<Longrightarrow> \<exists>rest. ds = concat ps @ rest \<and> (e = Caught_up \<longrightarrow> rest = [])"
proof (induction plen ds arbitrary: ps rule: frame_walk.induct)
  case (1 plen ds)
  let ?len = "unat (plen (window ds) (of_nat (length (window ds))))"
  show ?case
  proof (cases "ds = [] \<or> ?len = 0 \<or> length ds < ?len")
    case True
    with "1.prems" show ?thesis by (auto simp: frame_walk.simps [of plen ds] Let_def split: if_splits)
  next
    case False
    obtain ps' where f: "frame_walk plen (drop ?len ds) = (ps', e)" and ps: "ps = take ?len ds # ps'"
      using False "1.prems" by (auto simp: frame_walk.simps [of plen ds] Let_def split: prod.splits)
    obtain rest where "drop ?len ds = concat ps' @ rest" "e = Caught_up \<longrightarrow> rest = []"
      using "1.IH" [OF _ refl _ _ f] False by auto
    then have "ds = concat ps @ rest" by (metis append.assoc append_take_drop_id concat.simps(2) ps)
    then show ?thesis using \<open>e = Caught_up \<longrightarrow> rest = []\<close> by blast
  qed
qed

end

lemma PacketLenDwords_prefix:
  assumes "PacketLenDwords v p n \<noteq> 0" and "n \<le> m" and "unat n \<le> length p" and "unat n \<le> length q"
    and eq: "take (unat n) q = take (unat n) p"
  shows "PacketLenDwords v q m = PacketLenDwords v p n"
proof -
  have "n \<noteq> 0" using assms(1) PacketLenDwords_0 by auto
  then have n0: "0 < unat n" by (simp add: unat_gt_0)
  have nth: "q ! i = p ! i" if "i < unat n" for i
    using arg_cong [OF eq, of "\<lambda>l. l ! i"] that by simp
  have "PacketLenDwords v p n = PacketLenDwords v q n"
    by (rule PacketLenDwords_local) (use n0 nth in \<open>auto simp: word_le_nat_alt\<close>)
  then show ?thesis
    using PacketLenDwords_stable [of v q n m] assms(1,2) by simp
qed

interpretation sdma_len: packet_decoder "PacketLenDwords v" for v
  by unfold_locales (rule PacketLenDwords_prefix, assumption+, rule PacketLenDwords_0)

section \<open>The poller implements the walk\<close>

text \<open>What a packet's record must say, read off the packet's own dwords.\<close>

definition frame_name :: "Version \<Rightarrow> u32 list \<Rightarrow> string" where
  "frame_name v p =
     (if HeaderOp (p ! 0) = OP_COPY
      then ''copy_'' @ CopySubOpName v (HeaderSubOp (p ! 0)) @
           (if HeaderBroadcast (p ! 0) then ''_broadcast'' else [])
      else OpName v (HeaderOp (p ! 0)))"

definition frame_linear :: "Version \<Rightarrow> u32 list \<Rightarrow> bool" where
  "frame_linear v p = (HeaderOp (p ! 0) = OP_COPY \<and> IsLinearCopy v (HeaderSubOp (p ! 0)))"

definition frame_record :: "QueueInfo \<Rightarrow> u32 list \<Rightarrow> SdmaRecord \<Rightarrow> bool" where
  "frame_record q p r \<longleftrightarrow>
     s_queue_uid r = q_uid q \<and> s_opcode r = HeaderOp (p ! 0) \<and> s_sub_opcode r = HeaderSubOp (p ! 0) \<and>
     s_op_name r = frame_name (q_sdma_version q) p \<and>
     (if frame_linear (q_sdma_version q) p
      then s_bytes r = LinearCopyBytes (q_sdma_version q) (HeaderSubOp (p ! 0)) (p ! 1) \<and>
           s_src_addr r = addr_of_dwords (p ! 3) (p ! 4) \<and>
           s_dst_addr r = addr_of_dwords (p ! 5) (p ! 6) \<and> s_dir r \<noteq> Dir_Unknown
      else s_bytes r = 0 \<and> s_src_addr r = 0 \<and> s_dst_addr r = 0 \<and> s_dir r = Dir_Unknown)"

lemma ClassifyDir_known: "ClassifyDir os qs s d = (qs', dir) \<Longrightarrow> dir \<noteq> Dir_Unknown"
  by (auto simp: ClassifyDir_def split: prod.splits if_splits)

lemma sdma_record_frame_record:
  assumes rec: "sdma_record os now qs dws win = (qs', r)"
    and lin: "frame_linear (q_sdma_version (qs_info qs)) dws \<Longrightarrow> 7 \<le> win"
  shows "frame_record (qs_info qs) dws r"
proof (cases "frame_linear (q_sdma_version (qs_info qs)) dws")
  case True
  with rec lin show ?thesis
    by (auto simp: sdma_record_def frame_record_def frame_linear_def frame_name_def Let_def
        dest: ClassifyDir_known split: prod.splits)
next
  case False
  with rec show ?thesis
    by (auto simp: sdma_record_def frame_record_def frame_linear_def frame_name_def Let_def
        new_SdmaRecord_def split: if_splits)
qed

text \<open>One iteration of the loop, over the published dwords instead of over reads.\<close>

definition published :: "u32 list \<Rightarrow> u64 \<Rightarrow> QueueState \<Rightarrow> u32 list" where
  "published ring wptr qs =
     ring_slice ring (unat (qs_next_id qs)) (unat wptr - unat (qs_next_id qs))"

lemma sdma_step_published:
  assumes mem: "ring_memory os (qs_info qs) ring" and lt: "qs_next_id qs < wptr"
    and fits: "unat wptr - unat (qs_next_id qs) \<le> length ring"
    and ds: "ds = published ring wptr qs"
    and win: "win = of_nat (length (window ds))"
    and len: "len = PacketLenDwords (q_sdma_version (qs_info qs)) (window ds) win"
  shows "sdma_step os now wptr qs =
    (if len = 0 then
       if length ds < 4 then Stop qs
       else Stop (qs\<lparr>qs_dropped := qs_dropped qs + (wptr - qs_next_id qs), qs_next_id := wptr\<rparr>)
     else if length ds < unat len then Stop qs
     else case sdma_record os now qs (window ds) win of (qs1, rec) \<Rightarrow>
       Step (qs1\<lparr>qs_sdma_inflight :=
                   od_emplace (qs_next_id qs + ucast len) rec (qs_sdma_inflight qs1),
                 qs_next_id := qs_next_id qs + ucast len\<rparr>))"
proof -
  let ?n = "qs_next_id qs"
  have avail: "unat (wptr - ?n) = unat wptr - unat ?n"
    using lt by (intro unat_sub) (simp add: word_le_nat_alt word_less_nat_alt)
  have dl: "length ds = unat wptr - unat ?n" by (simp add: ds published_def)
  have "unat ?n < unat wptr" using lt by (simp add: word_less_nat_alt)
  then have pos: "0 < length ring" using fits by linarith
  have wl: "length (window ds) = min (unat wptr - unat ?n) 16" by (simp add: window_def dl)
  have "unat (min (wptr - ?n) kSdmaWindow) = length (window ds)"
    using avail by (simp add: wl kSdmaWindow_def min_def word_le_nat_alt)
  then have cast: "(ucast (min (wptr - ?n) kSdmaWindow) :: u32) = win"
    unfolding win by (metis of_nat_unat)
  have "unat win = length (window ds)" unfolding win by (intro unat_of_nat_small) (simp add: window_def)
  then have "ReadRingDwords os (qs_info qs) ?n win = Some (ring_slice ring (unat ?n) (length (window ds)))"
    using ReadRingDwords_slice [OF mem pos, of win ?n] fits wl by simp
  also have "ring_slice ring (unat ?n) (length (window ds)) = window ds"
    by (simp add: wl window_def ds published_def take_ring_slice min.commute)
  finally have read: "ReadRingDwords os (qs_info qs) ?n win = Some (window ds)" .
  have "wptr - ?n < 4 \<longleftrightarrow> length ds < 4" and "wptr - ?n < ucast len \<longleftrightarrow> length ds < unat len"
    using avail dl by (simp_all add: word_less_nat_alt)
  then show ?thesis
    by (simp add: sdma_step_def Let_def cast read flip: len)
qed

lemma published_next:
  fixes len :: u32
  assumes "qs_next_id qs' = qs_next_id qs + ucast len" and "unat len \<le> length (published ring wptr qs)"
    and "qs_next_id qs \<le> wptr"
  shows "published ring wptr qs' = drop (unat len) (published ring wptr qs)"
    and "unat (qs_next_id qs') = unat (qs_next_id qs) + unat len"
    and "qs_next_id qs' \<le> wptr"
proof -
  let ?n = "qs_next_id qs"
  have "unat len \<le> unat (wptr - ?n)"
    using assms(2,3) by (simp add: published_def unat_sub)
  then have le: "ucast len \<le> wptr - ?n" by (simp add: word_le_nat_alt)
  note add = unat_add_within [OF assms(3) le]
  show eq: "unat (qs_next_id qs') = unat ?n + unat len" using add(1) assms(1) by simp
  show "qs_next_id qs' \<le> wptr" using add(2) assms(1) by simp
  show "published ring wptr qs' = drop (unat len) (published ring wptr qs)"
    using assms(2) by (simp add: published_def eq drop_ring_slice)
qed

lemma frame_record_cong:
  assumes "p ! 0 = p' ! 0" and "frame_linear (q_sdma_version q) p \<Longrightarrow> \<forall>i < 7. p ! i = p' ! i"
  shows "frame_record q p r = frame_record q p' r"
proof -
  have lin: "frame_linear (q_sdma_version q) p' = frame_linear (q_sdma_version q) p"
    and nam: "frame_name (q_sdma_version q) p' = frame_name (q_sdma_version q) p"
    using assms(1) by (simp_all add: frame_linear_def frame_name_def)
  show ?thesis
  proof (cases "frame_linear (q_sdma_version q) p")
    case True
    then have "p ! 1 = p' ! 1" "p ! 3 = p' ! 3" "p ! 4 = p' ! 4" "p ! 5 = p' ! 5" "p ! 6 = p' ! 6"
      using assms(2) by simp_all
    then show ?thesis unfolding frame_record_def lin nam assms(1) by simp
  next
    case False
    then show ?thesis unfolding frame_record_def lin nam assms(1) by simp
  qed
qed

fun end_dwords :: "nat \<Rightarrow> u32 list list \<Rightarrow> nat list" where
  "end_dwords n [] = []"
| "end_dwords n (p # ps) = (n + length p) # end_dwords (n + length p) ps"

text \<open>
  \<open>walked q qs ps e wptr qs'\<close>: \<open>qs'\<close> is \<open>qs\<close> with exactly one record in flight per packet of
  \<open>ps\<close>, each at its last dword, and the read position where the walk ended.
\<close>

definition walked ::
    "QueueState \<Rightarrow> u32 list list \<Rightarrow> walk_end \<Rightarrow> u64 \<Rightarrow> QueueState \<Rightarrow> bool" where
  "walked qs ps e wptr qs' \<longleftrightarrow>
     (\<exists>new. qs_sdma_inflight qs' = qs_sdma_inflight qs @ new \<and>
        list_all2 (frame_record (qs_info qs)) ps (map snd new) \<and>
        map (unat \<circ> fst) new = end_dwords (unat (qs_next_id qs)) ps) \<and>
     (if e = Lost_sync
      then qs_next_id qs' = wptr \<and>
        qs_dropped qs' = qs_dropped qs + (wptr - (qs_next_id qs + of_nat (length (concat ps))))
      else qs_next_id qs' = qs_next_id qs + of_nat (length (concat ps)) \<and>
        qs_dropped qs' = qs_dropped qs)"

lemma walked_Nil: "e \<noteq> Lost_sync \<Longrightarrow> walked qs [] e wptr qs"
  by (simp add: walked_def)

lemma walked_Cons:
  assumes rest: "walked qs1 ps e wptr qs'" and info: "qs_info qs1 = qs_info qs"
    and infl: "qs_sdma_inflight qs1 = qs_sdma_inflight qs @ [(qs_next_id qs1, r)]"
    and nxt: "qs_next_id qs1 = qs_next_id qs + of_nat (length p)"
    and un: "unat (qs_next_id qs1) = unat (qs_next_id qs) + length p"
    and drop: "qs_dropped qs1 = qs_dropped qs" and rec: "frame_record (qs_info qs) p r"
  shows "walked qs (p # ps) e wptr qs'"
proof -
  obtain new where new: "qs_sdma_inflight qs' = qs_sdma_inflight qs1 @ new"
    "list_all2 (frame_record (qs_info qs)) ps (map snd new)"
    "map (unat \<circ> fst) new = end_dwords (unat (qs_next_id qs1)) ps"
    using rest info by (auto simp: walked_def)
  have "\<exists>new. qs_sdma_inflight qs' = qs_sdma_inflight qs @ new \<and>
        list_all2 (frame_record (qs_info qs)) (p # ps) (map snd new) \<and>
        map (unat \<circ> fst) new = end_dwords (unat (qs_next_id qs)) (p # ps)"
    using new rec un by (intro exI [of _ "(qs_next_id qs1, r) # new"]) (simp add: infl)
  then show ?thesis
    using rest drop by (simp add: walked_def nxt add.assoc)
qed

text \<open>
  A packet that is decoded is decoded in full: a linear copy reaches the window's seventh dword,
  so the poller's \<^verbatim>\<open>win >= 7\<close> never cuts one short.
\<close>

lemma decoded_frame_record:
  assumes rec: "sdma_record os now qs (window ds) win = (qs', r)"
    and win: "win = of_nat (length (window ds))"
    and len: "len = PacketLenDwords (q_sdma_version (qs_info qs)) (window ds) win"
    and ok: "len \<noteq> 0" "unat len \<le> length ds"
  shows "frame_record (qs_info qs) (take (unat len) ds) r"
proof -
  let ?v = "q_sdma_version (qs_info qs)"
  have w: "unat win = length (window ds)"
    unfolding win by (intro unat_of_nat_small) (simp add: window_def)
  have pos: "0 < unat len" using ok(1) by (simp add: unat_gt_0)
  have win1: "1 \<le> win" using pos ok(2) w by (auto simp: word_le_nat_alt window_def)
  have seven: "7 \<le> unat len" if "frame_linear ?v (window ds)"
  proof -
    have "7 \<le> len"
      unfolding len using that win1
      by (intro linear_copy_len_ge7) (auto simp: frame_linear_def dest: IsLinearCopy_supported)
    then show ?thesis by (simp add: word_le_nat_alt)
  qed
  have "frame_record (qs_info qs) (window ds) r"
    by (rule sdma_record_frame_record [OF rec])
      (use seven ok(2) w in \<open>auto simp: word_le_nat_alt window_def\<close>)
  moreover have "window ds ! 0 = take (unat len) ds ! 0"
    using pos by (simp add: window_def)
  moreover have "\<forall>i < 7. window ds ! i = take (unat len) ds ! i" if "frame_linear ?v (window ds)"
    using seven [OF that] by (simp add: window_def)
  ultimately show ?thesis using frame_record_cong [of "window ds" "take (unat len) ds" "qs_info qs"] by blast
qed

text \<open>
  With a readable ring that does not change during the poll, the loop is the reference walk
  over the published dwords.
\<close>

lemma sdma_loop_walks:
  assumes "sdma_inv qs" and "wptr \<le> kDwordLimit" and "qs_next_id qs \<le> wptr"
    and "unat wptr - unat (qs_next_id qs) \<le> length ring"
    and "\<And>j. ring_memory (os j) (qs_info qs) ring"
    and "frame_walk (PacketLenDwords (q_sdma_version (qs_info qs))) (published ring wptr qs) = (ps, e)"
  shows "walked qs ps e wptr (sdma_loop os now wptr k qs)"
  using assms
proof (induction os now wptr k qs arbitrary: ps rule: sdma_loop.induct)
  case (1 os now wptr k qs)
  let ?ds = "published ring wptr qs" and ?v = "q_sdma_version (qs_info qs)"
  define win where "win = (of_nat (length (window ?ds)) :: u32)"
  define len where "len = PacketLenDwords ?v (window ?ds) win"
  have walk: "frame_walk (PacketLenDwords ?v) ?ds =
      (if ?ds = [] then ([], Caught_up)
       else if unat len = 0 then ([], if length ?ds < 4 then Incomplete else Lost_sync)
       else if length ?ds < unat len then ([], Incomplete)
       else case frame_walk (PacketLenDwords ?v) (drop (unat len) ?ds) of (ps, e) \<Rightarrow>
         (take (unat len) ?ds # ps, e))"
    by (subst frame_walk.simps) (simp add: Let_def len_def win_def)
  show ?case
  proof (cases "qs_next_id qs < wptr")
    case False
    then have "?ds = []" and "sdma_loop os now wptr k qs = qs"
      using "1.prems"(3) by (simp_all add: published_def ring_slice_def sdma_loop.simps [of os now wptr k qs])
    then show ?thesis using "1.prems"(6) walk by (auto intro: walked_Nil)
  next
    case lt: True
    have dl: "length ?ds = unat wptr - unat (qs_next_id qs)" by (simp add: published_def)
    then have ne: "?ds \<noteq> []" using lt by (auto simp: word_less_nat_alt)
    note step = sdma_step_published [OF "1.prems"(5) lt "1.prems"(4) refl win_def len_def, of k now]
    note unf = sdma_loop.simps [of os now wptr k qs]
    consider "len = 0" "length ?ds < 4" | "len = 0" "\<not> length ?ds < 4"
      | "len \<noteq> 0" "length ?ds < unat len" | "len \<noteq> 0" "\<not> length ?ds < unat len" by blast
    then show ?thesis
    proof cases
      case 1
      then show ?thesis using "1.prems"(6) walk ne lt step unf by (auto intro: walked_Nil)
    next
      case 2
      then have "ps = []" "e = Lost_sync"
        and "sdma_loop os now wptr k qs
          = qs\<lparr>qs_dropped := qs_dropped qs + (wptr - qs_next_id qs), qs_next_id := wptr\<rparr>"
        using "1.prems"(6) walk ne lt step unf by auto
      then show ?thesis by (simp add: walked_def)
    next
      case 3
      then show ?thesis using "1.prems"(6) walk ne lt step unf by (auto intro: walked_Nil)
    next
      case 4
      obtain qs0 r where rec: "sdma_record (os k) now qs (window ?ds) win = (qs0, r)" by force
      define qs1 where "qs1 = qs0\<lparr>qs_sdma_inflight :=
          od_emplace (qs_next_id qs + ucast len) r (qs_sdma_inflight qs0),
          qs_next_id := qs_next_id qs + ucast len\<rparr>"
      have st: "sdma_step (os k) now wptr qs = Step qs1" using 4 step rec by (simp add: qs1_def)
      have le: "unat len \<le> length ?ds" using 4 by simp
      note nxt = published_next [of qs1 qs len ring wptr, OF _ le "1.prems"(3)]
      obtain m where qs0: "qs0 = qs\<lparr>qs_sdma_seq := qs_sdma_seq qs + 1, qs_page_host := m\<rparr>"
        using sdma_record_frame [OF rec] ..
      have n1: "qs_next_id qs1 = qs_next_id qs + ucast len" and info: "qs_info qs1 = qs_info qs"
        and drp: "qs_dropped qs1 = qs_dropped qs" by (simp_all add: qs1_def qs0)
      obtain new where grown: "sdma_grown now qs qs1 new"
        using sdma_step_grown [OF st "1.prems"(1) lt "1.prems"(2)] ..
      have infl: "qs_sdma_inflight qs1 = qs_sdma_inflight qs @ [(qs_next_id qs1, r)]"
        using sdma_step_next(1) [OF st lt] "1.prems"(1)
        by (simp add: qs1_def qs0, intro od_emplace_above)
          (auto simp: sdma_inv_def sdma_tracked_def keys_def)
      obtain ps' where ps: "ps = take (unat len) ?ds # ps'"
        and rest: "frame_walk (PacketLenDwords ?v) (drop (unat len) ?ds) = (ps', e)"
        using "1.prems"(6) walk ne 4 by (auto split: prod.splits simp: unat_eq_zero)
      have "walked qs1 ps' e wptr (sdma_loop os now wptr (Suc k) qs1)"
        using grown nxt n1 info "1.prems"(2,4,5) rest
        by (intro "1.IH" [OF lt st]) (auto simp: sdma_grown_def)
      then have "walked qs (take (unat len) ?ds # ps') e wptr (sdma_loop os now wptr (Suc k) qs1)"
        using info infl
      proof (rule walked_Cons)
        show "qs_next_id qs1 = qs_next_id qs + of_nat (length (take (unat len) ?ds))"
          using n1 le by simp
        show "unat (qs_next_id qs1) = unat (qs_next_id qs) + length (take (unat len) ?ds)"
          using nxt(2) n1 le by simp
        show "frame_record (qs_info qs) (take (unat len) ?ds) r"
          by (rule decoded_frame_record [OF rec win_def len_def 4(1) le])
      qed (rule drp)
      then show ?thesis using ps st lt unf by simp
    qed
  qed
qed

end
