(* ===== verification/Parser_Run.thy ===== *)
theory Parser_Run
  imports Aql_Ring Sdma_Stream
begin

text \<open>
  The thread of \<^verbatim>\<open>RingParser\<close> (\<^verbatim>\<open>src/parser.cpp\<close>): \<^verbatim>\<open>AddQueue\<close>, called from the discovery
  thread at any moment, and the rounds of \<^verbatim>\<open>Run\<close>: a snapshot of the queue list, one poll per
  queue of the snapshot, removal of the evicted queues. A snapshot pointer is the queue's
  position; a position past the end of the list would be a dangling pointer, and is a fault.
\<close>

section \<open>State and operations\<close>

datatype parser_event = Dispatch PacketRecord | Copy SdmaRecord

text \<open>
  \<open>rp_todo\<close> is \<open>None\<close> between rounds, and the positions still to be polled during one;
  \<open>rp_fd\<close> is the parser thread's descriptor cache, \<open>rp_out\<close> what the sinks have been given.
\<close>

record RingParser =
  rp_has_sink :: bool
  rp_has_sdma_sink :: bool
  rp_queues :: "QueueState list"
  rp_fd :: fd_cache
  rp_now :: seconds
  rp_todo :: "nat list option"
  rp_out :: "parser_event list"

definition new_RingParser :: "bool \<Rightarrow> bool \<Rightarrow> RingParser" where
  "new_RingParser has_sink has_sdma_sink =
     \<lparr> rp_has_sink = has_sink, rp_has_sdma_sink = has_sdma_sink, rp_queues = [],
       rp_fd = new_fd_cache, rp_now = 0, rp_todo = None, rp_out = [] \<rparr>"

definition AddQueue :: "QueueInfo \<Rightarrow> RingParser \<Rightarrow> RingParser" where
  "AddQueue q rp =
     (if is_sdma q \<and> \<not> IsSupportedVersion (q_sdma_version q) then rp
      else
        let qs0 = new_QueueState q;
            qs = (if is_aql q then qs0\<lparr>qs_ksym := Some (new_KernelSymbolResolver (q_pid q))\<rparr> else qs0)
        in rp\<lparr>rp_queues := rp_queues rp @ [qs]\<rparr>)"

definition TakeSnapshot :: "seconds \<Rightarrow> RingParser \<Rightarrow> RingParser" where
  "TakeSnapshot now rp = rp\<lparr>rp_now := now, rp_todo := Some [0..<length (rp_queues rp)]\<rparr>"

text \<open>The body of the loop over the snapshot.\<close>

definition poll_one ::
    "(string \<Rightarrow> string option) \<Rightarrow> moments \<Rightarrow> seconds \<Rightarrow> fd_cache \<Rightarrow> QueueState \<Rightarrow>
      (fd_cache \<times> QueueState \<times> parser_event list) option" where
  "poll_one dm os now c qs =
     (if qs_evict qs then Some (c, qs, [])
      else if \<not> ProcAlive (os 0) (q_pid (qs_info qs)) then Some (c, qs\<lparr>qs_evict := True\<rparr>, [])
      else if is_sdma (qs_info qs) then
        (case PollSdmaQueue os c qs now of (c', qs', out) \<Rightarrow> Some (c', qs', map Copy out))
      else
        (case PollQueue dm os c qs now of
           None \<Rightarrow> None
         | Some (c', qs', out) \<Rightarrow> Some (c', qs', map Dispatch out)))"

definition delivered :: "RingParser \<Rightarrow> parser_event \<Rightarrow> bool" where
  "delivered rp ev = (case ev of Dispatch _ \<Rightarrow> rp_has_sink rp | Copy _ \<Rightarrow> rp_has_sdma_sink rp)"

definition PollAt ::
    "(string \<Rightarrow> string option) \<Rightarrow> moments \<Rightarrow> nat \<Rightarrow> nat list \<Rightarrow> RingParser \<Rightarrow> RingParser option" where
  "PollAt dm os i rest rp =
     (if length (rp_queues rp) \<le> i then None
      else case poll_one dm os (rp_now rp) (rp_fd rp) (rp_queues rp ! i) of
        None \<Rightarrow> None
      | Some (c, qs, evs) \<Rightarrow>
          Some (rp\<lparr>rp_fd := c, rp_queues := (rp_queues rp)[i := qs], rp_todo := Some rest,
                   rp_out := rp_out rp @ filter (delivered rp) evs\<rparr>))"

definition EraseEvicted :: "RingParser \<Rightarrow> RingParser" where
  "EraseEvicted rp =
     rp\<lparr>rp_queues := filter (\<lambda>qs. \<not> qs_evict qs) (rp_queues rp), rp_todo := None\<rparr>"

section \<open>Interleavings\<close>

text \<open>
  Any interleaving of the discovery thread's \<^verbatim>\<open>AddQueue\<close> with the parser thread's steps. The
  caller adds traced queues only, as \<^verbatim>\<open>parser.h\<close> asks and \<^verbatim>\<open>main.cpp\<close> does.
\<close>

inductive parser_step :: "(string \<Rightarrow> string option) \<Rightarrow> RingParser \<Rightarrow> RingParser \<Rightarrow> bool" for dm where
  step_add: "is_traced q \<Longrightarrow> parser_step dm rp (AddQueue q rp)"
| step_snapshot: "rp_todo rp = None \<Longrightarrow> parser_step dm rp (TakeSnapshot now rp)"
| step_poll: "rp_todo rp = Some (i # rest) \<Longrightarrow> PollAt dm os i rest rp = Some rp' \<Longrightarrow>
    parser_step dm rp rp'"
| step_erase: "rp_todo rp = Some [] \<Longrightarrow> parser_step dm rp (EraseEvicted rp)"

inductive parser_reachable :: "(string \<Rightarrow> string option) \<Rightarrow> RingParser \<Rightarrow> bool" for dm where
  reach_start: "parser_reachable dm (new_RingParser a b)"
| reach_step: "parser_reachable dm rp \<Longrightarrow> parser_step dm rp rp' \<Longrightarrow> parser_reachable dm rp'"

inductive_cases parser_step_cases: "parser_step dm rp rp'"

section \<open>The invariant of the queue list\<close>

text \<open>A queue before its first successful poll, and every SDMA queue after it.\<close>

definition sdma_ready :: "QueueState \<Rightarrow> bool" where
  "sdma_ready qs \<longleftrightarrow>
     (if qs_primed qs then sdma_inv qs
      else qs_sdma_inflight qs = [] \<and> qs_sdma_seq qs = 0 \<and> page_cache_ok (qs_page_host qs))"

definition queue_ok :: "QueueState \<Rightarrow> bool" where
  "queue_ok qs \<longleftrightarrow>
     is_traced (qs_info qs) \<and> (is_aql (qs_info qs) \<longrightarrow> qs_ksym qs \<noteq> None) \<and>
     (is_sdma (qs_info qs) \<longrightarrow> IsSupportedVersion (q_sdma_version (qs_info qs)) \<and> sdma_ready qs)"

definition parser_ok :: "RingParser \<Rightarrow> bool" where
  "parser_ok rp \<longleftrightarrow>
     (\<forall>qs \<in> set (rp_queues rp). queue_ok qs) \<and>
     (case rp_todo rp of None \<Rightarrow> True | Some todo \<Rightarrow> \<forall>i \<in> set todo. i < length (rp_queues rp))"

lemma PollQueue_frame:
  assumes "PollQueue dm os c qs now = Some (c', qs', out)"
  shows "qs_info qs' = qs_info qs" and "qs_ksym qs \<noteq> None \<Longrightarrow> qs_ksym qs' \<noteq> None"
proof -
  obtain c1 ptrs where r: "read_pointers os c (qs_info qs) = (c1, ptrs)" by force
  have loop: "qs_info qs1 = qs_info qs \<and> (qs_ksym qs \<noteq> None \<longrightarrow> qs_ksym qs1 \<noteq> None)"
    if "decode_loop dm os now w rp k (skip_lapped cap w (qs\<lparr>qs_read_fail_count := 0\<rparr>)) = Some (qs1, o1)"
    for w rp k cap qs1 o1
    using decode_loop_frame(1,9) [OF that] by simp
  have "qs_info qs' = qs_info qs \<and> (qs_ksym qs \<noteq> None \<longrightarrow> qs_ksym qs' \<noteq> None)"
    using assms r loop
    by (auto simp: PollQueue_def poll_aql_def Let_def split: option.splits prod.splits if_splits)
  then show "qs_info qs' = qs_info qs" and "qs_ksym qs \<noteq> None \<Longrightarrow> qs_ksym qs' \<noteq> None" by auto
qed

lemma sdma_ready_failed: "sdma_ready qs \<Longrightarrow> sdma_ready (read_failed qs)"
  by (simp add: sdma_ready_def sdma_inv_read_failed)

lemma sdma_ready_reset: "sdma_ready (qs\<lparr>qs_read_fail_count := n\<rparr>) = sdma_ready qs"
  by (simp add: sdma_ready_def sdma_inv_cong)

lemma sdma_ready_primed:
  "sdma_ready qs \<Longrightarrow> \<not> qs_primed qs \<Longrightarrow> w \<le> kDwordLimit \<Longrightarrow>
     sdma_inv (qs\<lparr>qs_next_id := w, qs_last_rptr := r, qs_primed := True\<rparr>)"
  by (simp add: sdma_ready_def sdma_inv_def sdma_pending_seqs_def)

lemma PollSdmaQueue_ready:
  assumes "PollSdmaQueue os c qs now = (c', qs', out)" and ready: "sdma_ready qs"
  shows "sdma_ready qs'" and "qs_info qs' = qs_info qs"
proof -
  obtain c1 ptrs where r: "read_pointers os c (qs_info qs) = (c1, ptrs)" by force
  let ?qs0 = "qs\<lparr>qs_read_fail_count := 0\<rparr>"
  have ready0: "sdma_ready ?qs0" using ready by (simp add: sdma_ready_reset)
  have poll: "sdma_ready qs1 \<and> qs_info qs1 = qs_info qs"
    if "qs_primed qs" "poll_sdma os now (RingBytesToDwords w) (RingBytesToDwords rd) ?qs0 = (qs1, o1)"
    for w rd qs1 o1
  proof -
    have "sdma_inv ?qs0" using ready0 that(1) by (simp add: sdma_ready_def)
    note facts = poll_sdma_facts(1,2) [OF this RingBytesToDwords_le that(2)]
    then show ?thesis by (simp add: sdma_ready_def sdma_inv_def)
  qed
  have prime: "sdma_ready (?qs0\<lparr>qs_next_id := RingBytesToDwords w, qs_last_rptr := rd, qs_primed := True\<rparr>)"
    if "\<not> qs_primed qs" for w rd
    using sdma_ready_primed [OF ready0 _ RingBytesToDwords_le, of rd w] that by (simp add: sdma_ready_def)
  have "sdma_ready qs' \<and> qs_info qs' = qs_info qs"
  proof (cases ptrs)
    case None
    then show ?thesis
      using assms r sdma_ready_failed by (auto simp: PollSdmaQueue_def)
  next
    case (Some wr)
    then show ?thesis
      using assms r ready0 poll prime
      by (cases wr) (auto simp: PollSdmaQueue_def Let_def split: if_splits)
  qed
  then show "sdma_ready qs'" and "qs_info qs' = qs_info qs" by auto
qed

lemma queue_ok_evict: "queue_ok (qs\<lparr>qs_evict := b\<rparr>) = queue_ok qs"
  by (simp add: queue_ok_def sdma_ready_def sdma_inv_def sdma_tracked_def sdma_pending_seqs_def)

lemma poll_one_ok:
  assumes "poll_one dm os now c qs = Some (c', qs', evs)" and "queue_ok qs"
  shows "queue_ok qs'"
proof (cases "qs_evict qs \<or> \<not> ProcAlive (os 0) (q_pid (qs_info qs))")
  case True
  then have "qs' = qs \<or> qs' = qs\<lparr>qs_evict := True\<rparr>"
    using assms(1) by (auto simp: poll_one_def split: if_splits)
  then show ?thesis using assms(2) queue_ok_evict by auto
next
  case live: False
  show ?thesis
  proof (cases "is_sdma (qs_info qs)")
    case True
    then obtain out where "PollSdmaQueue os c qs now = (c', qs', out)"
      using live assms(1) by (auto simp: poll_one_def split: prod.splits)
    moreover have "\<not> is_aql (qs_info qs)" using True not_aql_and_sdma by blast
    ultimately show ?thesis
      using True assms(2) PollSdmaQueue_ready by (simp add: queue_ok_def)
  next
    case False
    then obtain out where "PollQueue dm os c qs now = Some (c', qs', out)"
      using live assms(1) by (auto simp: poll_one_def split: option.splits)
    then show ?thesis using False assms(2) PollQueue_frame by (simp add: queue_ok_def)
  qed
qed

lemma poll_one_no_fault: "queue_ok qs \<Longrightarrow> poll_one dm os now c qs \<noteq> None"
proof -
  assume ok: "queue_ok qs"
  have "is_sdma (qs_info qs) \<or> qs_ksym qs \<noteq> None"
    using ok by (auto simp: queue_ok_def is_traced_def)
  then show ?thesis
    using PollQueue_no_fault [of qs dm os c now]
    by (auto simp: poll_one_def split: option.splits prod.split)
qed

lemma AddQueue_ok: "parser_ok rp \<Longrightarrow> is_traced q \<Longrightarrow> parser_ok (AddQueue q rp)"
  by (auto simp: parser_ok_def AddQueue_def queue_ok_def sdma_ready_def new_QueueState_def
      page_cache_ok_def Let_def less_SucI split: option.splits)

lemma PollAt_ok:
  assumes ok: "parser_ok rp" and todo: "rp_todo rp = Some (i # rest)"
  shows "PollAt dm os i rest rp \<noteq> None"
    and "PollAt dm os i rest rp = Some rp' \<Longrightarrow> parser_ok rp'"
proof -
  have i: "i < length (rp_queues rp)" and rest: "\<forall>j \<in> set rest. j < length (rp_queues rp)"
    using ok todo by (auto simp: parser_ok_def)
  have qi: "queue_ok (rp_queues rp ! i)" using ok i by (auto simp: parser_ok_def)
  show "PollAt dm os i rest rp \<noteq> None"
    using poll_one_no_fault [OF qi, of dm os "rp_now rp" "rp_fd rp"] i by (auto simp: PollAt_def)
  assume "PollAt dm os i rest rp = Some rp'"
  then obtain c qs evs where one: "poll_one dm os (rp_now rp) (rp_fd rp) (rp_queues rp ! i) = Some (c, qs, evs)"
    and rp': "rp_queues rp' = (rp_queues rp)[i := qs]" "rp_todo rp' = Some rest"
    by (auto simp: PollAt_def split: if_splits option.splits)
  have "queue_ok qs" by (rule poll_one_ok [OF one qi])
  then show "parser_ok rp'"
    using ok rest rp' set_update_subset_insert [of "rp_queues rp" i qs] by (auto simp: parser_ok_def)
qed

lemma parser_step_ok: "parser_step dm rp rp' \<Longrightarrow> parser_ok rp \<Longrightarrow> parser_ok rp'"
proof (induction rule: parser_step.induct)
  case (step_add q rp)
  then show ?case by (intro AddQueue_ok)
next
  case (step_snapshot rp now)
  then show ?case by (auto simp: parser_ok_def TakeSnapshot_def)
next
  case (step_poll rp i rest os rp')
  then show ?case using PollAt_ok(2) by blast
next
  case (step_erase rp)
  then show ?case by (auto simp: parser_ok_def EraseEvicted_def)
qed

lemma reachable_ok: "parser_reachable dm rp \<Longrightarrow> parser_ok rp"
proof (induction rule: parser_reachable.induct)
  case (reach_start a b)
  then show ?case by (simp add: parser_ok_def new_RingParser_def)
next
  case (reach_step rp rp')
  then show ?case using parser_step_ok by blast
qed

section \<open>A whole round\<close>

text \<open>
  The rest of a round with no interleaved addition: every position still to do, each with the
  moments its poll sees, then the removal of the evicted queues.
\<close>

fun poll_round ::
    "(string \<Rightarrow> string option) \<Rightarrow> (nat \<Rightarrow> moments) \<Rightarrow> nat list \<Rightarrow> RingParser \<Rightarrow> RingParser option" where
  "poll_round dm env [] rp = Some (EraseEvicted rp)"
| "poll_round dm env (i # todo) rp =
     (case PollAt dm (env i) i todo rp of
        None \<Rightarrow> None
      | Some rp' \<Rightarrow> poll_round dm env todo rp')"

lemma PollAt_others:
  assumes "PollAt dm os i rest rp = Some rp'"
  shows "length (rp_queues rp') = length (rp_queues rp)"
    and "j \<noteq> i \<Longrightarrow> rp_queues rp' ! j = rp_queues rp ! j"
    and "rp_todo rp' = Some rest" and "rp_now rp' = rp_now rp"
  using assms by (auto simp: PollAt_def split: if_splits option.splits)

text \<open>A queue of a dead process leaves its poll marked for eviction.\<close>

lemma PollAt_dead:
  assumes "PollAt dm os i rest rp = Some rp'" and "\<not> ProcAlive (os 0) (q_pid (qs_info (rp_queues rp ! i)))"
  shows "qs_evict (rp_queues rp' ! i)"
  using assms by (auto simp: PollAt_def poll_one_def split: if_splits option.splits)

lemma poll_round_total:
  "parser_ok rp \<Longrightarrow> rp_todo rp = Some todo \<Longrightarrow> poll_round dm env todo rp \<noteq> None"
proof (induction todo arbitrary: rp)
  case (Cons i todo)
  obtain rp1 where p: "PollAt dm (env i) i todo rp = Some rp1"
    using PollAt_ok(1) [OF Cons.prems, of dm "env i"] by auto
  have "parser_ok rp1" using PollAt_ok(2) [OF Cons.prems p] .
  then show ?case using Cons.IH PollAt_others(3) [OF p] p by simp
qed simp

lemma poll_round_evicts:
  assumes "poll_round dm env todo rp = Some rp'" and "distinct todo"
    and "i < length (rp_queues rp)"
    and "qs_evict (rp_queues rp ! i) \<and> i \<notin> set todo \<or>
         i \<in> set todo \<and> \<not> ProcAlive (env i 0) (q_pid (qs_info (rp_queues rp ! i)))"
  shows "set (rp_queues rp') \<subseteq> {qs. \<not> qs_evict qs}"
    and "length (rp_queues rp') < length (rp_queues rp)"
proof -
  have "set (rp_queues rp') \<subseteq> {qs. \<not> qs_evict qs} \<and> length (rp_queues rp') < length (rp_queues rp)"
    using assms
  proof (induction todo arbitrary: rp)
    case Nil
    then have "rp_queues rp ! i \<in> set (rp_queues rp)" "qs_evict (rp_queues rp ! i)" by auto
    then have "length (filter (\<lambda>qs. \<not> qs_evict qs) (rp_queues rp)) < length (rp_queues rp)"
      by (intro length_filter_less [of "rp_queues rp ! i"]) auto
    with Nil show ?case by (auto simp: EraseEvicted_def)
  next
    case (Cons j todo)
    obtain rp1 where p: "PollAt dm (env j) j todo rp = Some rp1"
      and r: "poll_round dm env todo rp1 = Some rp'"
      using Cons.prems(1) by (auto split: option.splits)
    note oth = PollAt_others [OF p]
    have "qs_evict (rp_queues rp1 ! i) \<and> i \<notin> set todo \<or>
         i \<in> set todo \<and> \<not> ProcAlive (env i 0) (q_pid (qs_info (rp_queues rp1 ! i)))"
      using Cons.prems(2,4) oth(2) [of i] PollAt_dead [OF p] by (cases "i = j") auto
    then show ?case
      using Cons.IH [OF r] Cons.prems(2,3) oth(1) by auto
  qed
  then show "set (rp_queues rp') \<subseteq> {qs. \<not> qs_evict qs}"
    and "length (rp_queues rp') < length (rp_queues rp)" by simp_all
qed

end
