(* ===== verification/Parser_Properties.thy ===== *)
theory Parser_Properties
  imports Parser_Run
begin

text \<open>
  What the ring parser promises, stated over \<^verbatim>\<open>PollQueue\<close>, \<^verbatim>\<open>PollSdmaQueue\<close> and the rounds
  of \<^verbatim>\<open>Run\<close>, with a small concrete target on which each statement is also evaluated.
\<close>

section \<open>A concrete target\<close>

text \<open>
  Process 7 with an AQL queue of four slots at \<open>0x1000\<close>, write pointer at \<open>0x100\<close>, read
  pointer at \<open>0x108\<close>. \<open>demo_os w r p\<close> shows the pointers \<open>w\<close> and \<open>r\<close>, and the bytes \<open>p\<close> in
  every slot.
\<close>

definition demo_queue :: QueueInfo where
  "demo_queue = new_QueueInfo
     \<lparr>q_pid := 7, q_ring_base := 0x1000, q_wptr_addr := 0x100, q_rptr_addr := 0x108,
      q_ring_size := 256, q_qtype := 2, q_uid := 5\<rparr>"

definition demo_packet :: KernelDispatchPacket where
  "demo_packet =
     \<lparr> kd_header = 2, kd_setup = 1, kd_workgroup_size = (64, 1, 1), kd_reserved0 = 0,
       kd_grid_size = (1024, 1, 1), kd_private_segment_size = 0, kd_group_segment_size = 16,
       kd_kernel_object = 0x5000, kd_kernarg_address = 0x6000, kd_reserved2 = 0,
       kd_completion_signal = 9 \<rparr>"

definition demo_os :: "nat \<Rightarrow> nat \<Rightarrow> bytes \<Rightarrow> os_view" where
  "demo_os w r p =
     \<lparr> os_vm_readv = (\<lambda>pid va len.
         if va = 0x100 then Some (le_bytes 8 w)
         else if va = 0x108 then Some (le_bytes 8 r)
         else if va = 0x1000 \<or> va = 0x1040 \<or> va = 0x1080 \<or> va = 0x10C0 then Some p
         else None),
       os_open_mem = (\<lambda>pid. - 1), os_pread = (\<lambda>fd va len. None), os_pagemap = (\<lambda>pid. None),
       os_page_size = 4096, os_maps = (\<lambda>pid. []), os_alive = (\<lambda>pid. True) \<rparr>"

definition demo_dm :: "string \<Rightarrow> string option" where
  "demo_dm s = None"

definition demo_state :: QueueState where
  "demo_state = (new_QueueState demo_queue)
     \<lparr>qs_ksym := Some (new_KernelSymbolResolver 7), qs_next_id := 3, qs_primed := True\<rparr>"


lemma demo_pointers:
  assumes "w < 2 ^ 64" and "r < 2 ^ 64" and "q_pid q = 7" "q_wptr_addr q = 0x100" "q_rptr_addr q = 0x108"
  shows "read_pointers (\<lambda>k. demo_os w r p) c q = (c, Some (of_nat w, of_nat r))"
  using assms
  by (simp add: read_pointers_def ReadQueuePtr_def ReadU64_def ReadProcMem_def full_read_def demo_os_def
      load_le_bytes)


lemma demo_state_inv: "aql_state_inv (c, demo_state)"
  by (simp add: aql_state_inv_def aql_inv_def demo_state_def new_QueueState_def keys_below_def
      kPtrLimit_def push_bit_eq_mult word_le_nat_alt)

lemma demo_slots: "num_slots demo_queue = 4"
  by (simp add: num_slots_def demo_queue_def new_QueueInfo_def)

section \<open>AQL queues\<close>

lemma same_residue:
  fixes i j lo m :: nat
  assumes "i mod m = j mod m" and "i < lo + m" "j < lo + m" "lo \<le> i" "lo \<le> j"
  shows "i = j"
proof -
  have "m dvd j - i" and "m dvd i - j"
    using assms(1) by (metis mod_eq_dvd_iff_nat nat_le_linear diff_is_0_eq dvd_0_right)+
  moreover have "j - i < m" and "i - j < m" using assms by linarith+
  ultimately have "j - i = 0" and "i - j = 0" by (auto dest: nat_dvd_not_less)
  then show ?thesis by simp
qed

text \<open>
  C2: over any sequence of polls of a primed AQL queue whose write pointers stay in range, no
  dispatch identifier is handed to the sink twice, none is handed out while it is still in
  flight, and every identifier handed out was in flight at the start or was taken from the
  ring by these polls.
\<close>

theorem aql_each_dispatch_once:
  assumes "aql_state_inv s" and "poll_run_ok (aql_poll dm) aql_ok es s"
    and "poll_run (aql_poll dm) es s = (s', out)"
  shows "distinct (map p_dispatch_id out @ keys (qs_inflight (snd s'))) \<and>
    (\<forall>r \<in> set out. p_dispatch_id r \<in> set (keys (qs_inflight (snd s))) \<or>
       qs_next_id (snd s) \<le> p_dispatch_id r \<and> p_dispatch_id r < qs_next_id (snd s'))"
proof
  show "distinct (map p_dispatch_id out @ keys (qs_inflight (snd s')))"
    using aql.run_once(1) [OF assms] unfolding aql_ids_map distinct_unat .
  show "\<forall>r \<in> set out. p_dispatch_id r \<in> set (keys (qs_inflight (snd s))) \<or>
       qs_next_id (snd s) \<le> p_dispatch_id r \<and> p_dispatch_id r < qs_next_id (snd s')"
  proof
    fix r assume "r \<in> set out"
    then have "aql_ident r \<in> set (aql_pending s) \<union> {aql_frontier s..<aql_frontier s'}"
      using aql.run_once(2) [OF assms] by auto
    then show "p_dispatch_id r \<in> set (keys (qs_inflight (snd s))) \<or>
       qs_next_id (snd s) \<le> p_dispatch_id r \<and> p_dispatch_id r < qs_next_id (snd s')"
      by (auto simp: aql_ident_def aql_pending_def aql_frontier_def word_le_nat_alt
          word_less_nat_alt simp flip: word_unat_eq_iff)
  qed
qed

lemma demo_run_ok:
  "poll_run_ok (aql_poll demo_dm) aql_ok
     [(\<lambda>k. demo_os 5 4 (layout_dispatch demo_packet), 1), (\<lambda>k. demo_os 6 6 (layout_dispatch demo_packet), 2)]
     (new_fd_cache, demo_state)"
proof -
  let ?e1 = "(\<lambda>k. demo_os 5 4 (layout_dispatch demo_packet), 1) :: moments \<times> seconds"
  let ?e2 = "(\<lambda>k. demo_os 6 6 (layout_dispatch demo_packet), 2) :: moments \<times> seconds"
  have ok: "aql_ok (\<lambda>k. demo_os w w' p, now) (c, qs)" if "qs_info qs = demo_queue" "w < 2 ^ 20" "w' < 2 ^ 20"
    for c qs w w' p now
  proof -
    have "unat (of_nat w :: u64) = w" using that(2) by (intro unat_of_nat_small) simp
    moreover have "unat kPtrLimit = 2 ^ 63" by (simp add: kPtrLimit_def push_bit_eq_mult)
    moreover have "read_pointers (\<lambda>k. demo_os w w' p) c demo_queue = (c, Some (of_nat w, of_nat w'))"
      using that by (intro demo_pointers) (simp_all add: demo_queue_def new_QueueInfo_def)
    ultimately show ?thesis using that by (simp add: aql_ok_def word_le_nat_alt)
  qed
  have info: "qs_info demo_state = demo_queue" by (simp add: demo_state_def new_QueueState_def)
  have ok1: "aql_ok ?e1 (new_fd_cache, demo_state)" using info by (intro ok) simp_all
  obtain c1 qs1 o1 where p1: "aql_poll demo_dm ?e1 (new_fd_cache, demo_state) = ((c1, qs1), o1)"
    by (metis surj_pair)
  have "qs_info qs1 = demo_queue"
    using aql_poll_facts(2) [OF demo_state_inv [unfolded aql_state_inv_def snd_conv] ok1 p1] info by simp
  then have "aql_ok ?e2 (c1, qs1)" by (intro ok) simp_all
  with ok1 p1 show ?thesis by simp
qed

theorem aql_each_dispatch_once_witness:
  "distinct (map p_dispatch_id (snd (poll_run (aql_poll demo_dm)
     [(\<lambda>k. demo_os 5 4 (layout_dispatch demo_packet), 1), (\<lambda>k. demo_os 6 6 (layout_dispatch demo_packet), 2)]
     (new_fd_cache, demo_state))))"
proof -
  obtain s' out where r: "poll_run (aql_poll demo_dm)
     [(\<lambda>k. demo_os 5 4 (layout_dispatch demo_packet), 1), (\<lambda>k. demo_os 6 6 (layout_dispatch demo_packet), 2)]
     (new_fd_cache, demo_state) = (s', out)" by (metis surj_pair)
  show ?thesis
    using aql_each_dispatch_once [OF demo_state_inv demo_run_ok r] r by simp
qed

text \<open>
  C3: nothing disappears from an AQL queue silently. Over any sequence of polls the advance of
  the read position is the number of identifiers counted as dropped, plus the records handed to
  the sink, plus the change in the number in flight.
\<close>

theorem aql_every_dispatch_accounted:
  assumes "aql_state_inv s" and "poll_run_ok (aql_poll dm) aql_ok es s"
    and "poll_run (aql_poll dm) es s = (s', out)"
  shows "qs_next_id (snd s') - qs_next_id (snd s) =
    (qs_dropped (snd s') - qs_dropped (snd s)) + of_nat (length out) +
    (of_nat (length (qs_inflight (snd s'))) - of_nat (length (qs_inflight (snd s))))"
  using aql.run_account [OF assms] by (simp add: aql_account_def algebra_simps)

theorem aql_every_dispatch_accounted_witness:
  "\<exists>s' out. poll_run (aql_poll demo_dm)
     [(\<lambda>k. demo_os 5 4 (layout_dispatch demo_packet), 1), (\<lambda>k. demo_os 6 6 (layout_dispatch demo_packet), 2)]
     (new_fd_cache, demo_state) = (s', out) \<and>
     qs_next_id (snd s') - 3 = qs_dropped (snd s') + of_nat (length out)
       + of_nat (length (qs_inflight (snd s')))"
proof -
  obtain s' out where r: "poll_run (aql_poll demo_dm)
     [(\<lambda>k. demo_os 5 4 (layout_dispatch demo_packet), 1), (\<lambda>k. demo_os 6 6 (layout_dispatch demo_packet), 2)]
     (new_fd_cache, demo_state) = (s', out)" by (metis surj_pair)
  show ?thesis
    using aql_every_dispatch_accounted [OF demo_state_inv demo_run_ok r] r
    by (simp add: demo_state_def new_QueueState_def)
qed

text \<open>
  What one poll hands to the sink is exactly consumed: every record belongs to the queue, is
  below the read pointer of this poll and is stamped complete at this poll; and after the poll
  nothing below the read pointer is left in flight.
\<close>

theorem aql_reports_consumed:
  assumes "aql_inv qs" and "PollQueue dm os c qs now = Some (c', qs', out)"
    and "snd (read_pointers os c (qs_info qs)) = Some (wptr, rptr)" and "wptr \<le> kPtrLimit"
  shows "(\<forall>r \<in> set out. p_queue_uid r = q_uid (qs_info qs) \<and> p_dispatch_id r < rptr \<and>
            p_completed r \<and> p_complete_ts r = now \<and> p_type r \<noteq> Invalid) \<and>
         (\<forall>k \<in> set (keys (qs_inflight qs')). rptr \<le> k)"
proof -
  have poll: "poll_aql dm os now wptr rptr (qs\<lparr>qs_read_fail_count := 0\<rparr>) = Some (qs', out)"
    using assms(1-3) by (auto simp: PollQueue_def aql_inv_def Let_def split: prod.splits option.splits)
  have inv0: "aql_inv (qs\<lparr>qs_read_fail_count := 0\<rparr>)" using assms(1) by (simp add: aql_inv_cong)
  show ?thesis
    using poll_aql_emitted(1,2) [OF inv0 assms(4) poll] by (auto simp: emitted_by_def)
qed

theorem aql_reports_consumed_witness:
  "\<exists>c' qs' out. PollQueue demo_dm (\<lambda>k. demo_os 5 4 (layout_dispatch demo_packet)) new_fd_cache demo_state 1
       = Some (c', qs', out) \<and> filter (\<lambda>r. 4 \<le> p_dispatch_id r) out = []"
proof -
  have info: "qs_info demo_state = demo_queue" by (simp add: demo_state_def new_QueueState_def)
  have ptr: "snd (read_pointers (\<lambda>k. demo_os 5 4 (layout_dispatch demo_packet)) new_fd_cache (qs_info demo_state))
      = Some (5, 4)"
    unfolding info by (subst demo_pointers) (simp_all add: demo_queue_def new_QueueInfo_def)
  have inv: "aql_inv demo_state" using demo_state_inv by (simp add: aql_state_inv_def)
  have le: "(5 :: u64) \<le> kPtrLimit" by (simp add: kPtrLimit_def push_bit_eq_mult word_le_nat_alt)
  obtain c' qs' out where p: "PollQueue demo_dm (\<lambda>k. demo_os 5 4 (layout_dispatch demo_packet))
      new_fd_cache demo_state 1 = Some (c', qs', out)"
    using PollQueue_no_fault [of demo_state demo_dm "\<lambda>k. demo_os 5 4 (layout_dispatch demo_packet)"
        new_fd_cache 1] by (auto simp: demo_state_def)
  have "filter (\<lambda>r. 4 \<le> p_dispatch_id r) out = []"
    using aql_reports_consumed [OF inv p ptr le] by (auto simp: filter_empty_conv not_le)
  then show ?thesis using p by blast
qed

text \<open>
  C11: a published kernel-dispatch packet is decoded faithfully. When the slot of an identifier
  holds a packet whose header says kernel dispatch, the record carries the packet's grid,
  work-group, segment sizes, kernel object, kernarg address and completion signal unchanged,
  and the resolver's name for its kernel object.
\<close>

theorem aql_decode_published:
  assumes mem: "os_vm_readv os (q_pid (qs_info qs)) (slot_addr (qs_info qs) did) kPacketSize
      = Some (layout_dispatch p)"
    and slots: "num_slots (qs_info qs) \<noteq> 0" and type: "HeaderType (kd_header p) = KernelDispatch"
    and ks: "qs_ksym qs = Some ks" and res: "Resolve dm os ks (kd_kernel_object p) = (ks', name)"
  shows "DecodeSlot dm os qs did rptr = Some (qs\<lparr>qs_ksym := Some ks'\<rparr>,
    Some \<lparr>p_queue_uid = q_uid (qs_info qs), p_dispatch_id = did, p_type = KernelDispatch,
          p_barrier = HeaderBarrier (kd_header p), p_kernel_object = kd_kernel_object p,
          p_kernel_name = name, p_grid = kd_grid_size p, p_wg = kd_workgroup_size p,
          p_private_seg = kd_private_segment_size p, p_group_seg = kd_group_segment_size p,
          p_completion_signal = kd_completion_signal p, p_kernarg_address = kd_kernarg_address p,
          p_submit_ts = 0, p_complete_ts = 0, p_completed = False\<rparr>)"
proof -
  have read: "ReadProcMem os (q_pid (qs_info qs)) (slot_addr (qs_info qs) did) kPacketSize
      = Some (layout_dispatch p)"
    using mem by (simp add: ReadProcMem_def full_read_def length_layout_dispatch)
  have parsed: "parse_dispatch (layout_dispatch p) = p" by (rule parse_layout_dispatch)
  then have header: "of_nat (field_at 0 2 (layout_dispatch p)) = kd_header p"
    by (metis parse_dispatch_def KernelDispatchPacket.select_convs(1))
  show ?thesis
    using slots type ks res
    by (simp add: DecodeSlot_def Let_def read header parsed resolve_name_def dispatch_record_def
        new_PacketRecord_def)
qed

lemma demo_resolve:
  "Resolve demo_dm (demo_os w r p) (new_KernelSymbolResolver 7) 0x5000 =
     ((new_KernelSymbolResolver 7)\<lparr>ks_cache := [0x5000 \<mapsto> ''kernel_0x5000''], ks_scanned_generation := 1\<rparr>,
      ''kernel_0x5000'')"
proof -
  have "show_radix 16 0x5000 = ''5000''"
    by (simp add: show_radix.simps digit_char_def)
  then show ?thesis
    by (simp add: Resolve_def ScanCodeObjects_def FindElfBases_def new_KernelSymbolResolver_def demo_os_def
        hex_label_def show_hex_def Let_def)
qed

theorem aql_decode_published_witness:
  "map_option (\<lambda>r. (p_kernel_name (the (snd r)), p_grid (the (snd r))))
     (DecodeSlot demo_dm (demo_os 5 4 (layout_dispatch demo_packet)) demo_state 3 4)
   = Some (''kernel_0x5000'', (1024, 1, 1))"
proof -
  have info: "qs_info demo_state = demo_queue" "qs_ksym demo_state = Some (new_KernelSymbolResolver 7)"
    by (simp_all add: demo_state_def new_QueueState_def)
  have addr: "slot_addr demo_queue 3 = 0x10C0"
    by (simp add: slot_addr_def demo_slots kPacketSize_def) (simp add: demo_queue_def new_QueueInfo_def)
  have ko: "kd_kernel_object demo_packet = 0x5000" by (simp add: demo_packet_def)
  have "HeaderType (kd_header demo_packet) = KernelDispatch"
    by (simp add: HeaderType_low_byte demo_packet_def packet_type_of_def)
  note d = aql_decode_published [of "demo_os 5 4 (layout_dispatch demo_packet)" demo_state 3 demo_packet
      "new_KernelSymbolResolver 7" demo_dm _ _ 4, unfolded info ko addr, OF _ _ this refl demo_resolve]
  show ?thesis
    using d by (simp add: demo_os_def demo_slots demo_packet_def)
qed

text \<open>
  C18: the lap guard works. After it, the identifiers still to be read occupy pairwise
  different slots of the ring, so no poll decodes one slot under two identifiers, and what it
  skips is added to the dropped counter.
\<close>

theorem aql_one_lap_at_most:
  assumes lim: "qs_next_id qs \<le> kPtrLimit" and slots: "num_slots (qs_info qs) \<noteq> 0"
    and qs': "qs' = skip_lapped (ucast (num_slots (qs_info qs))) wptr qs"
    and i: "qs_next_id qs' \<le> i" "i < wptr" and j: "qs_next_id qs' \<le> j" "j < wptr"
    and same: "slot_addr (qs_info qs) i = slot_addr (qs_info qs) j"
  shows "i = j \<and> qs_next_id qs' - qs_next_id qs = qs_dropped qs' - qs_dropped qs"
proof
  let ?S = "ucast (num_slots (qs_info qs)) :: u64"
  note skip = skip_lapped_bounds [OF num_slots_small [OF lim, of "qs_info qs"], of wptr, folded qs']
  show "qs_next_id qs' - qs_next_id qs = qs_dropped qs' - qs_dropped qs" by (rule skip(4))
  have S: "unat ?S < 2 ^ 32" "0 < unat ?S"
    using unat_bound [of "num_slots (qs_info qs)"] slots by (simp_all add: unat_gt_0)
  have scaled: "unat (x mod ?S * of_nat kPacketSize) = unat (x mod ?S) * 64" for x
  proof -
    have "unat (x mod ?S) < unat ?S" using S(2) by (simp add: unat_mod)
    then show ?thesis using S(1) by (simp add: unat_word_ariths kPacketSize_def)
  qed
  have "unat (i mod ?S) * 64 = unat (j mod ?S) * 64"
    using same scaled [of i] scaled [of j] by (simp add: slot_addr_def)
  then have m: "unat i mod unat ?S = unat j mod unat ?S" by (simp add: unat_mod)
  have "unat i < unat (qs_next_id qs') + unat ?S" "unat j < unat (qs_next_id qs') + unat ?S"
    "unat (qs_next_id qs') \<le> unat i" "unat (qs_next_id qs') \<le> unat j"
    using i j skip(3) by (simp_all add: word_le_nat_alt word_less_nat_alt)
  then have "unat i = unat j" by (rule same_residue [OF m])
  then show "i = j" by (simp add: word_unat_eq_iff)
qed

theorem aql_one_lap_at_most_witness:
  "qs_dropped (skip_lapped 4 100 demo_state) = 93 \<and> qs_next_id (skip_lapped 4 100 demo_state) = 96"
proof -
  have info: "qs_info demo_state = demo_queue" by (simp add: demo_state_def new_QueueState_def)
  have lim: "qs_next_id demo_state \<le> kPtrLimit"
    using demo_state_inv by (simp add: aql_state_inv_def aql_inv_def)
  have n: "qs_next_id (skip_lapped 4 100 demo_state) = 96"
    by (simp add: skip_lapped_def demo_state_def new_QueueState_def)
  have "(97 :: u64) = 97 \<and> qs_next_id (skip_lapped 4 100 demo_state) - qs_next_id demo_state
      = qs_dropped (skip_lapped 4 100 demo_state) - qs_dropped demo_state"
    by (rule aql_one_lap_at_most [OF lim, where wptr = 100]) (simp_all add: info demo_slots n word_less_nat_alt)
  with n show ?thesis by (simp add: demo_state_def new_QueueState_def)
qed

text \<open>
  C20: only new activity is reported. The first successful poll of a queue records its write
  pointer and reports nothing, and every identifier any later poll reports is at or above the
  write pointer seen then.
\<close>

theorem aql_only_new_activity:
  assumes ksym: "qs_ksym qs \<noteq> None" and fresh: "qs_inflight qs = []" "\<not> qs_primed qs"
    and ptrs: "snd (read_pointers os c (qs_info qs)) = Some (wptr, rptr)" "wptr \<le> kPtrLimit"
    and prime: "aql_poll dm (os, now) (c, qs) = (s1, out1)"
    and run: "poll_run_ok (aql_poll dm) aql_ok es s1" "poll_run (aql_poll dm) es s1 = (s', out)"
  shows "out1 = [] \<and> (\<forall>r \<in> set out. wptr \<le> p_dispatch_id r)"
proof -
  obtain c' where "read_pointers os c (qs_info qs) = (c', Some (wptr, rptr))"
    using ptrs(1) by (cases "read_pointers os c (qs_info qs)") auto
  then have s1: "s1 = (c', qs\<lparr>qs_read_fail_count := 0, qs_next_id := wptr, qs_last_rptr := rptr,
      qs_primed := True\<rparr>)" and out1: "out1 = []"
    using prime fresh(2) by (auto simp: aql_poll_def PollQueue_def Let_def)
  have inv: "aql_state_inv s1"
    using ksym fresh(1) ptrs(2) by (simp add: s1 aql_state_inv_def aql_inv_def keys_below_def)
  have "set (map aql_ident out) \<subseteq> set (aql_pending s1) \<union> {aql_frontier s1..<aql_frontier s'}"
    using aql.run_once(2) [OF inv run] by blast
  moreover have "aql_pending s1 = []" using fresh(1) by (simp add: s1 aql_pending_def)
  moreover have "aql_frontier s1 = unat wptr" by (simp add: s1 aql_frontier_def)
  ultimately have "unat wptr \<le> aql_ident r" if "r \<in> set out" for r
    using that by auto
  then show ?thesis using out1 by (simp add: aql_ident_def word_le_nat_alt)
qed

theorem aql_only_new_activity_witness:
  "snd (aql_poll demo_dm (\<lambda>k. demo_os 5 4 (layout_dispatch demo_packet), 1)
     (new_fd_cache, demo_state\<lparr>qs_primed := False\<rparr>)) = []"
proof -
  let ?qs = "demo_state\<lparr>qs_primed := False\<rparr>"
  obtain s1 out1 where p: "aql_poll demo_dm (\<lambda>k. demo_os 5 4 (layout_dispatch demo_packet), 1)
      (new_fd_cache, ?qs) = (s1, out1)" by (metis surj_pair)
  have info: "qs_info ?qs = demo_queue" by (simp add: demo_state_def new_QueueState_def)
  have ptr: "snd (read_pointers (\<lambda>k. demo_os 5 4 (layout_dispatch demo_packet)) new_fd_cache (qs_info ?qs))
      = Some (5, 4)"
    unfolding info by (subst demo_pointers) (simp_all add: demo_queue_def new_QueueInfo_def)
  have le: "(5 :: u64) \<le> kPtrLimit" by (simp add: kPtrLimit_def push_bit_eq_mult word_le_nat_alt)
  have "out1 = [] \<and> (\<forall>r \<in> set ([] :: PacketRecord list). 5 \<le> p_dispatch_id r)"
    by (rule aql_only_new_activity [OF _ _ _ ptr le p, where es = "[]" and s' = s1])
      (simp_all add: demo_state_def new_QueueState_def)
  then show ?thesis using p by simp
qed




lemma decode_loop_reaches:
  assumes "decode_loop dm os now wptr rptr k qs = Some (qs', out)" and "qs_next_id qs \<le> wptr"
    and "wptr \<le> rptr"
  shows "qs_next_id qs' = wptr"
  using assms
proof (induction dm os now wptr rptr k qs arbitrary: out rule: decode_loop.induct)
  case (1 dm os now wptr rptr k qs)
  show ?case
  proof (cases "qs_next_id qs < wptr \<and> (\<exists>qs1 out1. decode_step dm (os k) now rptr qs = Advance qs1 out1)")
    case False
    then have stop: "qs' = qs \<and> wptr \<le> qs_next_id qs \<or> decode_step dm (os k) now rptr qs = Pending qs'"
      using decode_loop_stop "1.prems"(1) by blast
    then show ?thesis
      using "1.prems"(2,3) decode_step_pending [of dm "os k" now rptr qs qs'] by fastforce
  next
    case True
    then obtain qs1 out1 where lt: "qs_next_id qs < wptr"
      and d: "decode_step dm (os k) now rptr qs = Advance qs1 out1" by blast
    obtain out2 where rest: "decode_loop dm os now wptr rptr (Suc k) qs1 = Some (qs', out2)"
      using decode_loop_unfold [of qs wptr dm os k now rptr, OF lt d "1.prems"(1)] by blast
    have "qs_next_id qs1 \<le> wptr"
      using decode_step_next [OF d] next_less(2) [OF lt] by simp
    then show ?thesis using "1.IH" [OF lt d rest] "1.prems"(3) by blast
  qed
qed

text \<open>
  C19: an idle queue is drained. When the target has consumed everything it wrote, one poll
  brings the read position to the write pointer and leaves nothing in flight.
\<close>

theorem aql_idle_queue_drained:
  assumes inv: "aql_inv qs" and poll: "PollQueue dm os c qs now = Some (c', qs', out)"
    and ptrs: "snd (read_pointers os c (qs_info qs)) = Some (wptr, rptr)" "wptr \<le> kPtrLimit"
    and idle: "qs_next_id qs \<le> wptr" "wptr \<le> rptr"
  shows "qs_next_id qs' = wptr \<and> qs_inflight qs' = []"
proof -
  let ?qs0 = "qs\<lparr>qs_read_fail_count := 0\<rparr>"
  have inv0: "aql_inv ?qs0" using inv by (simp add: aql_inv_cong)
  have p: "poll_aql dm os now wptr rptr ?qs0 = Some (qs', out)"
    using inv poll ptrs(1) by (auto simp: PollQueue_def aql_inv_def Let_def split: prod.splits option.splits)
  obtain qs1 out1 where loop: "decode_loop dm os now wptr rptr 2
      (skip_lapped (ucast (num_slots (qs_info ?qs0))) wptr ?qs0) = Some (qs1, out1)"
    and n: "qs_next_id qs' = qs_next_id qs1"
    by (rule poll_aql_parts [OF p]) simp
  have "qs_next_id ?qs0 \<le> kPtrLimit" using inv0 by (simp add: aql_inv_def)
  note skip = skip_lapped_bounds(2) [OF num_slots_small [OF this, of "qs_info qs"], of wptr]
  have "qs_next_id (skip_lapped (ucast (num_slots (qs_info qs))) wptr ?qs0) \<le> wptr"
    using skip idle(1) by auto
  then have nx: "qs_next_id qs' = wptr" using decode_loop_reaches [OF loop] idle(2) n by simp
  have "k < rptr" if "k \<in> set (keys (qs_inflight qs'))" for k
    using poll_aql_emitted(3) [OF inv0 ptrs(2) p] that nx idle(2)
    by (auto simp: aql_inv_def keys_below_def)
  moreover have "rptr \<le> k" if "k \<in> set (keys (qs_inflight qs'))" for k
    using poll_aql_emitted(2) [OF inv0 ptrs(2) p] that by blast
  ultimately have "keys (qs_inflight qs') = []" by (metis last_in_set not_le)
  then show ?thesis using nx by (simp add: keys_def)
qed

theorem aql_idle_queue_drained_witness:
  "map_option (\<lambda>r. qs_next_id (fst (snd r)))
     (PollQueue demo_dm (\<lambda>k. demo_os 5 5 (layout_dispatch demo_packet)) new_fd_cache demo_state 1) = Some 5"
proof -
  have info: "qs_info demo_state = demo_queue" by (simp add: demo_state_def new_QueueState_def)
  have ptr: "snd (read_pointers (\<lambda>k. demo_os 5 5 (layout_dispatch demo_packet)) new_fd_cache (qs_info demo_state))
      = Some (5, 5)"
    unfolding info by (subst demo_pointers) (simp_all add: demo_queue_def new_QueueInfo_def)
  have inv: "aql_inv demo_state" using demo_state_inv by (simp add: aql_state_inv_def)
  have le: "(5 :: u64) \<le> kPtrLimit" by (simp add: kPtrLimit_def push_bit_eq_mult word_le_nat_alt)
  obtain c' qs' out where p: "PollQueue demo_dm (\<lambda>k. demo_os 5 5 (layout_dispatch demo_packet))
      new_fd_cache demo_state 1 = Some (c', qs', out)"
    using PollQueue_no_fault [of demo_state demo_dm "\<lambda>k. demo_os 5 5 (layout_dispatch demo_packet)"
        new_fd_cache 1] by (auto simp: demo_state_def)
  have "qs_next_id demo_state \<le> 5" by (simp add: demo_state_def)
  then show ?thesis using aql_idle_queue_drained [OF inv p ptr le] p by simp
qed

text \<open>
  The fast-reset path takes a consumed barrier for a kernel dispatch. A barrier packet whose
  header the GPU has reset and whose fourth dependency signal is set is reported as a kernel
  dispatch with that signal handle as its kernel object.
\<close>

theorem fast_reset_takes_barrier_for_dispatch:
  assumes mem: "os_vm_readv os (q_pid (qs_info qs)) (slot_addr (qs_info qs) did) kPacketSize
      = Some (layout_barrier b)"
    and slots: "num_slots (qs_info qs) \<noteq> 0" and reset: "HeaderType (bp_header b) = Invalid"
    and dep: "bp_dep_signal b = (d0, d1, d2, d3, d4)" "d3 \<noteq> 0"
    and consumed: "did < rptr" and ks: "qs_ksym qs \<noteq> None"
  shows "\<exists>qs' r. DecodeSlot dm os qs did rptr = Some (qs', Some r) \<and>
    p_type r = KernelDispatch \<and> p_kernel_object r = d3"
proof -
  have read: "ReadProcMem os (q_pid (qs_info qs)) (slot_addr (qs_info qs) did) kPacketSize
      = Some (layout_barrier b)"
    using mem by (simp add: ReadProcMem_def full_read_def length_layout_barrier)
  have fields: "kd_kernel_object (parse_dispatch (layout_barrier b)) = d3"
    "kd_header (parse_dispatch (layout_barrier b)) = bp_header b"
    using parse_dispatch_of_barrier [OF dep(1)] by simp_all
  have header: "of_nat (field_at 0 2 (layout_barrier b)) = bp_header b"
    using fields(2) by (metis parse_dispatch_def KernelDispatchPacket.select_convs(1))
  obtain qs' name where "resolve_name dm os qs d3 = Some (qs', name)"
    using resolve_name_total [OF ks, of dm os d3] by auto
  then show ?thesis
    using slots reset dep(2) consumed
    by (simp add: DecodeSlot_def Let_def read header fields dispatch_record_def)
qed

theorem fast_reset_takes_barrier_for_dispatch_witness:
  "\<exists>qs' r. DecodeSlot demo_dm (demo_os 5 5 (layout_barrier
       \<lparr>bp_header = 1, bp_reserved0 = 0, bp_reserved1 = 0, bp_dep_signal = (1, 2, 3, 4, 0),
        bp_reserved2 = 0, bp_completion_signal = 0\<rparr>)) demo_state 3 5 = Some (qs', Some r) \<and>
     p_type r = KernelDispatch \<and> p_kernel_object r = 4"
proof (rule fast_reset_takes_barrier_for_dispatch)
  have info: "qs_info demo_state = demo_queue" by (simp add: demo_state_def new_QueueState_def)
  have addr: "slot_addr demo_queue 3 = 0x10C0"
    by (simp add: slot_addr_def demo_slots kPacketSize_def) (simp add: demo_queue_def new_QueueInfo_def)
  show "os_vm_readv (demo_os 5 5 (layout_barrier
       \<lparr>bp_header = 1, bp_reserved0 = 0, bp_reserved1 = 0, bp_dep_signal = (1, 2, 3, 4, 0),
        bp_reserved2 = 0, bp_completion_signal = 0\<rparr>)) (q_pid (qs_info demo_state))
      (slot_addr (qs_info demo_state) 3) kPacketSize = Some (layout_barrier
       \<lparr>bp_header = 1, bp_reserved0 = 0, bp_reserved1 = 0, bp_dep_signal = (1, 2, 3, 4, 0),
        bp_reserved2 = 0, bp_completion_signal = 0\<rparr>)"
    by (simp add: info addr demo_os_def)
  show "num_slots (qs_info demo_state) \<noteq> 0" by (simp add: info demo_slots)
qed (simp_all add: HeaderType_low_byte packet_type_of_def demo_state_def)

section \<open>The parser thread\<close>

text \<open>
  C8: the parser thread never follows a dangling or null pointer. In every state reached by any
  interleaving of queue additions and polling rounds, the next queue of the snapshot is still in
  the list and its poll has a defined outcome, whatever the target's memory holds.
\<close>

theorem parser_never_faults:
  assumes "parser_reachable dm rp" and "rp_todo rp = Some (i # rest)"
  shows "PollAt dm os i rest rp \<noteq> None"
  using PollAt_ok(1) [OF reachable_ok [OF assms(1)] assms(2)] .

lemma demo_reachable:
  "parser_reachable demo_dm (TakeSnapshot 1 (AddQueue demo_queue (new_RingParser True True)))"
proof -
  have "parser_reachable demo_dm (AddQueue demo_queue (new_RingParser True True))"
    by (rule reach_step [OF reach_start step_add])
      (simp add: is_traced_def is_aql_def demo_queue_def)
  then show ?thesis
    by (rule reach_step [OF _ step_snapshot])
      (simp add: AddQueue_def new_RingParser_def Let_def)
qed

lemma demo_snapshot:
  "rp_todo (TakeSnapshot 1 (AddQueue demo_queue (new_RingParser True True))) = Some [0]"
  by (simp add: TakeSnapshot_def AddQueue_def new_RingParser_def Let_def is_sdma_def is_aql_def
      demo_queue_def)

theorem parser_never_faults_witness:
  "PollAt demo_dm (\<lambda>k. demo_os 5 4 (layout_dispatch demo_packet)) 0 []
     (TakeSnapshot 1 (AddQueue demo_queue (new_RingParser True True))) \<noteq> None"
  using parser_never_faults [OF demo_reachable demo_snapshot] .



section \<open>SDMA queues\<close>

text \<open>
  C7: over any sequence of polls of a primed SDMA queue, whatever the target's memory holds, the
  records handed to the sink carry consecutive sequence numbers in order: those handed out
  followed by those in flight are those that were in flight followed by the new ones.
\<close>

theorem sdma_packets_in_sequence:
  assumes "sdma_state_inv s" and "poll_run sdma_poll es s = (s', out)"
  shows "map (unat \<circ> s_seq) out @ sdma_pending_seqs (snd s') =
    sdma_pending_seqs (snd s) @ [unat (qs_sdma_seq (snd s))..<unat (qs_sdma_seq (snd s'))]"
proof -
  have "poll_run_ok sdma_poll sdma_ok es s" for es s
    by (induction es arbitrary: s) (simp_all add: sdma_ok_def)
  from sdma.fifo_run [OF assms(1) this assms(2)] show ?thesis
    by (simp add: sdma_pending_def sdma_frontier_def sdma_ident_def [abs_def] comp_def)
qed

definition demo_sdma_queue :: QueueInfo where
  "demo_sdma_queue = demo_queue\<lparr>q_qtype := 1, q_sdma_version := V4\<rparr>"

definition demo_sdma_state :: QueueState where
  "demo_sdma_state = (new_QueueState demo_sdma_queue)\<lparr>qs_primed := True\<rparr>"

lemma demo_sdma_inv: "sdma_inv demo_sdma_state"
  by (simp add: sdma_inv_def demo_sdma_state_def new_QueueState_def page_cache_ok_def
      sdma_pending_seqs_def)

theorem sdma_packets_in_sequence_witness:
  "\<exists>n. map (unat \<circ> s_seq) (snd (poll_run sdma_poll [(\<lambda>k. demo_os 8 8 (replicate 64 0), 1)]
      (new_fd_cache, demo_sdma_state))) @ sdma_pending_seqs (snd (fst (poll_run sdma_poll
        [(\<lambda>k. demo_os 8 8 (replicate 64 0), 1)] (new_fd_cache, demo_sdma_state)))) = [0..<n]"
proof -
  obtain s' out where r: "poll_run sdma_poll [(\<lambda>k. demo_os 8 8 (replicate 64 0), 1)]
      (new_fd_cache, demo_sdma_state) = (s', out)" by (metis surj_pair)
  have inv: "sdma_state_inv (new_fd_cache, demo_sdma_state)"
    using demo_sdma_inv by (simp add: sdma_state_inv_def)
  show ?thesis
    unfolding r using sdma_packets_in_sequence [OF inv r]
    by (auto simp: demo_sdma_state_def new_QueueState_def sdma_pending_seqs_def)
qed

text \<open>
  C4: packets written one after the other are decoded one after the other. When the dwords
  between the read position and the write pointer are a sequence of packets, each of the length
  its own header says, one run of the loop puts exactly one record per packet in flight, at the
  packet's last dword, with the opcode, name and, for linear copies, the size and addresses the
  packet holds, across the end of the ring as well; nothing is dropped.
\<close>

theorem sdma_stream_decoded:
  assumes "sdma_inv qs" and "wptr \<le> kDwordLimit" and "qs_next_id qs \<le> wptr"
    and "unat wptr - unat (qs_next_id qs) \<le> length ring"
    and "\<And>j. ring_memory (os j) (qs_info qs) ring"
    and "published ring wptr qs = concat ps"
    and "\<forall>p \<in> set ps. framed (PacketLenDwords (q_sdma_version (qs_info qs))) p"
  shows "\<exists>new. qs_sdma_inflight (sdma_loop os now wptr k qs) = qs_sdma_inflight qs @ new \<and>
      list_all2 (frame_record (qs_info qs)) ps (map snd new) \<and>
      map (unat \<circ> fst) new = end_dwords (unat (qs_next_id qs)) ps \<and>
      qs_next_id (sdma_loop os now wptr k qs) = wptr \<and>
      qs_dropped (sdma_loop os now wptr k qs) = qs_dropped qs"
proof -
  have "frame_walk (PacketLenDwords (q_sdma_version (qs_info qs))) (published ring wptr qs) = (ps, Caught_up)"
    unfolding assms(6) by (rule sdma_len.frame_walk_framed [OF assms(7)])
  from sdma_loop_walks [OF assms(1-5) this, where now = now and k = k]
  have w: "walked qs ps Caught_up wptr (sdma_loop os now wptr k qs)" .
  have "length (concat ps) = unat wptr - unat (qs_next_id qs)"
    using assms(6) by (metis length_ring_slice published_def)
  then have "qs_next_id qs + of_nat (length (concat ps)) = wptr"
    using assms(3) by (simp add: of_nat_diff word_le_nat_alt)
  then show ?thesis using w by (auto simp: walked_def)
qed

text \<open>A ring that holds a fence, a linear copy of 256 bytes and a trap.\<close>

definition demo_packets :: "u32 list list" where
  "demo_packets = [[5, 0, 0, 0], [1, 255, 0, 0x1000, 0, 0x2000, 0], [6, 0]]"

definition demo_ring :: "u32 list" where
  "demo_ring = concat demo_packets @ replicate 51 0"

definition ring_os :: "u32 list \<Rightarrow> os_view" where
  "ring_os ring = (demo_os 0 0 [])
     \<lparr>os_vm_readv := (\<lambda>pid va len.
        Some (take len (drop (unat (va - 0x1000)) (concat (map bytes_of_dword ring)))))\<rparr>"

lemma take_dwords: "take (4 * n) (concat (map bytes_of_dword ws)) = concat (map bytes_of_dword (take n ws))"
proof (induction n arbitrary: ws)
  case (Suc n)
  then show ?case by (cases ws) (simp_all add: bytes_of_dword_def)
qed simp

lemma drop_dwords: "drop (4 * n) (concat (map bytes_of_dword ws)) = concat (map bytes_of_dword (drop n ws))"
proof (induction n arbitrary: ws)
  case (Suc n)
  then show ?case by (cases ws) (simp_all add: bytes_of_dword_def)
qed simp

lemma demo_ring_memory: "ring_memory (ring_os demo_ring) demo_sdma_queue demo_ring"
proof -
  have len: "length demo_ring = 64" by (simp add: demo_ring_def demo_packets_def)
  have q: "num_dwords demo_sdma_queue = 64" "q_ring_base demo_sdma_queue = 0x1000"
    by (simp_all add: num_dwords_def demo_sdma_queue_def demo_queue_def new_QueueInfo_def)
  have "unat (of_nat off * 4 :: u64) = 4 * off" if "off \<le> 64" for off :: nat
  proof -
    have "unat (of_nat off :: u64) = off" using that by (intro unat_of_nat_small) simp
    then show ?thesis using unat_times_4 [of "of_nat off"] that by simp
  qed
  then show ?thesis
    unfolding ring_memory_def len q
    by (auto simp: ring_os_def drop_dwords take_dwords)
qed

lemma demo_lengths:
  "PacketLenDwords V4 [5, 0, 0, 0] 4 = 4"
  "PacketLenDwords V4 [1, 255, 0, 0x1000, 0, 0x2000, 0] 7 = 7"
  "PacketLenDwords V4 [6, 0] 2 = 2"
proof -
  have ops: "HeaderOp 5 = 5" "HeaderSubOp 5 = 0" "HeaderOp 1 = 1" "HeaderSubOp 1 = 0"
    "HeaderOp 6 = 6" "HeaderSubOp 6 = 0" "HeaderBroadcast 1 = False"
    by (simp_all add: HeaderOp_def HeaderSubOp_def HeaderBroadcast_def push_bit_eq_mult)
  show "PacketLenDwords V4 [5, 0, 0, 0] 4 = 4"
    "PacketLenDwords V4 [1, 255, 0, 0x1000, 0, 0x2000, 0] 7 = 7" "PacketLenDwords V4 [6, 0] 2 = 2"
    by (simp_all add: PacketLenDwords_def IsSupportedVersion_def CopyPacketLenV4_def ops Let_def
        word_less_nat_alt)
qed

lemma demo_framed: "p \<in> set demo_packets \<Longrightarrow> framed (PacketLenDwords V4) p"
  using demo_lengths by (auto simp: demo_packets_def framed_def window_def)

theorem sdma_stream_decoded_witness:
  "qs_next_id (sdma_loop (\<lambda>k. ring_os demo_ring) 1 13 2 demo_sdma_state) = 13 \<and>
   length (qs_sdma_inflight (sdma_loop (\<lambda>k. ring_os demo_ring) 1 13 2 demo_sdma_state)) = 3"
proof -
  have st: "qs_info demo_sdma_state = demo_sdma_queue" "qs_next_id demo_sdma_state = 0"
    "qs_sdma_inflight demo_sdma_state = []" and v: "q_sdma_version demo_sdma_queue = V4"
    by (simp_all add: demo_sdma_state_def new_QueueState_def demo_sdma_queue_def)
  have pub: "published demo_ring 13 demo_sdma_state = concat demo_packets"
    by (simp add: published_def st ring_slice_def demo_ring_def demo_packets_def upt_rec)
  have le: "(13 :: u64) \<le> kDwordLimit" by (simp add: kDwordLimit_def push_bit_eq_mult word_le_nat_alt)
  have "\<exists>new. qs_sdma_inflight (sdma_loop (\<lambda>k. ring_os demo_ring) 1 13 2 demo_sdma_state)
        = qs_sdma_inflight demo_sdma_state @ new \<and>
      list_all2 (frame_record (qs_info demo_sdma_state)) demo_packets (map snd new) \<and>
      map (unat \<circ> fst) new = end_dwords (unat (qs_next_id demo_sdma_state)) demo_packets \<and>
      qs_next_id (sdma_loop (\<lambda>k. ring_os demo_ring) 1 13 2 demo_sdma_state) = 13 \<and>
      qs_dropped (sdma_loop (\<lambda>k. ring_os demo_ring) 1 13 2 demo_sdma_state) = qs_dropped demo_sdma_state"
    by (rule sdma_stream_decoded [where ring = demo_ring])
      (use demo_sdma_inv le demo_ring_memory demo_framed pub in \<open>auto simp: st v demo_ring_def demo_packets_def\<close>)
  then show ?thesis by (auto simp: st demo_packets_def dest: list_all2_lengthD)
qed

text \<open>
  C36: reading dwords of the ring is reading a circular list: any window no longer than the ring
  comes back in order from any position, across the ring's end.
\<close>

theorem sdma_ring_read_wraps:
  assumes "ring_memory os q ring" and "ring \<noteq> []" and "unat n \<le> length ring"
  shows "ReadRingDwords os q start n =
    Some (map (\<lambda>i. ring ! ((unat start + i) mod length ring)) [0..<unat n])"
  using ReadRingDwords_slice [OF assms(1) _ assms(3)] assms(2) by (simp add: ring_slice_def)

theorem sdma_ring_read_wraps_witness:
  "ReadRingDwords (ring_os demo_ring) demo_sdma_queue 62 4 = Some [0, 0, 5, 0]"
proof -
  have "length demo_ring = 64" by (simp add: demo_ring_def demo_packets_def)
  moreover have "demo_ring \<noteq> []" by (simp add: demo_ring_def demo_packets_def)
  ultimately show ?thesis
    using sdma_ring_read_wraps [OF demo_ring_memory, of 4 62]
    by (simp add: demo_ring_def demo_packets_def upt_rec)
qed

text \<open>
  One poll of an SDMA queue retires exactly what the engine has passed: each record it hands
  out is stamped complete at this poll, and every packet left in flight ends beyond the read
  pointer.
\<close>

theorem sdma_reports_consumed:
  assumes "sdma_inv qs" and "PollSdmaQueue os c qs now = (c', qs', out)"
    and "snd (read_pointers os c (qs_info qs)) = Some (w, r)" and "num_dwords (qs_info qs) \<noteq> 0"
  shows "(\<forall>s \<in> set out. s_completed s \<and> s_complete_ts s = now \<and> s_queue_uid s = q_uid (qs_info qs)) \<and>
    (\<forall>k \<in> set (keys (qs_sdma_inflight qs')). r div 4 < k)"
proof -
  have inv0: "sdma_inv (qs\<lparr>qs_read_fail_count := 0\<rparr>)" using assms(1) by (simp add: sdma_inv_cong)
  have p: "poll_sdma os now (RingBytesToDwords w) (RingBytesToDwords r) (qs\<lparr>qs_read_fail_count := 0\<rparr>) = (qs', out)"
    using assms by (auto simp: PollSdmaQueue_def sdma_inv_def Let_def split: prod.splits)
  show ?thesis
    using poll_sdma_facts(6,7) [OF inv0 RingBytesToDwords_le p] by (simp add: RingBytesToDwords_def)
qed

theorem sdma_reports_consumed_witness:
  "filter (\<lambda>k. k \<le> 2) (keys (qs_sdma_inflight (fst (snd
     (PollSdmaQueue (\<lambda>k. demo_os 8 8 (replicate 64 0)) new_fd_cache demo_sdma_state 1))))) = []"
proof -
  obtain c' qs' out where p: "PollSdmaQueue (\<lambda>k. demo_os 8 8 (replicate 64 0)) new_fd_cache demo_sdma_state 1
      = (c', qs', out)" by (metis surj_pair)
  have info: "qs_info demo_sdma_state = demo_sdma_queue" by (simp add: demo_sdma_state_def new_QueueState_def)
  have ptr: "snd (read_pointers (\<lambda>k. demo_os 8 8 (replicate 64 0)) new_fd_cache (qs_info demo_sdma_state))
      = Some (8, 8)"
    unfolding info by (subst demo_pointers) (simp_all add: demo_sdma_queue_def demo_queue_def new_QueueInfo_def)
  have "num_dwords (qs_info demo_sdma_state) \<noteq> 0"
    by (simp add: info num_dwords_def demo_sdma_queue_def demo_queue_def new_QueueInfo_def)
  from sdma_reports_consumed [OF demo_sdma_inv p ptr this] p show ?thesis
    by (auto simp: filter_empty_conv not_le)
qed

text \<open>
  C37: the copy-direction page cache is bounded: in every reachable state of the parser no SDMA
  queue caches more than 65,536 pages, and each page at most once.
\<close>

theorem sdma_page_cache_bounded:
  assumes "parser_reachable dm rp" and "qs \<in> set (rp_queues rp)" and "is_sdma (qs_info qs)"
  shows "length (qs_page_host qs) \<le> 65536 \<and> distinct (keys (qs_page_host qs))"
proof -
  have "queue_ok qs" using reachable_ok [OF assms(1)] assms(2) by (simp add: parser_ok_def)
  then have "page_cache_ok (qs_page_host qs)"
    using assms(3) by (auto simp: queue_ok_def sdma_ready_def sdma_inv_def split: if_splits)
  then show ?thesis by (auto simp: page_cache_ok_def kPageCacheMax_def dest: od_ok_distinct)
qed

theorem sdma_page_cache_bounded_witness:
  "length (qs_page_host (new_QueueState demo_sdma_queue)) \<le> 65536"
proof -
  let ?rp = "AddQueue demo_sdma_queue (new_RingParser True True)"
  have reach: "parser_reachable demo_dm ?rp"
    by (rule reach_step [OF reach_start step_add])
      (simp add: is_traced_def is_sdma_def demo_sdma_queue_def)
  have "new_QueueState demo_sdma_queue \<in> set (rp_queues ?rp)"
    by (simp add: AddQueue_def new_RingParser_def Let_def is_sdma_def is_aql_def demo_sdma_queue_def
        IsSupportedVersion_def)
  moreover have "is_sdma (qs_info (new_QueueState demo_sdma_queue))"
    by (simp add: is_sdma_def demo_sdma_queue_def new_QueueState_def)
  ultimately show ?thesis using sdma_page_cache_bounded [OF reach] by blast
qed

end
