(* ===== verification/Memory_Properties.thy ===== *)
theory Memory_Properties
  imports Data_Model Kernel_Symbols
begin

text \<open>
  What the packet decoders, the process-memory layer and the kernel-name resolver promise to
  the components above them.
\<close>

section \<open>Packets\<close>

text \<open>
  An AQL slot that holds a dispatch packet is decoded to exactly that packet, and the
  packet fills the 64-byte slot.
\<close>

theorem aql_slot_roundtrip:
  "parse_dispatch (layout_dispatch p) = p \<and> length (layout_dispatch p) = kPacketSize"
  by (simp add: parse_layout_dispatch length_layout_dispatch)



text \<open>
  A linear copy the decoder accepts is long enough to hold its two addresses, and its byte
  count is between 1 and 2^30: the minus-one encoding never yields zero or wraps.
\<close>

theorem sdma_linear_copy_complete:
  assumes "HeaderOp (dw ! 0) = OP_COPY" and "IsLinearCopy v (HeaderSubOp (dw ! 0))" and "1 \<le> n"
  shows "7 \<le> PacketLenDwords v dw n \<and>
    1 \<le> unat (LinearCopyBytes v (HeaderSubOp (dw ! 0)) cnt) \<and>
    unat (LinearCopyBytes v (HeaderSubOp (dw ! 0)) cnt) \<le> 2 ^ 30"
  using linear_copy_len_ge7 [OF IsLinearCopy_supported [OF assms(2)] assms(3,1,2)]
    LinearCopyBytes_range [OF assms(2)] by blast

theorem sdma_linear_copy_complete_witness:
  "7 \<le> PacketLenDwords V6 [1, 0xFFFFFFFF] 2 \<and> unat (LinearCopyBytes V6 0 0xFFFFFFFF) \<le> 2 ^ 30"
proof -
  have h: "HeaderOp 1 = 1" "HeaderSubOp 1 = 0" by (simp_all add: HeaderOp_def HeaderSubOp_def)
  then show ?thesis
    using sdma_linear_copy_complete [of "[1, 0xFFFFFFFF]" V6 2 "0xFFFFFFFF"]
    by (simp add: IsLinearCopy_def word_le_nat_alt)
qed

text \<open>
  On SDMA v7 both linear copies are eight dwords, one more than on v6, while every other
  copy keeps its v6 length: v7 does not reuse the v6 layout for linear copies, and the
  broadcast-compatible form changes length as well.
\<close>

theorem sdma_v7_copy_lengths:
  "(\<not> HeaderBroadcast h \<and> HeaderSubOp h \<in> {SUBOP_COPY_LINEAR, SUBOP_COPY_LINEAR_BC} \<longrightarrow>
      CopyPacketLenV7 h = 8 \<and> CopyPacketLenV6 h = 7) \<and>
   (HeaderBroadcast h \<or> HeaderSubOp h \<notin> {SUBOP_COPY_LINEAR, SUBOP_COPY_LINEAR_BC} \<longrightarrow>
      CopyPacketLenV7 h = CopyPacketLenV6 h)"
  by (auto simp: CopyPacketLenV7_def CopyPacketLenV6_def Let_def)

theorem sdma_v7_copy_lengths_witness:
  "CopyPacketLenV7 0x1001 = 8 \<and> CopyPacketLenV6 0x1001 = 7"
proof -
  have "HeaderSubOp 0x1001 = SUBOP_COPY_LINEAR_BC" by (simp add: HeaderSubOp_def)
  moreover have "\<not> HeaderBroadcast 0x1001" by (simp add: HeaderBroadcast_def)
  ultimately show ?thesis using sdma_v7_copy_lengths [of "0x1001"] by simp
qed

section \<open>Process memory\<close>




text \<open>
  A failed open is not remembered. After a read whose open failed, the next read of the same
  process succeeds exactly when opening its memory works by then.
\<close>

theorem failed_open_retried:
  assumes "os_open_mem os pid < 0" and "cached_pid c \<noteq> pid \<or> cached_fd c < 0"
    and "ReadProcMemViaMem os c pid va len = (c', r)"
  shows "r = None \<and> snd (ReadProcMemViaMem os' c' pid va' len') =
    (if os_open_mem os' pid < 0 then None
     else full_read len' (os_pread os' (os_open_mem os' pid) va' len'))"
proof -
  have "cached_fd c' < 0" and r: "r = None"
    using assms by (auto simp: ReadProcMemViaMem_def refresh_cache_def Let_def split: if_splits)
  then show ?thesis using failed_open_not_cached [of c' os' pid va' len'] by (simp add: read_via_mem_direct_def)
qed

definition closed_os :: os_view where
  "closed_os =
     \<lparr> os_vm_readv = (\<lambda>pid va len. None), os_open_mem = (\<lambda>pid. - 1),
       os_pread = (\<lambda>fd va len. None), os_pagemap = (\<lambda>pid. None), os_page_size = 4096,
       os_maps = (\<lambda>pid. []), os_alive = (\<lambda>pid. True) \<rparr>"

definition open_os :: os_view where
  "open_os = closed_os\<lparr>os_open_mem := (\<lambda>pid. 3), os_pread := (\<lambda>fd va len. Some (replicate len 1)),
     os_pagemap := (\<lambda>pid. Some (\<lambda>i. if i = 5 then Some (push_bit 63 1 OR 0x1234) else Some 0))\<rparr>"

theorem failed_open_retried_witness:
  "snd (ReadProcMemViaMem open_os (fst (ReadProcMemViaMem closed_os new_fd_cache 7 0 8)) 7 0 2)
     = Some [1, 1]"
proof -
  obtain c' r where p: "ReadProcMemViaMem closed_os new_fd_cache 7 0 8 = (c', r)" by force
  have "os_open_mem closed_os 7 < 0" and "cached_pid new_fd_cache \<noteq> 7 \<or> cached_fd new_fd_cache < 0"
    by (simp_all add: closed_os_def new_fd_cache_def)
  from failed_open_retried [OF this p, of open_os 0 2] p show ?thesis
    by (simp add: open_os_def full_read_def numeral_2_eq_2)
qed

text \<open>
  A present page translates to its frame with the offset kept, and a page without a frame
  number (not present, or device memory) to zero.
\<close>

theorem virt_to_phys_correct:
  assumes "os_pagemap os pid = Some entries" and "entries (va div os_page_size os) = Some entry"
    and "os_page_size os \<noteq> 0" and "pfn = entry AND (push_bit 55 1 - 1)"
    and "unat pfn * unat (os_page_size os) + unat (os_page_size os) \<le> 2 ^ 64"
  shows "unat (VirtToPhys os pid va) =
    (if entry AND push_bit 63 1 \<noteq> 0 \<and> pfn \<noteq> 0
     then unat pfn * unat (os_page_size os) + unat va mod unat (os_page_size os) else 0)"
  using assms VirtToPhys_frame [OF assms(1,2) _ assms(4) _ assms(5,3)] VirtToPhys_absent [OF assms(1,2)]
  by auto

theorem virt_to_phys_correct_witness: "unat (VirtToPhys open_os 7 0x5021) = 0x1234021"
proof -
  have e: "(push_bit 63 1 OR 0x1234 :: u64) AND (push_bit 55 1 - 1) = 0x1234"
    "(push_bit 63 1 OR 0x1234 :: u64) AND push_bit 63 1 \<noteq> 0" by (simp_all add: push_bit_eq_mult)
  have "unat (VirtToPhys open_os 7 0x5021) =
    (if (push_bit 63 1 OR 0x1234 :: u64) AND push_bit 63 1 \<noteq> 0 \<and> (0x1234 :: u64) \<noteq> 0
     then unat (0x1234 :: u64) * unat (os_page_size open_os) + unat (0x5021 :: u64) mod unat (os_page_size open_os)
     else 0)"
    by (rule virt_to_phys_correct [where entries = "\<lambda>i. if i = 5 then Some (push_bit 63 1 OR 0x1234) else Some 0"])
      (simp_all add: open_os_def closed_os_def e)
  then show ?thesis using e(2) by (simp add: open_os_def closed_os_def)
qed






text \<open>
  Looking up an address in an ascending memory map finds the region that contains it, exactly
  when there is one: leaving the loop early loses nothing.
\<close>

theorem find_vma_correct:
  assumes "sorted (map vma_start vmas)"
  shows "(FindVma vmas addr = None \<longleftrightarrow> (\<forall>v \<in> set vmas. \<not> (vma_start v \<le> addr \<and> addr < vma_end v))) \<and>
    (FindVma vmas addr = Some v \<longrightarrow> v \<in> set vmas \<and> vma_start v \<le> addr \<and> addr < vma_end v)"
  using FindVma_find [OF assms, of addr] FindVma_Some [of vmas addr v]
  by (auto simp: find_None_iff vma_contains_def)

theorem find_vma_correct_witness:
  "FindVma [\<lparr>vma_start = 0x1000, vma_end = 0x2000\<rparr>, \<lparr>vma_start = 0x5000, vma_end = 0x6000\<rparr>] 0x3000 = None"
  using find_vma_correct [of "[\<lparr>vma_start = 0x1000, vma_end = 0x2000\<rparr>, \<lparr>vma_start = 0x5000, vma_end = 0x6000\<rparr>]"
      "0x3000"]
  by (simp add: word_less_nat_alt word_le_nat_alt)

text \<open>
  The kernarg size read from a kernel descriptor is either zero, for unavailable, or exactly
  the descriptor's 32-bit field at offset 8, which is then at most 4096: a corrupt descriptor
  cannot widen the scan.
\<close>

theorem kernarg_size_exact:
  assumes "ReadKernargSize os c pid ko = (c', n)" and "n \<noteq> 0"
  shows "\<exists>bs. read_either os c pid (ko + 8) 4 = (c', Some bs) \<and> n = of_nat (load_le bs) \<and> n \<le> 4096"
  using assms
  by (auto simp: ReadKernargSize_def Let_def kKdKernargSizeOffset_def kMaxKernargScanBytes_def not_less
      split: if_splits prod.splits option.splits)

theorem kernarg_size_exact_witness:
  "\<exists>bs. read_either (closed_os\<lparr>os_vm_readv := (\<lambda>pid va len. Some [24, 0, 0, 0])\<rparr>) new_fd_cache 7 (0x5000 + 8) 4
     = (new_fd_cache, Some bs) \<and> (24 :: u32) = of_nat (load_le bs) \<and> (24 :: u32) \<le> 4096"
proof (rule kernarg_size_exact)
  show "ReadKernargSize (closed_os\<lparr>os_vm_readv := (\<lambda>pid va len. Some [24, 0, 0, 0])\<rparr>) new_fd_cache 7 0x5000
      = (new_fd_cache, 24)"
    by (simp add: ReadKernargSize_def read_either_def ReadProcMem_def full_read_def Let_def
        kMaxKernargScanBytes_def word_less_nat_alt)
qed simp

section \<open>Kernel names\<close>



text \<open>
  An SDMA generation is detected from the first topology node that carries the GPU's
  identifier, and from no other node.
\<close>

theorem detect_version_first_match:
  assumes "\<forall>n \<in> set before. starts_with (node_name n) ''.'' \<or>
      (\<forall>i rest. Option.bind (node_gpu_id n) (extract_unsigned 32) = Some (i, rest) \<longrightarrow> (of_nat i :: u32) \<noteq> gpu)"
    and "\<not> starts_with (node_name n) ''.''"
    and "Option.bind (node_gpu_id n) (extract_unsigned 32) = Some (i, rest)" and "(of_nat i :: u32) = gpu"
    and "Option.bind (node_properties n) find_gfx_target = Some v"
  shows "DetectVersion (Some (before @ n # after)) gpu = VersionFromGfxTarget (ucast v)"
proof -
  have "detect_in_nodes gpu (before @ n # after) = detect_in_nodes gpu (n # after)"
    using assms(1) by (induction before) (auto split: option.split)
  then show ?thesis using assms(2-5) by (simp add: DetectVersion_def)
qed

definition demo_node :: "string \<Rightarrow> string \<Rightarrow> topology_node" where
  "demo_node gid props = \<lparr>node_name = ''1'', node_gpu_id = Some gid, node_properties = Some props\<rparr>"

theorem detect_version_first_match_witness:
  "DetectVersion (Some [demo_node ''0'' [], demo_node ''42'' ''simd_count 304 gfx_target_version 90402'']) 42 = V4"
proof -
  have x: "extract_unsigned 32 ''42'' = Some (42, [])" "extract_unsigned 32 ''0'' = Some (0, [])"
    by (simp_all add: extract_unsigned_def c_isspace_def char_digit_def)
  have w: "extract_word ''simd_count 304 gfx_target_version 90402'' = Some (''simd_count'', '' 304 gfx_target_version 90402'')"
    "extract_word '' gfx_target_version 90402'' = Some (''gfx_target_version'', '' 90402'')"
    by (simp_all add: extract_word_def c_isspace_def)
  have u: "extract_unsigned 64 '' 304 gfx_target_version 90402'' = Some (304, '' gfx_target_version 90402'')"
    "extract_unsigned 64 '' 90402'' = Some (90402, [])"
    by (simp_all add: extract_unsigned_def c_isspace_def char_digit_def)
  have f: "find_gfx_target ''simd_count 304 gfx_target_version 90402'' = Some 90402"
    by (simp add: find_gfx_target.simps w u)
  have "DetectVersion (Some ([demo_node ''0'' []] @ demo_node ''42'' ''simd_count 304 gfx_target_version 90402'' # [])) 42
      = VersionFromGfxTarget (ucast (90402 :: u64))"
    by (rule detect_version_first_match [where i = 42 and rest = "[]"])
      (simp_all add: demo_node_def x f starts_with_def)
  then show ?thesis by (simp add: VersionFromGfxTarget_def)
qed

end
