(* ===== verification/Number_Format.thy ===== *)
theory Number_Format
  imports Snoop_Prelude
begin

text \<open>
  The number and time formats of the C and C++ libraries the writers use: \<^verbatim>\<open>%.*f\<close>, the six
  significant digits of \<^verbatim>\<open>ostream << double\<close> (\<^verbatim>\<open>%g\<close>), \<^verbatim>\<open>%0*u\<close>, casts of a double to an
  integer type, and \<^verbatim>\<open>gmtime_r\<close> with \<^verbatim>\<open>strftime("%Y-%m-%dT%H:%M:%S")\<close>.
\<close>

section \<open>Rounding\<close>

text \<open>Exact ties go to the even neighbour, as glibc's \<^verbatim>\<open>printf\<close> rounds.\<close>

definition round_even :: "rat \<Rightarrow> int" where
  "round_even r =
     (let f = \<lfloor>r\<rfloor>; d = r - of_int f in
      if d < 1 / 2 then f
      else if 1 / 2 < d then f + 1
      else if even f then f else f + 1)"

definition truncate_rat :: "rat \<Rightarrow> int" where
  "truncate_rat r = (if r < 0 then - \<lfloor>- r\<rfloor> else \<lfloor>r\<rfloor>)"

definition pad_zeros :: "nat \<Rightarrow> string \<Rightarrow> string" where
  "pad_zeros n s = replicate (n - length s) (CHR ''0'') @ s"

lemma round_even_int [simp]: "round_even (of_int i) = i"
  by (simp add: round_even_def)

lemma round_even_nonneg: "0 \<le> r \<Longrightarrow> 0 \<le> round_even r"
proof -
  assume "0 \<le> r"
  then have "0 \<le> \<lfloor>r\<rfloor>" by simp
  then show ?thesis by (auto simp: round_even_def Let_def)
qed

lemma round_even_near:
  assumes "of_int i - 1 / 2 < r" "r < of_int i + 1 / 2"
  shows "round_even r = i"
proof (cases "\<lfloor>r\<rfloor> = i")
  case True
  then show ?thesis using assms by (simp add: round_even_def Let_def)
next
  case False
  then have "\<lfloor>r\<rfloor> = i - 1" using assms by linarith
  then show ?thesis using assms by (simp add: round_even_def Let_def)
qed

section \<open>Fixed notation\<close>

definition show_fixed :: "nat \<Rightarrow> rat \<Rightarrow> string" where
  "show_fixed p v =
     (let n = nat (round_even (\<bar>v\<bar> * 10 ^ p)) in
      (if v < 0 then ''-'' else []) @ show_dec (n div 10 ^ p) @
      (if p = 0 then [] else ''.'' @ pad_zeros p (show_dec (n mod 10 ^ p))))"

section \<open>Six significant digits\<close>

text \<open>The decimal exponent of a positive number: \<open>10\<^sup>e \<le> a < 10\<^sup>e\<^sup>+\<^sup>1\<close>.\<close>

function dec_exponent :: "rat \<Rightarrow> int" where
  "dec_exponent a =
     (if a \<le> 0 then 0
      else if a < 1 then dec_exponent (a * 10) - 1
      else if 10 \<le> a then dec_exponent (a / 10) + 1
      else 0)"
  by pat_completeness auto
termination
proof (relation "measure (\<lambda>a. if a < 1 then 10 + nat \<lfloor>1 / a\<rfloor> else nat \<lfloor>a\<rfloor>)", goal_cases)
  case 1
  show ?case by simp
next
  case (2 a)
  then have a: "0 < a" "a < 1" by simp_all
  show ?case
  proof (cases "a * 10 < 1")
    case True
    have ten: "10 * (1 / (a * 10)) = 1 / a" using a by simp
    have "1 < 1 / (a * 10)" using True a by simp
    then have "1 / (a * 10) + 1 \<le> 1 / a" unfolding ten [symmetric] by simp
    then have "\<lfloor>1 / (a * 10)\<rfloor> + 1 \<le> \<lfloor>1 / a\<rfloor>" by linarith
    moreover have "0 \<le> \<lfloor>1 / (a * 10)\<rfloor>" using a by simp
    ultimately show ?thesis using True a by simp
  next
    case False
    have "\<lfloor>a * 10\<rfloor> < 10" using a by linarith
    then have "nat \<lfloor>a * 10\<rfloor> < 10" by linarith
    then show ?thesis using False a by simp
  qed
next
  case (3 a)
  then have "10 \<le> a" by simp
  then have "a / 10 + 1 \<le> a" by simp
  then have "\<lfloor>a / 10\<rfloor> + 1 \<le> \<lfloor>a\<rfloor>" by linarith
  moreover have "0 \<le> \<lfloor>a / 10\<rfloor>" using \<open>10 \<le> a\<close> by simp
  ultimately show ?case using \<open>10 \<le> a\<close> by simp
qed

declare dec_exponent.simps [simp del]

definition pow10 :: "int \<Rightarrow> rat" where
  "pow10 e = (if 0 \<le> e then 10 ^ nat e else 1 / 10 ^ nat (- e))"

definition trim_zeros :: "string \<Rightarrow> string" where
  "trim_zeros s = rev (dropWhile (\<lambda>c. c = CHR ''0'') (rev s))"

definition with_fraction :: "string \<Rightarrow> string \<Rightarrow> string" where
  "with_fraction i f = (let t = trim_zeros f in if t = [] then i else i @ ''.'' @ t)"

definition show_double :: "rat \<Rightarrow> string" where
  "show_double v =
     (if v = 0 then ''0''
      else
        let a = \<bar>v\<bar>;
            e0 = dec_exponent a;
            m0 = nat (round_even (a / pow10 (e0 - 5)));
            e = (if m0 = 1000000 then e0 + 1 else e0);
            ds = show_dec (if m0 = 1000000 then 100000 else m0);
            body =
              (if e < - 4 \<or> 6 \<le> e then
                 with_fraction (take 1 ds) (drop 1 ds) @ ''e'' @ (if e < 0 then ''-'' else ''+'') @
                 pad_zeros 2 (show_dec (nat \<bar>e\<bar>))
               else if 0 \<le> e then with_fraction (take (nat e + 1) ds) (drop (nat e + 1) ds)
               else with_fraction ''0'' (replicate (nat (- e) - 1) (CHR ''0'') @ ds))
        in (if v < 0 then ''-'' else []) @ body)"

section \<open>Civil time\<close>

text \<open>Days since 1970-01-01 to year, month and day of the Gregorian calendar.\<close>

definition civil_of_days :: "int \<Rightarrow> int \<times> int \<times> int" where
  "civil_of_days z0 =
     (let z = z0 + 719468;
          era = z div 146097;
          doe = z mod 146097;
          yoe = (doe - doe div 1460 + doe div 36524 - doe div 146096) div 365;
          doy = doe - (365 * yoe + yoe div 4 - yoe div 100);
          mp = (5 * doy + 2) div 153;
          d = doy - (153 * mp + 2) div 5 + 1;
          m = (if mp < 10 then mp + 3 else mp - 9);
          y = yoe + era * 400 + (if m \<le> 2 then 1 else 0)
      in (y, m, d))"

definition two_digits :: "int \<Rightarrow> string" where
  "two_digits i = pad_zeros 2 (show_int i)"

definition show_utc :: "int \<Rightarrow> string" where
  "show_utc secs =
     (let t = secs mod 86400 in
      case civil_of_days (secs div 86400) of (y, m, d) \<Rightarrow>
        show_int y @ ''-'' @ two_digits m @ ''-'' @ two_digits d @ ''T'' @
        two_digits (t div 3600) @ '':'' @ two_digits (t div 60 mod 60) @ '':'' @ two_digits (t mod 60))"

lemma civil_epoch: "civil_of_days 0 = (1970, 1, 1)" "civil_of_days 59 = (1970, 3, 1)"
    "civil_of_days 11016 = (2000, 2, 29)" "civil_of_days 20454 = (2026, 1, 1)"
  by code_simp+

section \<open>Printable text\<close>

text \<open>No control character: nothing that would break a line or a JSON string.\<close>

definition printable :: "string \<Rightarrow> bool" where
  "printable s = (\<forall>c \<in> set s. 32 \<le> (of_char c :: nat))"

named_theorems printable_text "texts without control characters"

lemma printable_Nil [printable_text, simp]: "printable []"
  by (simp add: printable_def)

lemma printable_Cons [simp]: "printable (c # s) \<longleftrightarrow> 32 \<le> (of_char c :: nat) \<and> printable s"
  by (simp add: printable_def)

lemma printable_append [simp]: "printable (s @ t) \<longleftrightarrow> printable s \<and> printable t"
  by (auto simp: printable_def)

lemma digit_char_printable: "d < 16 \<Longrightarrow> 32 \<le> (of_char (digit_char d) :: nat)"
proof -
  assume "d < 16"
  then have "d \<in> set [0..<16]" by simp
  then show ?thesis by (auto simp: upt_rec digit_char_def)
qed

lemma printable_radix: "2 \<le> b \<Longrightarrow> b \<le> 16 \<Longrightarrow> printable (show_radix b n)"
  using digits_of_show_radix [of b] digit_char_printable by (fastforce simp: printable_def)

lemma printable_numbers [printable_text, simp]:
  "printable (show_dec n)" "printable (show_hex n)" "printable (show_int i)"
  by (simp_all add: show_dec_def show_hex_def show_int_def printable_radix)

lemma printable_pad [printable_text, simp]: "printable s \<Longrightarrow> printable (pad_zeros n s)"
  by (auto simp: pad_zeros_def printable_def)

lemma printable_fixed [printable_text, simp]: "printable (show_fixed p v)"
  by (simp add: show_fixed_def Let_def)

lemma printable_sub: "printable s \<Longrightarrow> set t \<subseteq> set s \<Longrightarrow> printable t"
  by (auto simp: printable_def)

lemma printable_trim: "printable s \<Longrightarrow> printable (trim_zeros s)"
  by (rule printable_sub) (auto simp: trim_zeros_def dest: set_dropWhileD)

lemma printable_with_fraction: "printable i \<Longrightarrow> printable f \<Longrightarrow> printable (with_fraction i f)"
  by (auto simp: with_fraction_def Let_def printable_trim)

lemma printable_take_drop [simp]: "printable s \<Longrightarrow> printable (take n s)" "printable s \<Longrightarrow> printable (drop n s)"
  by (auto simp: printable_def dest: in_set_takeD in_set_dropD)

lemma printable_replicate [simp]: "32 \<le> (of_char c :: nat) \<Longrightarrow> printable (replicate n c)"
  by (simp add: printable_def)

lemma printable_double [printable_text, simp]: "printable (show_double v)"
  by (auto simp: show_double_def Let_def intro!: printable_with_fraction)

lemma printable_utc [printable_text, simp]: "printable (show_utc secs)"
  by (simp add: show_utc_def Let_def two_digits_def split: prod.split)

end
