(* ===== verification/Dispatch_Log.thy ===== *)
theory Dispatch_Log
  imports Number_Format Data_Model
begin

text \<open>
  \<^verbatim>\<open>src/dispatch_log.h\<close> and \<^verbatim>\<open>src/dispatch_log.cpp\<close>: one JSON object per line. The
  \<^verbatim>\<open>Append\<close> functions extend the line built so far; the log is the list of lines written.
\<close>

section \<open>Building a line\<close>

definition json_char :: "char \<Rightarrow> string" where
  "json_char c =
     (if c = CHR 0x22 then [CHR 0x5C, CHR 0x22]
      else if c = CHR 0x5C then [CHR 0x5C, CHR 0x5C]
      else if c = CHR 0x0A then [CHR 0x5C, CHR ''n'']
      else if c = CHR 0x0D then [CHR 0x5C, CHR ''r'']
      else if c = CHR 0x09 then [CHR 0x5C, CHR ''t'']
      else if (of_char c :: nat) < 0x20 then [CHR 0x5C, CHR ''u''] @ pad_zeros 4 (show_hex (of_char c))
      else [c])"

text \<open>The argument is a C string: it ends at the first NUL.\<close>

definition c_str :: "string \<Rightarrow> string" where
  "c_str s = takeWhile (\<lambda>c. c \<noteq> CHR 0x00) s"

definition AppendEscaped :: "string \<Rightarrow> string \<Rightarrow> string" where
  "AppendEscaped out s = out @ [CHR 0x22] @ concat (map json_char (c_str s)) @ [CHR 0x22]"

definition AppendKey :: "string \<Rightarrow> string \<Rightarrow> string" where
  "AppendKey out key =
     AppendEscaped (if last out \<noteq> CHR ''{'' then out @ '','' else out) key @ '':''"

definition AppendStr :: "string \<Rightarrow> string \<Rightarrow> string \<Rightarrow> string" where
  "AppendStr key val out = AppendEscaped (AppendKey out key) val"

definition AppendNum :: "string \<Rightarrow> nat \<Rightarrow> string \<Rightarrow> string" where
  "AppendNum key val out = AppendKey out key @ show_dec val"

definition AppendFixed :: "string \<Rightarrow> rat \<Rightarrow> nat \<Rightarrow> string \<Rightarrow> string" where
  "AppendFixed key val prec out = AppendKey out key @ show_fixed prec val"

text \<open>The microseconds are those of a double: cut toward zero, then forced into range.\<close>

definition log_usec :: "seconds \<Rightarrow> int" where
  "log_usec unix_sec =
     (let secs = truncate_rat unix_sec;
          usec = truncate_rat ((unix_sec - of_int secs) * 1000000);
          usec1 = (if usec < 0 then 0 else usec)
      in if 999999 < usec1 then 999999 else usec1)"

definition timestamp_text :: "seconds \<Rightarrow> string" where
  "timestamp_text unix_sec =
     show_utc (truncate_rat unix_sec) @ ''.'' @ pad_zeros 6 (show_int (log_usec unix_sec)) @ ''Z''"

definition AppendTimestamp :: "seconds \<Rightarrow> string \<Rightarrow> string" where
  "AppendTimestamp unix_sec out = AppendEscaped (AppendKey out ''ts'') (timestamp_text unix_sec)"

definition json_object :: "(string \<Rightarrow> string) list \<Rightarrow> string" where
  "json_object appends = fold (\<lambda>f out. f out) appends ''{'' @ ''}''"

section \<open>The log\<close>

record LogCtx =
  cx_gpu_id :: u32
  cx_pid :: c_int
  cx_comm :: string

record DispatchLog =
  dl_mono_to_unix_offset :: seconds
  dl_lines :: "string list"

text \<open>
  \<^verbatim>\<open>Open\<close> and the constructor: \<open>can_append\<close> are the paths that can be opened for appending, \<open>realtime\<close> and
  \<open>monotonic\<close> the two clocks. A dash stands for the standard error stream.
\<close>

definition OpenLog :: "(string \<Rightarrow> bool) \<Rightarrow> seconds \<Rightarrow> seconds \<Rightarrow> string \<Rightarrow> DispatchLog option" where
  "OpenLog can_append realtime monotonic path =
     (if path = ''-'' \<or> can_append path
      then Some \<lparr>dl_mono_to_unix_offset = realtime - monotonic, dl_lines = []\<rparr>
      else None)"

definition MonoToUnix :: "DispatchLog \<Rightarrow> seconds \<Rightarrow> seconds" where
  "MonoToUnix l mono_sec = mono_sec + dl_mono_to_unix_offset l"

definition WriteLine :: "DispatchLog \<Rightarrow> string \<Rightarrow> DispatchLog" where
  "WriteLine l s = l\<lparr>dl_lines := dl_lines l @ [s]\<rparr>"

text \<open>\<^verbatim>\<open>static_cast<unsigned long long>(pid)\<close>.\<close>

definition pid_num :: "c_int \<Rightarrow> nat" where
  "pid_num pid = unat (c_int_to_u64 pid)"

definition hex_addr :: "u64 \<Rightarrow> string" where
  "hex_addr a = ''0x'' @ show_hex (unat a)"

definition queue_line :: "DispatchLog \<Rightarrow> QueueInfo \<Rightarrow> string \<Rightarrow> string" where
  "queue_line l q kind =
     json_object
       [AppendTimestamp (MonoToUnix l (q_create_ts q)),
        AppendStr ''ev'' ''queue'',
        AppendStr ''kind'' kind,
        AppendNum ''gpu_id'' (unat (q_gpu_id q)),
        AppendNum ''pid'' (pid_num (q_pid q)),
        AppendStr ''comm'' (q_comm q),
        AppendNum ''queue_uid'' (unat (q_uid q)),
        AppendNum ''qtype'' (unat (q_qtype q)),
        AppendNum ''ring_size'' (unat (q_ring_size q)),
        AppendStr ''ring_va'' (hex_addr (q_ring_base q)),
        AppendStr ''ring_phys'' (hex_addr (q_ring_phys q))]"

definition LogQueue :: "QueueInfo \<Rightarrow> string \<Rightarrow> DispatchLog \<Rightarrow> DispatchLog" where
  "LogQueue q kind l = WriteLine l (queue_line l q kind)"

fun dims_text :: "nat \<times> nat \<times> nat \<Rightarrow> string" where
  "dims_text (x, y, z) = ''['' @ show_dec x @ '','' @ show_dec y @ '','' @ show_dec z @ '']''"

definition AppendDims :: "string \<Rightarrow> nat \<times> nat \<times> nat \<Rightarrow> string \<Rightarrow> string" where
  "AppendDims key d out = AppendKey out key @ dims_text d"

definition grid_nats :: "'a::len word \<times> 'a word \<times> 'a word \<Rightarrow> nat \<times> nat \<times> nat" where
  "grid_nats g = (case g of (x, y, z) \<Rightarrow> (unat x, unat y, unat z))"

text \<open>The duration is written only for a packet seen to retire after it was submitted.\<close>

definition AppendDuration :: "bool \<Rightarrow> seconds \<Rightarrow> seconds \<Rightarrow> string \<Rightarrow> string" where
  "AppendDuration completed submit_ts complete_ts out =
     (if completed \<and> submit_ts < complete_ts
      then AppendFixed ''dur_us'' ((complete_ts - submit_ts) * 1000000) 3 out else out)"

definition dispatch_line :: "DispatchLog \<Rightarrow> PacketRecord \<Rightarrow> LogCtx \<Rightarrow> string" where
  "dispatch_line l r c =
     json_object
       [AppendTimestamp (MonoToUnix l (p_submit_ts r)),
        AppendStr ''ev'' ''dispatch'',
        AppendNum ''gpu_id'' (unat (cx_gpu_id c)),
        AppendNum ''pid'' (pid_num (cx_pid c)),
        AppendStr ''comm'' (cx_comm c),
        AppendNum ''queue_uid'' (unat (p_queue_uid r)),
        AppendNum ''dispatch_id'' (unat (p_dispatch_id r)),
        AppendStr ''kernel'' (p_kernel_name r),
        AppendDims ''grid'' (grid_nats (p_grid r)),
        AppendDims ''wg'' (grid_nats (p_wg r)),
        AppendNum ''lds'' (unat (p_group_seg r)),
        AppendNum ''scratch'' (unat (p_private_seg r)),
        AppendDuration (p_completed r) (p_submit_ts r) (p_complete_ts r)]"

definition LogDispatch :: "PacketRecord \<Rightarrow> LogCtx \<Rightarrow> DispatchLog \<Rightarrow> DispatchLog" where
  "LogDispatch r c l = WriteLine l (dispatch_line l r c)"

definition sdma_line :: "DispatchLog \<Rightarrow> SdmaRecord \<Rightarrow> LogCtx \<Rightarrow> string" where
  "sdma_line l r c =
     json_object
       ([AppendTimestamp (MonoToUnix l (s_submit_ts r)),
         AppendStr ''ev'' ''sdma'',
         AppendNum ''gpu_id'' (unat (cx_gpu_id c)),
         AppendNum ''pid'' (pid_num (cx_pid c)),
         AppendStr ''comm'' (cx_comm c),
         AppendNum ''queue_uid'' (unat (s_queue_uid r)),
         AppendNum ''seq'' (unat (s_seq r)),
         AppendStr ''op'' (s_op_name r)] @
        (if is_copy r
         then [AppendStr ''dir'' (CopyDirName (s_dir r)), AppendNum ''bytes'' (unat (s_bytes r))]
         else []) @
        [AppendDuration (s_completed r) (s_submit_ts r) (s_complete_ts r)])"

definition LogSdma :: "SdmaRecord \<Rightarrow> LogCtx \<Rightarrow> DispatchLog \<Rightarrow> DispatchLog" where
  "LogSdma r c l = WriteLine l (sdma_line l r c)"

section \<open>Reading a line back\<close>

text \<open>
  A reader of one flat JSON object, the shape of every log line: what a collector that tails
  the log does with it. Numbers and arrays stay the text they are.
\<close>

datatype json_value = JStr string | JNum string | JArr string

fun read_string :: "string \<Rightarrow> (string \<times> string) option" where
  "read_string [] = None"
| "read_string (c # cs) =
     (if c = CHR 0x22 then Some ([], cs)
      else if c = CHR 0x5C then
        (case cs of
           [] \<Rightarrow> None
         | d # ds \<Rightarrow>
             if d = CHR ''u'' then
               map_option (apfst (\<lambda>t. char_of (fst (read_digits 16 0 (take 4 ds))) # t))
                 (read_string (drop 4 ds))
             else if d = CHR ''n'' then map_option (apfst (\<lambda>t. CHR 0x0A # t)) (read_string ds)
             else if d = CHR ''r'' then map_option (apfst (\<lambda>t. CHR 0x0D # t)) (read_string ds)
             else if d = CHR ''t'' then map_option (apfst (\<lambda>t. CHR 0x09 # t)) (read_string ds)
             else if d = CHR 0x22 \<or> d = CHR 0x5C then map_option (apfst (\<lambda>t. d # t)) (read_string ds)
             else None)
      else if (of_char c :: nat) < 0x20 then None
      else map_option (apfst (\<lambda>t. c # t)) (read_string cs))"

definition ends_value :: "char \<Rightarrow> bool" where
  "ends_value c = (c = CHR '','' \<or> c = CHR ''}'')"

fun read_value :: "string \<Rightarrow> (json_value \<times> string) option" where
  "read_value [] = None"
| "read_value (c # cs) =
     (if c = CHR 0x22 then map_option (apfst JStr) (read_string cs)
      else if c = CHR ''['' then
        Some (JArr (takeWhile (\<lambda>x. x \<noteq> CHR '']'') cs), drop 1 (dropWhile (\<lambda>x. x \<noteq> CHR '']'') cs))
      else Some (JNum (takeWhile (\<lambda>x. \<not> ends_value x) (c # cs)), dropWhile (\<lambda>x. \<not> ends_value x) (c # cs)))"

definition read_field :: "string \<Rightarrow> ((string \<times> json_value) \<times> string) option" where
  "read_field s =
     (case s of
        [] \<Rightarrow> None
      | c # cs \<Rightarrow>
          if c \<noteq> CHR 0x22 then None
          else
            (case read_string cs of
               Some (k, d # ds) \<Rightarrow>
                 if d = CHR '':'' then map_option (apfst (Pair k)) (read_value ds) else None
             | _ \<Rightarrow> None))"

text \<open>One field a step; as many steps as the text has characters are more than enough.\<close>

fun read_fields :: "nat \<Rightarrow> string \<Rightarrow> (string \<times> json_value) list option" where
  "read_fields 0 s = None"
| "read_fields (Suc n) s =
     (case read_field s of
        Some (f, c # rest) \<Rightarrow>
          if c = CHR '','' then map_option (Cons f) (read_fields n rest)
          else if c = CHR ''}'' \<and> rest = [] then Some [f] else None
      | _ \<Rightarrow> None)"

definition read_object :: "string \<Rightarrow> (string \<times> json_value) list option" where
  "read_object s =
     (case s of
        c # rest \<Rightarrow> if c = CHR ''{'' then read_fields (length rest) rest else None
      | [] \<Rightarrow> None)"

section \<open>Fields\<close>

text \<open>The text of a field, and the functions that append one.\<close>

definition quoted :: "string \<Rightarrow> string" where
  "quoted s = [CHR 0x22] @ concat (map json_char (c_str s)) @ [CHR 0x22]"

fun value_text :: "json_value \<Rightarrow> string" where
  "value_text (JStr s) = quoted s"
| "value_text (JNum t) = t"
| "value_text (JArr t) = ''['' @ t @ '']''"

definition field_text :: "string \<times> json_value \<Rightarrow> string" where
  "field_text f = quoted (fst f) @ '':'' @ value_text (snd f)"

definition append_field :: "string \<times> json_value \<Rightarrow> string \<Rightarrow> string" where
  "append_field f out = AppendKey out (fst f) @ value_text (snd f)"

definition num_char :: "char \<Rightarrow> bool" where
  "num_char c = (c \<in> set ''0123456789.-'')"

definition arr_char :: "char \<Rightarrow> bool" where
  "arr_char c = (c \<in> set ''0123456789,'')"

definition value_ok :: "json_value \<Rightarrow> bool" where
  "value_ok v =
     (case v of
        JStr s \<Rightarrow> True
      | JNum t \<Rightarrow> t \<noteq> [] \<and> list_all num_char t
      | JArr t \<Rightarrow> list_all arr_char t)"

fun fields_text :: "(string \<times> json_value) list \<Rightarrow> string" where
  "fields_text [] = []"
| "fields_text [f] = field_text f"
| "fields_text (f # fs) = field_text f @ '','' @ fields_text fs"

lemma append_fields [simp]:
  "AppendStr k s = append_field (k, JStr s)"
  "AppendNum k n = append_field (k, JNum (show_dec n))"
  "AppendFixed k v p = append_field (k, JNum (show_fixed p v))"
  "AppendTimestamp u = append_field (''ts'', JStr (timestamp_text u))"
  by (simp_all add: fun_eq_iff append_field_def AppendStr_def AppendNum_def AppendFixed_def
      AppendTimestamp_def AppendEscaped_def quoted_def)

lemma append_dims [simp]:
  "AppendDims k (x, y, z) =
     append_field (k, JArr (show_dec x @ '','' @ show_dec y @ '','' @ show_dec z))"
  by (simp add: fun_eq_iff append_field_def AppendDims_def)

definition duration_fields :: "bool \<Rightarrow> seconds \<Rightarrow> seconds \<Rightarrow> (string \<times> json_value) list" where
  "duration_fields completed submit_ts complete_ts =
     (if completed \<and> submit_ts < complete_ts
      then [(''dur_us'', JNum (show_fixed 3 ((complete_ts - submit_ts) * 1000000)))] else [])"

lemma append_duration [simp]:
  "AppendDuration completed submit_ts complete_ts out =
     fold append_field (duration_fields completed submit_ts complete_ts) out"
  by (simp add: AppendDuration_def duration_fields_def)

subsection \<open>Number texts\<close>

lemma digit_char_decimal: "d < 10 \<Longrightarrow> digit_char d \<in> set ''0123456789''"
proof -
  assume "d < 10"
  then have "d \<in> set [0..<10]" by simp
  then show ?thesis by (auto simp: upt_rec digit_char_def)
qed

lemma show_dec_digits: "c \<in> set (show_dec n) \<Longrightarrow> c \<in> set ''0123456789''"
  using digits_of_show_radix [of 10 c n] digit_char_decimal unfolding show_dec_def by fastforce

lemma show_dec_nonempty [simp]: "show_dec n \<noteq> []"
  by (simp add: show_dec_def)

lemma pad_zeros_digits: "c \<in> set (pad_zeros k (show_dec n)) \<Longrightarrow> c \<in> set ''0123456789''"
  using show_dec_digits [of c n] by (auto simp: pad_zeros_def)

lemma show_fixed_chars: "c \<in> set (show_fixed p v) \<Longrightarrow> c \<in> set ''0123456789.-''"
proof -
  assume c: "c \<in> set (show_fixed p v)"
  define n where "n = nat (round_even (\<bar>v\<bar> * 10 ^ p))"
  have "c = CHR ''-'' \<or> c = CHR ''.'' \<or> c \<in> set (show_dec (n div 10 ^ p))
      \<or> c \<in> set (pad_zeros p (show_dec (n mod 10 ^ p)))"
    using c by (auto simp: show_fixed_def Let_def n_def split: if_splits)
  then show ?thesis
    using show_dec_digits [of c "n div 10 ^ p"] pad_zeros_digits [of c p "n mod 10 ^ p"] by auto
qed

lemma show_fixed_nonempty [simp]: "show_fixed p v \<noteq> []"
  by (simp add: show_fixed_def Let_def)

lemma num_char_plain:
  "num_char c \<Longrightarrow>
     c \<noteq> CHR 0x22 \<and> c \<noteq> CHR ''['' \<and> c \<noteq> CHR ''{'' \<and> \<not> ends_value c \<and> 32 \<le> (of_char c :: nat)"
  by (auto simp: num_char_def ends_value_def)

lemma arr_char_plain: "arr_char c \<Longrightarrow> c \<noteq> CHR '']'' \<and> 32 \<le> (of_char c :: nat)"
  by (auto simp: arr_char_def)

lemma digits_plain: "c \<in> set (show_dec n) \<Longrightarrow> num_char c \<and> arr_char c"
  using show_dec_digits [of c n] by (auto simp: num_char_def arr_char_def)

lemma value_ok_simps [simp]:
  "value_ok (JStr s)" "value_ok (JNum (show_dec n))" "value_ok (JNum (show_fixed p v))"
  "value_ok (JArr (show_dec x @ '','' @ show_dec y @ '','' @ show_dec z))"
proof -
  show "value_ok (JStr s)" by (simp add: value_ok_def)
  show "value_ok (JNum (show_dec n))"
    by (simp add: value_ok_def list_all_iff digits_plain)
  show "value_ok (JNum (show_fixed p v))"
    using show_fixed_chars [of _ p v] by (simp add: value_ok_def list_all_iff num_char_def)
  have "arr_char CHR '',''" by (simp add: arr_char_def)
  then show "value_ok (JArr (show_dec x @ '','' @ show_dec y @ '','' @ show_dec z))"
    using digits_plain by (auto simp: value_ok_def list_all_iff)
qed

lemma value_ok_duration: "f \<in> set (duration_fields b s e) \<Longrightarrow> value_ok (snd f)"
  by (auto simp: duration_fields_def split: if_splits)

subsection \<open>Escaped strings read back\<close>

lemma control_char_table:
  "list_all (\<lambda>n. fst (read_digits 16 0 (pad_zeros 4 (show_hex n))) = n \<and>
     length (pad_zeros 4 (show_hex n)) = 4) [0..<32]"
  by code_simp

lemma control_char_cases:
  assumes "(of_char c :: nat) < 0x20"
  shows "char_of (fst (read_digits 16 0 (pad_zeros 4 (show_hex (of_char c))))) = c"
    and "length (pad_zeros 4 (show_hex (of_char c))) = 4"
proof -
  define n where "n = (of_char c :: nat)"
  have "n \<in> set [0..<32]" using assms by (simp add: n_def)
  then have "fst (read_digits 16 0 (pad_zeros 4 (show_hex n))) = n \<and> length (pad_zeros 4 (show_hex n)) = 4"
    using control_char_table unfolding list_all_iff by blast
  then show "char_of (fst (read_digits 16 0 (pad_zeros 4 (show_hex (of_char c))))) = c"
    and "length (pad_zeros 4 (show_hex (of_char c))) = 4"
    by (simp_all add: n_def)
qed

lemma read_json_char:
  "read_string (json_char c @ rest) = map_option (apfst (\<lambda>t. c # t)) (read_string rest)"
proof (cases "(of_char c :: nat) < 0x20")
  case True
  have e: "take 4 (pad_zeros 4 (show_hex (of_char c)) @ rest) = pad_zeros 4 (show_hex (of_char c))"
    "drop 4 (pad_zeros 4 (show_hex (of_char c)) @ rest) = rest"
    using control_char_cases(2) [OF True] by (simp_all del: take_append drop_append add: take_append [of 4] drop_append [of 4])
  show ?thesis
    using control_char_cases(1) [OF True] True by (simp add: json_char_def e del: take_append drop_append)
next
  case False
  then show ?thesis by (simp add: json_char_def)
qed

lemma read_escaped:
  "read_string (concat (map json_char s) @ [CHR 0x22] @ rest) = Some (s, rest)"
  by (induction s) (simp_all add: read_json_char)

lemma printable_json_char: "printable (json_char c)"
  by (simp add: json_char_def)

lemma printable_quoted [simp]: "printable (quoted s)"
  unfolding quoted_def using printable_json_char by (induction "c_str s") (auto simp: printable_def)

subsection \<open>Objects\<close>

definition fields_ok :: "(string \<times> json_value) list \<Rightarrow> bool" where
  "fields_ok fs = list_all (\<lambda>f. value_ok (snd f)) fs"

lemma fields_ok_simps [simp]:
  "fields_ok []" "fields_ok (f # fs) \<longleftrightarrow> value_ok (snd f) \<and> fields_ok fs"
  "fields_ok (fs @ gs) \<longleftrightarrow> fields_ok fs \<and> fields_ok gs" "fields_ok (duration_fields b s e)"
  by (auto simp: fields_ok_def list_all_iff value_ok_duration)

lemma value_text_last: "value_ok v \<Longrightarrow> value_text v \<noteq> [] \<and> last (value_text v) \<noteq> CHR ''{''"
proof (cases v)
  case (JNum t)
  assume "value_ok v"
  with JNum have "t \<noteq> []" "num_char (last t)" by (simp_all add: value_ok_def list_all_iff)
  with JNum show ?thesis using num_char_plain by auto
qed (simp_all add: quoted_def)

lemma append_field_next:
  "last out \<noteq> CHR ''{'' \<Longrightarrow> append_field f out = out @ '','' @ field_text f"
  by (simp add: append_field_def AppendKey_def AppendEscaped_def field_text_def quoted_def)

lemma append_field_first: "append_field f ''{'' = ''{'' @ field_text f"
  by (simp add: append_field_def AppendKey_def AppendEscaped_def field_text_def quoted_def)

lemma field_text_last: "value_ok (snd f) \<Longrightarrow> field_text f \<noteq> [] \<and> last (field_text f) \<noteq> CHR ''{''"
  using value_text_last by (simp add: field_text_def)

lemma fold_append_field:
  "fields_ok (f # fs) \<Longrightarrow> fold append_field fs (out @ field_text f) = out @ fields_text (f # fs)"
proof (induction fs arbitrary: f out)
  case (Cons g gs)
  then have "last (out @ field_text f) \<noteq> CHR ''{''" using field_text_last [of f] by simp
  then have "append_field g (out @ field_text f) = (out @ field_text f @ '','') @ field_text g"
    by (simp add: append_field_next)
  then show ?case using Cons.IH [of g "out @ field_text f @ '',''"] Cons.prems by simp
qed simp

lemma append_fields_object:
  "fields_ok (f # fs) \<Longrightarrow> fold append_field (f # fs) ''{'' = ''{'' @ fields_text (f # fs)"
  using fold_append_field [of f fs "''{''"] by (simp only: fold_simps append_field_first)

lemma read_value_text:
  assumes "value_ok v" "ends_value c"
  shows "read_value (value_text v @ c # rest) =
    Some (case v of JStr s \<Rightarrow> JStr (c_str s) | _ \<Rightarrow> v, c # rest)"
proof (cases v)
  case (JStr s)
  then show ?thesis using read_escaped [of "c_str s" "c # rest"] by (simp add: quoted_def)
next
  case (JNum t)
  then have t: "t \<noteq> []" and d: "\<forall>x \<in> set t. num_char x"
    using assms(1) by (simp_all add: value_ok_def list_all_iff)
  obtain x xs where x: "t = x # xs" using t by (cases t) auto
  have "x \<noteq> CHR 0x22 \<and> x \<noteq> CHR ''[''" using num_char_plain d x by simp
  moreover have "takeWhile (\<lambda>x. \<not> ends_value x) (t @ c # rest) = t"
    "dropWhile (\<lambda>x. \<not> ends_value x) (t @ c # rest) = c # rest"
    using d num_char_plain assms(2) by (simp_all add: takeWhile_append2 dropWhile_append2)
  ultimately show ?thesis using JNum x by (simp del: takeWhile.simps dropWhile.simps)
next
  case (JArr t)
  then have n: "\<forall>x \<in> set t. x \<noteq> CHR '']''"
    using assms(1) arr_char_plain by (auto simp: value_ok_def list_all_iff)
  have "takeWhile (\<lambda>x. x \<noteq> CHR '']'') (t @ CHR '']'' # c # rest) = t"
    "dropWhile (\<lambda>x. x \<noteq> CHR '']'') (t @ CHR '']'' # c # rest) = CHR '']'' # c # rest"
    using n by (simp_all add: takeWhile_append2 dropWhile_append2)
  then show ?thesis using JArr by simp
qed

text \<open>What a reader sees of a field: its C strings.\<close>

definition seen_field :: "string \<times> json_value \<Rightarrow> string \<times> json_value" where
  "seen_field f = (c_str (fst f), case snd f of JStr s \<Rightarrow> JStr (c_str s) | v \<Rightarrow> v)"

lemma read_field_text:
  assumes "value_ok (snd f)" "ends_value c"
  shows "read_field (field_text f @ c # rest) = Some (seen_field f, c # rest)"
proof -
  have s: "read_string (concat (map json_char (c_str (fst f))) @ CHR 0x22 # CHR '':'' #
      value_text (snd f) @ c # rest) = Some (c_str (fst f), CHR '':'' # value_text (snd f) @ c # rest)"
    using read_escaped [of "c_str (fst f)" "CHR '':'' # value_text (snd f) @ c # rest"] by simp
  have "field_text f @ c # rest = CHR 0x22 # concat (map json_char (c_str (fst f))) @ CHR 0x22 #
      CHR '':'' # value_text (snd f) @ c # rest"
    by (simp add: field_text_def quoted_def)
  then show ?thesis
    by (simp add: read_field_def s read_value_text [OF assms] seen_field_def split: json_value.split)
qed

lemma field_text_length: "1 \<le> length (field_text f)"
  by (simp add: field_text_def quoted_def)

lemma read_fields_text:
  "fields_ok (f # fs) \<Longrightarrow> length fs < n \<Longrightarrow>
     read_fields n (fields_text (f # fs) @ ''}'') = Some (map seen_field (f # fs))"
proof (induction fs arbitrary: f n)
  case Nil
  then obtain m where "n = Suc m" by (cases n) auto
  then show ?case
    using Nil read_field_text [of f "CHR ''}''" "[]"] by (simp add: ends_value_def)
next
  case (Cons g gs)
  then obtain m where n: "n = Suc m" "length gs < m" by (cases n) auto
  have "read_field (field_text f @ CHR '','' # fields_text (g # gs) @ ''}'') =
      Some (seen_field f, CHR '','' # fields_text (g # gs) @ ''}'')"
    using Cons.prems by (intro read_field_text) (simp_all add: ends_value_def)
  moreover have "read_fields m (fields_text (g # gs) @ ''}'') = Some (map seen_field (g # gs))"
    using Cons.prems n(2) by (intro Cons.IH) simp_all
  ultimately show ?case using n by simp
qed

lemma fields_text_length: "length fs < length (fields_text (f # fs) @ ''}'')"
proof (induction fs arbitrary: f)
  case (Cons g gs)
  have "length gs < length (fields_text (g # gs) @ ''}'')" by (rule Cons.IH)
  then show ?case by simp
qed simp

theorem read_object_text:
  "fields_ok (f # fs) \<Longrightarrow>
     read_object (fold append_field (f # fs) ''{'' @ ''}'') = Some (map seen_field (f # fs))"
  using read_fields_text [OF _ fields_text_length [of fs f]]
  by (simp only: append_fields_object) (simp add: read_object_def del: fields_text.simps)

lemma json_object_of_fields: "json_object (map append_field fs) = fold append_field fs ''{'' @ ''}''"
  by (simp add: json_object_def fold_map comp_def)

lemma fields_text_printable:
  assumes "fields_ok fs" shows "printable (fields_text fs)"
proof -
  have v: "value_ok v \<Longrightarrow> printable (value_text v)" for v
    using num_char_plain arr_char_plain printable_quoted
    by (cases v) (auto simp: value_ok_def list_all_iff printable_def)
  then have "value_ok (snd f) \<Longrightarrow> printable (field_text f)" for f
    by (simp add: field_text_def)
  then show ?thesis using assms
    by (induction fs rule: fields_text.induct) auto
qed

end
