(* ===== verification/Log_Properties.thy ===== *)
theory Log_Properties
  imports Dispatch_Log
begin

text \<open>
  What a collector that tails the dispatch log can rely on: every record is one line, every
  line reads back as the record's fields, and the time stamps are cut to the microsecond.
\<close>

section \<open>Lines as field lists\<close>

definition ctx_fields :: "LogCtx \<Rightarrow> (string \<times> json_value) list" where
  "ctx_fields c =
     [(''gpu_id'', JNum (show_dec (unat (cx_gpu_id c)))),
      (''pid'', JNum (show_dec (pid_num (cx_pid c)))),
      (''comm'', JStr (cx_comm c))]"

definition dims_value :: "'a::len word \<times> 'a word \<times> 'a word \<Rightarrow> json_value" where
  "dims_value g =
     (case g of (x, y, z) \<Rightarrow>
        JArr (show_dec (unat x) @ '','' @ show_dec (unat y) @ '','' @ show_dec (unat z)))"

definition dispatch_fields :: "DispatchLog \<Rightarrow> PacketRecord \<Rightarrow> LogCtx \<Rightarrow> (string \<times> json_value) list" where
  "dispatch_fields l r c =
     [(''ts'', JStr (timestamp_text (MonoToUnix l (p_submit_ts r)))), (''ev'', JStr ''dispatch'')] @
     ctx_fields c @
     [(''queue_uid'', JNum (show_dec (unat (p_queue_uid r)))),
      (''dispatch_id'', JNum (show_dec (unat (p_dispatch_id r)))),
      (''kernel'', JStr (p_kernel_name r)),
      (''grid'', dims_value (p_grid r)),
      (''wg'', dims_value (p_wg r)),
      (''lds'', JNum (show_dec (unat (p_group_seg r)))),
      (''scratch'', JNum (show_dec (unat (p_private_seg r))))] @
     duration_fields (p_completed r) (p_submit_ts r) (p_complete_ts r)"

definition sdma_fields :: "DispatchLog \<Rightarrow> SdmaRecord \<Rightarrow> LogCtx \<Rightarrow> (string \<times> json_value) list" where
  "sdma_fields l r c =
     [(''ts'', JStr (timestamp_text (MonoToUnix l (s_submit_ts r)))), (''ev'', JStr ''sdma'')] @
     ctx_fields c @
     [(''queue_uid'', JNum (show_dec (unat (s_queue_uid r)))),
      (''seq'', JNum (show_dec (unat (s_seq r)))),
      (''op'', JStr (s_op_name r))] @
     (if is_copy r
      then [(''dir'', JStr (CopyDirName (s_dir r))), (''bytes'', JNum (show_dec (unat (s_bytes r))))]
      else []) @
     duration_fields (s_completed r) (s_submit_ts r) (s_complete_ts r)"

definition queue_fields :: "DispatchLog \<Rightarrow> QueueInfo \<Rightarrow> string \<Rightarrow> (string \<times> json_value) list" where
  "queue_fields l q kind =
     [(''ts'', JStr (timestamp_text (MonoToUnix l (q_create_ts q)))), (''ev'', JStr ''queue''),
      (''kind'', JStr kind)] @
     ctx_fields \<lparr>cx_gpu_id = q_gpu_id q, cx_pid = q_pid q, cx_comm = q_comm q\<rparr> @
     [(''queue_uid'', JNum (show_dec (unat (q_uid q)))),
      (''qtype'', JNum (show_dec (unat (q_qtype q)))),
      (''ring_size'', JNum (show_dec (unat (q_ring_size q)))),
      (''ring_va'', JStr (hex_addr (q_ring_base q))),
      (''ring_phys'', JStr (hex_addr (q_ring_phys q)))]"

lemma append_dims_value: "AppendDims k (grid_nats g) = append_field (k, dims_value g)"
  by (cases g) (simp add: grid_nats_def dims_value_def)

lemma dims_value_ok [simp]: "value_ok (dims_value g)"
  by (cases g) (simp add: dims_value_def del: append.simps)

lemmas line_fields = dispatch_fields_def sdma_fields_def queue_fields_def ctx_fields_def

lemma line_fields_ok [simp]:
  "fields_ok (dispatch_fields l r c)" "fields_ok (sdma_fields l s c)" "fields_ok (queue_fields l q k)"
  by (simp_all add: line_fields)

lemma json_object_duration:
  "json_object (map append_field fs @ [AppendDuration b s e]) =
     fold append_field (fs @ duration_fields b s e) ''{'' @ ''}''"
  by (simp add: json_object_def fold_map comp_def)

lemma dispatch_line_fields:
  "dispatch_line l r c = fold append_field (dispatch_fields l r c) ''{'' @ ''}''"
  unfolding dispatch_line_def
  by (simp add: json_object_def append_dims_value line_fields)

lemma sdma_line_fields: "sdma_line l r c = fold append_field (sdma_fields l r c) ''{'' @ ''}''"
  unfolding sdma_line_def by (simp add: json_object_def line_fields)

lemma queue_line_fields: "queue_line l q k = fold append_field (queue_fields l q k) ''{'' @ ''}''"
  unfolding queue_line_def by (simp add: json_object_def line_fields)

lemma read_object_fields:
  "fields_ok fs \<Longrightarrow> fs \<noteq> [] \<Longrightarrow>
     read_object (fold append_field fs ''{'' @ ''}'') = Some (map seen_field fs)"
  using read_object_text by (cases fs) (simp_all del: fold_simps)

lemma printable_object:
  "fields_ok fs \<Longrightarrow> fs \<noteq> [] \<Longrightarrow> printable (fold append_field fs ''{'' @ ''}'')"
  using append_fields_object [of "hd fs" "tl fs"] fields_text_printable [of fs]
  by (cases fs) (simp_all del: fold_simps)

lemmas log_lines = dispatch_line_fields sdma_line_fields queue_line_fields

lemma line_fields_nonempty [simp]:
  "dispatch_fields l r c \<noteq> []" "sdma_fields l s c \<noteq> []" "queue_fields l q k \<noteq> []"
  by (simp_all add: line_fields)

lemma duration_keys:
  "fst ` set (duration_fields b s e) = (if b \<and> s < e then {''dur_us''} else {})"
  by (simp add: duration_fields_def)

section \<open>Properties\<close>

text \<open>
  C39: a dispatch line reads back as exactly the record it logs: the fields in order, every
  string unescaped to the C string that was written, and \<^verbatim>\<open>dur_us\<close> present exactly when the
  packet retired after it was submitted.
\<close>

theorem dispatch_line_reads_back:
  "read_object (dispatch_line l r c) = Some (map seen_field (dispatch_fields l r c)) \<and>
   (''dur_us'' \<in> set (map fst (dispatch_fields l r c)) \<longleftrightarrow>
      p_completed r \<and> p_submit_ts r < p_complete_ts r)"
  by (simp add: dispatch_line_fields read_object_fields)
    (simp add: line_fields duration_keys)

text \<open>
  An SDMA line reads back as the record it logs, with direction and size exactly for the
  copy packets.
\<close>

theorem sdma_line_reads_back:
  "read_object (sdma_line l r c) = Some (map seen_field (sdma_fields l r c)) \<and>
   (''bytes'' \<in> set (map fst (sdma_fields l r c)) \<longleftrightarrow> is_copy r)"
  by (simp add: sdma_line_fields read_object_fields)
    (cases "is_copy r"; simp add: line_fields duration_keys)

text \<open>
  C40: every log operation appends one line, and that line holds no control character, whatever
  bytes the kernel name and the process name hold: the log stays one object per line.
\<close>

theorem log_one_line_each:
  "\<exists>x y z. dl_lines (LogDispatch r c l) = dl_lines l @ [x] \<and> printable x \<and>
     dl_lines (LogSdma s c l) = dl_lines l @ [y] \<and> printable y \<and>
     dl_lines (LogQueue q k l) = dl_lines l @ [z] \<and> printable z \<and> CHR 0x0A \<notin> set (x @ y @ z)"
proof -
  have p: "printable (dispatch_line l r c)" "printable (sdma_line l s c)" "printable (queue_line l q k)"
    unfolding log_lines by (intro printable_object; simp)+
  then have "CHR 0x0A \<notin> set (dispatch_line l r c @ sdma_line l s c @ queue_line l q k)"
    by (auto simp: printable_def)
  with p show ?thesis
    by (intro exI [of _ "dispatch_line l r c"] exI [of _ "sdma_line l s c"] exI [of _ "queue_line l q k"])
      (simp add: LogDispatch_def LogSdma_def LogQueue_def WriteLine_def)
qed

lemma truncate_nonneg: "0 \<le> u \<Longrightarrow> truncate_rat u = \<lfloor>u\<rfloor>"
  by (simp add: truncate_rat_def)

text \<open>
  The microseconds of a time stamp are always six digits' worth, and for a time after the
  epoch the stamp is the time cut to the microsecond: never later than it, never a whole
  microsecond earlier.
\<close>

theorem timestamp_cut_to_usec:
  "0 \<le> log_usec u \<and> log_usec u \<le> 999999 \<and>
   (u < 0 \<or> (let t = of_int (truncate_rat u) + of_int (log_usec u) / 1000000
            in t \<le> u \<and> u < t + 1 / 1000000))"
proof -
  have b: "0 \<le> log_usec u \<and> log_usec u \<le> 999999" by (simp add: log_usec_def Let_def)
  have "of_int (truncate_rat u) + of_int (log_usec u) / 1000000 \<le> u \<and>
      u < of_int (truncate_rat u) + of_int (log_usec u) / 1000000 + 1 / 1000000" if "0 \<le> u"
  proof -
    define d where "d = (u - of_int \<lfloor>u\<rfloor>) * 1000000"
    have "0 \<le> u - of_int \<lfloor>u\<rfloor>" "u - of_int \<lfloor>u\<rfloor> < 1" by linarith+
    then have d: "0 \<le> d" "d < 1000000" unfolding d_def by simp_all
    then have "0 \<le> \<lfloor>d\<rfloor>" "\<lfloor>d\<rfloor> \<le> 999999" by linarith+
    moreover have "truncate_rat d = \<lfloor>d\<rfloor>" using d(1) by (rule truncate_nonneg)
    ultimately have "log_usec u = \<lfloor>d\<rfloor>"
      unfolding log_usec_def Let_def truncate_nonneg [OF that] d_def [symmetric] by simp
    then have "of_int (log_usec u) \<le> d" "d < of_int (log_usec u) + 1" by linarith+
    then show ?thesis using that unfolding truncate_nonneg [OF that] d_def by (simp add: field_simps)
  qed
  with b show ?thesis by (auto simp: Let_def)
qed

end
