(* ===== verification/Wire_Format.thy ===== *)
theory Wire_Format
  imports Snoop_Prelude
begin

text \<open>
  The protobuf encoder of \<^verbatim>\<open>src/trace_writer.cpp\<close> (\<^verbatim>\<open>struct Pb\<close>): a buffer of bytes, kept as the
  \<^verbatim>\<open>std::string\<close> it is in the code, and the field writers. Beside it a decoder of the wire
  format and the message trees it yields; encoding a tree and decoding it gives it back.
\<close>

section \<open>The encoder\<close>

type_synonym Pb = string

function Varint :: "Pb \<Rightarrow> u64 \<Rightarrow> Pb" where
  "Varint buf v =
     (if 0x80 \<le> v then Varint (buf @ [char_of (unat ((v AND 0x7F) OR 0x80))]) (drop_bit 7 v)
      else buf @ [char_of (unat v)])"
  by pat_completeness auto
termination
proof (relation "measure (\<lambda>(buf, v). unat v)", goal_cases)
  case (2 buf v)
  then have "0x80 \<le> unat v" by (simp add: word_le_nat_alt)
  then show ?case by (simp add: drop_bit_eq_div unat_div)
qed simp

declare Varint.simps [simp del]

definition Tag :: "Pb \<Rightarrow> nat \<Rightarrow> nat \<Rightarrow> Pb" where
  "Tag buf fld wire = Varint buf (push_bit 3 (of_nat fld) OR of_nat wire)"

definition VarintField :: "Pb \<Rightarrow> nat \<Rightarrow> u64 \<Rightarrow> Pb" where
  "VarintField buf fld v = Varint (Tag buf fld 0) v"

definition StringField :: "Pb \<Rightarrow> nat \<Rightarrow> string \<Rightarrow> Pb" where
  "StringField buf fld s = Varint (Tag buf fld 2) (of_nat (length s)) @ s"

definition MsgField :: "Pb \<Rightarrow> nat \<Rightarrow> Pb \<Rightarrow> Pb" where
  "MsgField buf fld m = Varint (Tag buf fld 2) (of_nat (length m)) @ m"

section \<open>A reference encoder on numbers\<close>

fun varint_bytes :: "nat \<Rightarrow> string" where
  "varint_bytes n =
     (if 128 \<le> n then char_of (128 + n mod 128) # varint_bytes (n div 128) else [char_of n])"

declare varint_bytes.simps [simp del]

lemma shifted_and_low: "push_bit k (a :: nat) AND take_bit k b = 0"
  by (auto simp: bit_eq_iff bit_simps)

lemma low_bits_or_80: "unat (((v :: u64) AND 0x7F) OR 0x80) = 128 + unat v mod 128"
proof -
  have m: "(0x7F :: u64) = mask 7" by (simp add: mask_eq_exp_minus_1)
  have "unat (v AND 0x7F) = unat v mod 128"
    by (simp add: m flip: take_bit_eq_mask) (simp add: take_bit_eq_mod unat_mod)
  then have u: "unat ((v AND 0x7F) OR 0x80) = (unat v mod 128) OR 128"
    by (simp add: unsigned_or_eq)
  have "(unat v mod 128) AND 128 = 0"
    using shifted_and_low [of 7 1 "unat v"] by (simp add: take_bit_eq_mod and.commute)
  then have "unat v mod 128 + 128 = (unat v mod 128) OR 128"
    by (rule disjunctive_add_eq_or)
  with u show ?thesis by simp
qed

lemma Varint_bytes: "Varint buf v = buf @ varint_bytes (unat v)"
proof (induction buf v rule: Varint.induct)
  case (1 buf v)
  show ?case
  proof (cases "0x80 \<le> v")
    case True
    then have "128 \<le> unat v" by (simp add: word_le_nat_alt)
    then show ?thesis
      using 1 [OF True] True
      by (simp add: Varint.simps [of buf v] varint_bytes.simps [of "unat v"] low_bits_or_80
          drop_bit_eq_div unat_div)
  next
    case False
    then have "\<not> 128 \<le> unat v" by (simp add: word_le_nat_alt)
    with False show ?thesis by (simp add: Varint.simps [of buf v] varint_bytes.simps [of "unat v"])
  qed
qed

fun read_varint :: "string \<Rightarrow> (nat \<times> string) option" where
  "read_varint [] = None"
| "read_varint (c # cs) =
     (let b = (of_char c :: nat) in
      if b < 128 then Some (b, cs)
      else map_option (apfst (\<lambda>n. b - 128 + 128 * n)) (read_varint cs))"

lemma of_char_small [simp]: "n < 256 \<Longrightarrow> of_char (char_of n) = (n :: nat)"
  by (simp add: of_char_of)

lemma read_varint_bytes: "read_varint (varint_bytes n @ rest) = Some (n, rest)"
proof (induction n rule: varint_bytes.induct)
  case (1 n)
  show ?case
  proof (cases "128 \<le> n")
    case True
    have "128 + n mod 128 < 256" by (simp add: less_trans [OF add_strict_left_mono [of _ 128]])
    then have o: "of_char (char_of (128 + n mod 128) :: char) = 128 + n mod 128" by (rule of_char_small)
    show ?thesis
      using 1 [OF True] True by (simp add: varint_bytes.simps [of n] o Let_def)
  next
    case False
    then show ?thesis by (simp add: varint_bytes.simps [of n] Let_def)
  qed
qed

lemma varint_length: "n < 128 ^ k \<Longrightarrow> 0 < k \<Longrightarrow> length (varint_bytes n) \<le> k"
proof (induction n arbitrary: k rule: varint_bytes.induct)
  case (1 n)
  show ?case
  proof (cases "128 \<le> n")
    case True
    have "k \<noteq> 1" using True "1.prems" by auto
    then obtain j where j: "k = Suc j" "0 < j" using "1.prems"(2) by (cases k) auto
    have "n div 128 < 128 ^ j" using "1.prems"(1) j by (simp add: less_mult_imp_div_less mult.commute)
    then show ?thesis using "1.IH" [OF True, of j] True j by (simp add: varint_bytes.simps [of n])
  next
    case False
    then show ?thesis using "1.prems"(2) by (simp add: varint_bytes.simps [of n])
  qed
qed

lemma varint_nonempty [simp]: "varint_bytes n \<noteq> []"
  by (simp add: varint_bytes.simps [of n])

section \<open>Sequences of encoded elements\<close>

text \<open>
  A code in which an element can be read off the front of the text, and the elements of a
  text until it is used up.
\<close>

fun read_all :: "nat \<Rightarrow> (string \<Rightarrow> ('a \<times> string) option) \<Rightarrow> string \<Rightarrow> 'a list option" where
  "read_all n rd [] = Some []"
| "read_all 0 rd (c # cs) = None"
| "read_all (Suc n) rd (c # cs) =
     (case rd (c # cs) of
        None \<Rightarrow> None
      | Some (x, rest) \<Rightarrow> map_option (Cons x) (read_all n rd rest))"

locale prefix_code =
  fixes enc :: "'a \<Rightarrow> string"
    and rd :: "string \<Rightarrow> ('a \<times> string) option"
    and ok :: "'a \<Rightarrow> bool"
  assumes read_back: "ok x \<Longrightarrow> rd (enc x @ rest) = Some (x, rest)"
    and nonempty: "ok x \<Longrightarrow> enc x \<noteq> []"
begin

lemma read_all_concat:
  "list_all ok xs \<Longrightarrow> length xs \<le> n \<Longrightarrow> read_all n rd (concat (map enc xs)) = Some xs"
proof (induction xs arbitrary: n)
  case (Cons x xs)
  then obtain m where n: "n = Suc m" by (cases n) auto
  obtain c cs where c: "enc x = c # cs" using nonempty [of x] Cons.prems by (cases "enc x") auto
  have "rd (c # cs @ concat (map enc xs)) = Some (x, concat (map enc xs))"
    using read_back [of x "concat (map enc xs)"] Cons.prems c by simp
  then show ?case using Cons n c by simp
qed simp

lemma read_all_enough:
  assumes "list_all ok xs"
  shows "read_all (length (concat (map enc xs))) rd (concat (map enc xs)) = Some xs"
proof -
  have "length xs \<le> length (concat (map enc xs))"
    using assms
  proof (induction xs)
    case (Cons x xs)
    then have "1 \<le> length (enc x)" using nonempty [of x] by (cases "enc x") auto
    with Cons show ?case by simp
  qed simp
  with assms show ?thesis by (rule read_all_concat)
qed

end

interpretation varint: prefix_code varint_bytes read_varint "\<lambda>_. True"
  by unfold_locales (simp_all add: read_varint_bytes)

section \<open>Fields\<close>

datatype wire_value = WInt nat | WBytes string

definition field_bytes :: "nat \<times> wire_value \<Rightarrow> string" where
  "field_bytes f =
     (case snd f of
        WInt n \<Rightarrow> varint_bytes (8 * fst f) @ varint_bytes n
      | WBytes s \<Rightarrow> varint_bytes (8 * fst f + 2) @ varint_bytes (length s) @ s)"

definition read_wire_field :: "string \<Rightarrow> ((nat \<times> wire_value) \<times> string) option" where
  "read_wire_field s =
     (case read_varint s of
        None \<Rightarrow> None
      | Some (tag, s1) \<Rightarrow>
          (case read_varint s1 of
             None \<Rightarrow> None
           | Some (v, s2) \<Rightarrow>
               if tag mod 8 = 0 then Some ((tag div 8, WInt v), s2)
               else if tag mod 8 = 2 \<and> v \<le> length s2
               then Some ((tag div 8, WBytes (take v s2)), drop v s2)
               else None))"

lemma tag_mod: "Suc (Suc (8 * a)) mod 8 = 2" and tag_div: "Suc (Suc (8 * a)) div 8 = a"
  by presburger+

interpretation wire_field: prefix_code field_bytes read_wire_field "\<lambda>_. True"
proof
  fix f :: "nat \<times> wire_value" and rest
  show "read_wire_field (field_bytes f @ rest) = Some (f, rest)"
    by (cases f; cases "snd f") (simp_all add: field_bytes_def read_wire_field_def read_varint_bytes tag_mod tag_div)
  show "field_bytes f \<noteq> []"
    by (cases f; cases "snd f") (simp_all add: field_bytes_def)
qed

text \<open>Field numbers and lengths that fit: what the encoder is called with.\<close>

lemma tag_word:
  assumes "fld < 2 ^ 60" "wire < 8"
  shows "unat (push_bit 3 (of_nat fld) OR of_nat wire :: u64) = 8 * fld + wire"
proof -
  have f: "unat (of_nat (8 * fld) :: u64) = 8 * fld"
    using assms(1) by (intro unat_of_nat_small) simp
  have w: "unat (of_nat wire :: u64) = wire"
    using assms(2) by (intro unat_of_nat_small) simp
  have p: "push_bit 3 (of_nat fld) = (of_nat (8 * fld) :: u64)" by (simp add: push_bit_eq_mult)
  have "(8 * fld) AND wire = 0"
  proof -
    have "8 * fld = push_bit 3 fld" by (simp add: push_bit_eq_mult)
    moreover have "wire = take_bit 3 wire" using assms(2) by (simp add: take_bit_nat_eq_self)
    ultimately show ?thesis
      by (metis shifted_and_low)
  qed
  then have "8 * fld + wire = (8 * fld) OR wire" by (rule disjunctive_add_eq_or)
  then show ?thesis by (simp only: p unsigned_or_eq f w)
qed

lemma VarintField_bytes:
  "fld < 2 ^ 60 \<Longrightarrow> VarintField buf fld v = buf @ field_bytes (fld, WInt (unat v))"
  using tag_word [of fld 0] by (simp add: VarintField_def Tag_def Varint_bytes field_bytes_def)

lemma StringField_bytes:
  "fld < 2 ^ 60 \<Longrightarrow> length s < 2 ^ 64 \<Longrightarrow> StringField buf fld s = buf @ field_bytes (fld, WBytes s)"
  using tag_word [of fld 2]
  by (simp add: StringField_def Tag_def Varint_bytes field_bytes_def unat_of_nat_small)

lemma MsgField_bytes:
  "fld < 2 ^ 60 \<Longrightarrow> length s < 2 ^ 64 \<Longrightarrow> MsgField buf fld s = buf @ field_bytes (fld, WBytes s)"
  using StringField_bytes [of fld s buf] by (simp add: StringField_def MsgField_def)

section \<open>Messages\<close>

text \<open>
  A message is a list of numbered fields, some of them messages again. The wire format does
  not tell a string from a message: a schema lists, for each depth, the fields that are
  messages.
\<close>

datatype pb_tree = PInt u64 | PStr string | PMsg "(nat \<times> pb_tree) list"

type_synonym pb_msg = "(nat \<times> pb_tree) list"

fun tree_value :: "pb_tree \<Rightarrow> wire_value" where
  "tree_value (PInt v) = WInt (unat v)"
| "tree_value (PStr s) = WBytes s"
| "tree_value (PMsg m) = WBytes (concat (map (\<lambda>f. field_bytes (fst f, tree_value (snd f))) m))"

definition msg_bytes :: "pb_msg \<Rightarrow> string" where
  "msg_bytes m = concat (map (\<lambda>f. field_bytes (fst f, tree_value (snd f))) m)"

definition read_entry ::
  "nat list \<Rightarrow> (string \<Rightarrow> pb_msg option) \<Rightarrow> nat \<times> wire_value \<Rightarrow> (nat \<times> pb_tree) option"
where
  "read_entry here rd f =
     (case snd f of
        WInt v \<Rightarrow> Some (fst f, PInt (of_nat v))
      | WBytes b \<Rightarrow>
          if fst f \<in> set here then map_option (\<lambda>m. (fst f, PMsg m)) (rd b)
          else Some (fst f, PStr b))"

primrec read_msg :: "nat list list \<Rightarrow> string \<Rightarrow> pb_msg option" where
  "read_msg [] = (\<lambda>s. None)"
| "read_msg (here # deeper) =
     (\<lambda>s. case read_all (length s) read_wire_field s of
        None \<Rightarrow> None
      | Some fs \<Rightarrow> those (map (read_entry here (read_msg deeper)) fs))"

fun conforms :: "nat list list \<Rightarrow> pb_msg \<Rightarrow> bool" where
  "conforms [] m = False"
| "conforms (here # deeper) m =
     list_all (\<lambda>f.
       case snd f of
         PInt v \<Rightarrow> True
       | PStr s \<Rightarrow> fst f \<notin> set here
       | PMsg m' \<Rightarrow> fst f \<in> set here \<and> conforms deeper m') m"

lemma those_map_Some: "list_all (\<lambda>x. g x = Some (h x)) xs \<Longrightarrow> those (map g xs) = Some (map h xs)"
  by (induction xs) auto

lemma read_msg_bytes: "conforms schema m \<Longrightarrow> read_msg schema (msg_bytes m) = Some m"
proof (induction schema arbitrary: m)
  case (Cons here deeper)
  let ?w = "\<lambda>f. (fst f, tree_value (snd f))"
  have "msg_bytes m = concat (map field_bytes (map ?w m))" by (simp add: msg_bytes_def comp_def)
  then have r: "read_all (length (msg_bytes m)) read_wire_field (msg_bytes m) = Some (map ?w m)"
    using wire_field.read_all_enough [of "map ?w m"] by (simp add: list_all_iff)
  have "read_entry here (read_msg deeper) (?w f) = Some f" if "f \<in> set m" for f
  proof -
    obtain n v where f: "f = (n, v)" by (cases f)
    have "case snd f of PInt v \<Rightarrow> True | PStr s \<Rightarrow> fst f \<notin> set here
      | PMsg m' \<Rightarrow> fst f \<in> set here \<and> conforms deeper m'"
      using Cons.prems that by (simp add: list_all_iff)
    then show ?thesis using Cons.IH f by (cases v) (simp_all add: msg_bytes_def read_entry_def)
  qed
  then have "those (map (read_entry here (read_msg deeper)) (map ?w m)) = Some m"
    using those_map_Some [of "\<lambda>f. read_entry here (read_msg deeper) (?w f)" id m]
    by (simp add: comp_def list_all_iff)
  with r show ?case by simp
qed simp

text \<open>
  \<open>encodes buf m\<close>: the buffer is the encoding of \<open>m\<close>, provided it is shorter than \<open>2\<^sup>6\<^sup>4\<close> bytes, the
  range of the length prefix. One rule per field writer.
\<close>

definition encodes :: "Pb \<Rightarrow> pb_msg \<Rightarrow> bool" where
  "encodes buf m = (length buf < 2 ^ 64 \<longrightarrow> buf = msg_bytes m)"

named_theorems encode_intros "how the field writers extend an encoded message"

lemma encodes_empty [encode_intros]: "encodes [] []"
  by (simp add: encodes_def msg_bytes_def)

lemma VarintField_encodes [encode_intros]:
  assumes "encodes buf m" "fld < 2 ^ 60"
  shows "encodes (VarintField buf fld v) (m @ [(fld, PInt v)])"
  using assms by (simp add: encodes_def VarintField_bytes msg_bytes_def)

lemma MsgField_longer:
  "length buf \<le> length (MsgField buf fld s)" "length s \<le> length (MsgField buf fld s)"
  by (simp_all add: MsgField_def Tag_def Varint_bytes)

lemma StringField_encodes [encode_intros]:
  assumes "encodes buf m" "fld < 2 ^ 60"
  shows "encodes (StringField buf fld s) (m @ [(fld, PStr s)])"
  unfolding encodes_def
proof
  assume l: "length (StringField buf fld s) < 2 ^ 64"
  then have "length s < 2 ^ 64" "length buf < 2 ^ 64"
    using MsgField_longer [where buf = buf and fld = fld and s = s]
    by (simp_all add: StringField_def MsgField_def)
  with assms show "StringField buf fld s = msg_bytes (m @ [(fld, PStr s)])"
    by (simp add: encodes_def StringField_bytes msg_bytes_def)
qed

lemma MsgField_encodes [encode_intros]:
  assumes "encodes buf m" "encodes sub m'" "fld < 2 ^ 60"
  shows "encodes (MsgField buf fld sub) (m @ [(fld, PMsg m')])"
  unfolding encodes_def
proof
  assume l: "length (MsgField buf fld sub) < 2 ^ 64"
  then have s: "length sub < 2 ^ 64" and "length buf < 2 ^ 64"
    using MsgField_longer [where buf = buf and fld = fld and s = sub] by simp_all
  then have "buf = msg_bytes m" "sub = msg_bytes m'" using assms by (simp_all add: encodes_def)
  with s assms(3) show "MsgField buf fld sub = msg_bytes (m @ [(fld, PMsg m')])"
    by (simp add: MsgField_bytes msg_bytes_def)
qed

lemma encodes_read:
  "encodes buf m \<Longrightarrow> length buf < 2 ^ 64 \<Longrightarrow> conforms schema m \<Longrightarrow> read_msg schema buf = Some m"
  by (simp add: encodes_def read_msg_bytes)

end
