(* ===== verification/Trace_Writer.thy ===== *)
theory Trace_Writer
  imports Wire_Format Dispatch_Log "HOL-Library.Product_Lexorder"
begin

text \<open>
  \<^verbatim>\<open>src/trace_writer.h\<close> and \<^verbatim>\<open>src/trace_writer.cpp\<close>: the buffered records and the two trace
  formats. The output file is the text written to it, \<open>None\<close> when it cannot be opened; the
  standard library's string hash is the parameter \<open>hash\<close>.
\<close>

section \<open>Text helpers\<close>

definition kMinDurSec :: seconds where
  "kMinDurSec = 1 / 10000000"

definition escape_char :: "char \<Rightarrow> string" where
  "escape_char c =
     (if c = CHR 0x22 \<or> c = CHR 0x5C then [CHR 0x5C, c]
      else if c = CHR 0x0A then [CHR 0x5C, CHR ''n'']
      else [c])"

definition JsonEscape :: "string \<Rightarrow> string" where
  "JsonEscape s = concat (map escape_char s)"

definition Dims :: "u32 \<times> u32 \<times> u32 \<Rightarrow> string" where
  "Dims g =
     (case g of (x, y, z) \<Rightarrow>
        show_dec (unat x) @ '' x '' @ show_dec (unat y) @ '' x '' @ show_dec (unat z))"

definition Dims16 :: "u16 \<times> u16 \<times> u16 \<Rightarrow> string" where
  "Dims16 g =
     (case g of (x, y, z) \<Rightarrow>
        show_dec (unat x) @ '' x '' @ show_dec (unat y) @ '' x '' @ show_dec (unat z))"

text \<open>Casts of a \<^verbatim>\<open>double\<close> to \<^verbatim>\<open>uint64_t\<close> are those of values in range.\<close>

definition NsOf :: "seconds \<Rightarrow> u64" where
  "NsOf sec = word_of_int (truncate_rat (sec * 1000000000))"

definition QueueTrackUuid :: "u64 \<Rightarrow> u64" where
  "QueueTrackUuid uid = 0x51000000 + uid"

definition AisTrackUuid :: "(string \<Rightarrow> u64) \<Rightarrow> c_int \<Rightarrow> string \<Rightarrow> u64" where
  "AisTrackUuid hash pid pcie_id =
     0xA1500000 OR push_bit 16 (ucast (word_of_int pid :: u32)) OR (hash pcie_id AND 0xFFFF)"

text \<open>\<^verbatim>\<open>snprintf\<close> into a \<^verbatim>\<open>char[128]\<close>.\<close>

definition queue_label :: "QueueInfo \<Rightarrow> string" where
  "queue_label q =
     take 127
       ((if is_sdma q then ''sdma'' else ''aql'') @ '' queue '' @ show_dec (unat (q_uid q)) @
        '' (gpu '' @ show_dec (unat (q_gpu_id q)) @ '')'')"

section \<open>The writer\<close>

datatype Format = kPerfetto | kJson

record TraceWriter =
  tw_fmt :: Format
  tw_records :: "PacketRecord list"
  tw_sdma_records :: "SdmaRecord list"
  tw_ais_records :: "AisRecord list"
  tw_queues :: "(u64, QueueInfo) odict"

definition new_TraceWriter :: "Format \<Rightarrow> TraceWriter" where
  "new_TraceWriter fmt =
     \<lparr> tw_fmt = fmt, tw_records = [], tw_sdma_records = [], tw_ais_records = [], tw_queues = [] \<rparr>"

definition Add_packet :: "PacketRecord \<Rightarrow> TraceWriter \<Rightarrow> TraceWriter" where
  "Add_packet r w = w\<lparr>tw_records := tw_records w @ [r]\<rparr>"

definition Add_sdma :: "SdmaRecord \<Rightarrow> TraceWriter \<Rightarrow> TraceWriter" where
  "Add_sdma r w = w\<lparr>tw_sdma_records := tw_sdma_records w @ [r]\<rparr>"

definition Add_ais :: "AisRecord \<Rightarrow> TraceWriter \<Rightarrow> TraceWriter" where
  "Add_ais r w = w\<lparr>tw_ais_records := tw_ais_records w @ [r]\<rparr>"

definition RegisterQueue :: "QueueInfo \<Rightarrow> TraceWriter \<Rightarrow> TraceWriter" where
  "RegisterQueue q w = w\<lparr>tw_queues := od_assign (q_uid q) q (tw_queues w)\<rparr>"

definition trace_count :: "TraceWriter \<Rightarrow> nat" where
  "trace_count w =
     length (tw_records w) + length (tw_sdma_records w) + length (tw_ais_records w)"

text \<open>\<^verbatim>\<open>queues_.count(uid) ? queues_[uid] : QueueInfo{}\<close>.\<close>

definition queue_or_default :: "(u64, QueueInfo) odict \<Rightarrow> u64 \<Rightarrow> QueueInfo" where
  "queue_or_default m uid = (case map_of m uid of Some q \<Rightarrow> q | None \<Rightarrow> new_QueueInfo)"

section \<open>The JSON trace\<close>

definition jq :: "string \<Rightarrow> string" where
  "jq s = [CHR 0x22] @ s @ [CHR 0x22]"

definition jraw :: "string \<Rightarrow> string \<Rightarrow> string" where
  "jraw k v = jq k @ '':'' @ v"

definition jstr :: "string \<Rightarrow> string \<Rightarrow> string" where
  "jstr k v = jraw k (jq v)"

definition jnum :: "string \<Rightarrow> 'a::len word \<Rightarrow> string" where
  "jnum k v = jraw k (show_dec (unat v))"

definition jhex :: "string \<Rightarrow> u64 \<Rightarrow> string" where
  "jhex k v = jstr k (''0x'' @ show_hex (unat v))"

fun join_with :: "string \<Rightarrow> string list \<Rightarrow> string" where
  "join_with sep [] = []"
| "join_with sep [x] = x"
| "join_with sep (x # xs) = x @ sep @ join_with sep xs"

definition jobj :: "string list \<Rightarrow> string" where
  "jobj fs = ''{'' @ join_with '','' fs @ ''}''"

text \<open>The \<^verbatim>\<open>first\<close> flag and the file: each event after the first is preceded by a separator.\<close>

definition emit :: "string \<Rightarrow> bool \<times> string \<Rightarrow> bool \<times> string" where
  "emit ev s = (case s of (first, f) \<Rightarrow> (False, f @ (if first then [] else '',\<newline>'') @ ev))"

definition min_dur :: "seconds \<Rightarrow> seconds" where
  "min_dur d = (if d < kMinDurSec then kMinDurSec else d)"

definition json_queue_events :: "QueueInfo \<Rightarrow> string list" where
  "json_queue_events q =
     [jobj [jstr ''ph'' ''M'', jstr ''name'' ''process_name'', jraw ''pid'' (show_int (q_pid q)),
        jraw ''tid'' ''0'',
        jraw ''args'' (jobj [jstr ''name'' (JsonEscape (q_comm q) @ '' ('' @ show_int (q_pid q) @ '')'')])],
      jobj [jstr ''ph'' ''M'', jstr ''name'' ''thread_name'', jraw ''pid'' (show_int (q_pid q)),
        jnum ''tid'' (q_uid q), jraw ''args'' (jobj [jstr ''name'' (queue_label q)])]]"

text \<open>The head of a slice: process, track, time and duration in microseconds, name, arguments.\<close>

definition json_slice ::
  "c_int \<Rightarrow> u64 \<Rightarrow> seconds \<Rightarrow> seconds \<Rightarrow> string \<Rightarrow> string list \<Rightarrow> string"
where
  "json_slice pid tid submit_ts dur name args =
     jobj [jstr ''ph'' ''X'', jraw ''pid'' (show_int pid), jnum ''tid'' tid,
       jraw ''ts'' (show_double (submit_ts * 1000000)), jraw ''dur'' (show_double (dur * 1000000)),
       jstr ''name'' (JsonEscape name), jraw ''args'' (jobj args)]"

definition ring_phys_arg :: "QueueInfo \<Rightarrow> string list" where
  "ring_phys_arg q = (if q_ring_phys q \<noteq> 0 then [jhex ''ring_phys'' (q_ring_phys q)] else [])"

definition dispatch_like :: "PacketType \<Rightarrow> bool" where
  "dispatch_like t = (t = KernelDispatch \<or> t = VendorSpecific)"

definition json_packet_event :: "(u64, QueueInfo) odict \<Rightarrow> PacketRecord \<Rightarrow> string" where
  "json_packet_event queues r =
     (let q = queue_or_default queues (p_queue_uid r) in
      json_slice (q_pid q) (p_queue_uid r) (p_submit_ts r)
        (min_dur (p_complete_ts r - p_submit_ts r)) (p_kernel_name r)
        ([jstr ''type'' (PacketTypeName (p_type r)), jnum ''dispatch_id'' (p_dispatch_id r),
          jraw ''barrier'' (if p_barrier r then ''true'' else ''false'')] @
         (if dispatch_like (p_type r)
          then [jstr ''grid'' (Dims (p_grid r)), jstr ''workgroup'' (Dims16 (p_wg r)),
            jhex ''kernel_object'' (p_kernel_object r), jnum ''private_seg'' (p_private_seg r),
            jnum ''group_seg'' (p_group_seg r), jhex ''completion_signal'' (p_completion_signal r)]
          else []) @
         ring_phys_arg q))"

definition json_sdma_event :: "(u64, QueueInfo) odict \<Rightarrow> SdmaRecord \<Rightarrow> string" where
  "json_sdma_event queues r =
     (let q = queue_or_default queues (s_queue_uid r) in
      json_slice (q_pid q) (s_queue_uid r) (s_submit_ts r)
        (min_dur (s_complete_ts r - s_submit_ts r)) (s_op_name r)
        ([jnum ''opcode'' (s_opcode r), jnum ''seq'' (s_seq r)] @
         (if is_copy r
          then [jnum ''bytes'' (s_bytes r), jstr ''direction'' (CopyDirName (s_dir r)),
            jhex ''src'' (s_src_addr r), jhex ''dst'' (s_dst_addr r)]
          else []) @
         ring_phys_arg q))"

definition ais_tid :: "(string \<Rightarrow> u64) \<Rightarrow> string \<Rightarrow> u64" where
  "ais_tid hash pcie_id = 0xA15 * 0x10000 + (hash pcie_id AND 0xFFFF)"

definition ais_label :: "AisRecord \<Rightarrow> string" where
  "ais_label r =
     ''ais/'' @ AisOpName (a_op r) @
     (if a_pcie_id r \<noteq> [] \<and> a_pcie_id r \<noteq> ''unknown'' then '' ['' @ a_pcie_id r @ '']'' else [])"

definition json_ais_event :: "(string \<Rightarrow> u64) \<Rightarrow> AisRecord \<Rightarrow> string" where
  "json_ais_event hash r =
     json_slice (a_pid r) (ais_tid hash (a_pcie_id r)) (a_submit_ts r)
       (min_dur (if a_completed r then a_complete_ts r - a_submit_ts r else 0)) (ais_label r)
       [jstr ''op'' (AisOpName (a_op r)), jnum ''gpu_id'' (a_gpu_id r),
        jstr ''pcie_id'' (JsonEscape (a_pcie_id r)), jnum ''size_req'' (a_size_req r),
        jnum ''size_copied'' (a_size_copied r), jraw ''error'' (show_int (a_error r)),
        jnum ''seq'' (a_seq r)]"

definition json_events :: "(string \<Rightarrow> u64) \<Rightarrow> TraceWriter \<Rightarrow> string list" where
  "json_events hash w =
     concat (map (\<lambda>kv. json_queue_events (snd kv)) (tw_queues w)) @
     map (json_packet_event (tw_queues w)) (tw_records w) @
     map (json_sdma_event (tw_queues w)) (tw_sdma_records w) @
     map (json_ais_event hash) (tw_ais_records w)"

definition WriteJson :: "(string \<Rightarrow> u64) \<Rightarrow> bool \<Rightarrow> TraceWriter \<Rightarrow> string option" where
  "WriteJson hash opened w =
     (if \<not> opened then None
      else Some (snd (fold emit (json_events hash w) (True, ''{'' @ jq ''traceEvents'' @ '':[\<newline>'')) @
        ''\<newline>]}\<newline>''))"

section \<open>The Perfetto trace\<close>

text \<open>Field numbers of the Perfetto protos.\<close>

definition kTracePacket :: nat where "kTracePacket = 1"
definition kTimestamp :: nat where "kTimestamp = 8"
definition kSeqId :: nat where "kSeqId = 10"
definition kTrackEvent :: nat where "kTrackEvent = 11"
definition kTrackDescriptor :: nat where "kTrackDescriptor = 60"
definition kTdUuid :: nat where "kTdUuid = 1"
definition kTdName :: nat where "kTdName = 2"
definition kTdProcess :: nat where "kTdProcess = 3"
definition kTdParentUuid :: nat where "kTdParentUuid = 5"
definition kPdPid :: nat where "kPdPid = 1"
definition kPdName :: nat where "kPdName = 6"
definition kTeType :: nat where "kTeType = 9"
definition kTeTrackUuid :: nat where "kTeTrackUuid = 11"
definition kTeName :: nat where "kTeName = 23"
definition kTeDebug :: nat where "kTeDebug = 4"
definition kDaName :: nat where "kDaName = 10"
definition kDaStr :: nat where "kDaStr = 6"
definition kDaUint :: nat where "kDaUint = 4"
definition kTypeSliceBegin :: u64 where "kTypeSliceBegin = 1"
definition kTypeSliceEnd :: u64 where "kTypeSliceEnd = 2"
definition kSeq :: u64 where "kSeq = 1"

lemmas pf_numbers = kTracePacket_def kTimestamp_def kSeqId_def kTrackEvent_def
  kTrackDescriptor_def kTdUuid_def kTdName_def kTdProcess_def kTdParentUuid_def kPdPid_def
  kPdName_def kTeType_def kTeTrackUuid_def kTeName_def kTeDebug_def kDaName_def kDaStr_def
  kDaUint_def

definition DebugStr :: "string \<Rightarrow> string \<Rightarrow> Pb" where
  "DebugStr name val = StringField (StringField [] kDaName name) kDaStr val"

definition DebugUint :: "string \<Rightarrow> u64 \<Rightarrow> Pb" where
  "DebugUint name val = VarintField (StringField [] kDaName name) kDaUint val"

subsection \<open>Track descriptors\<close>

definition emit_process :: "Pb \<Rightarrow> c_int \<Rightarrow> string \<Rightarrow> Pb" where
  "emit_process trace pid comm =
     (let proc = StringField (VarintField [] kPdPid (c_int_to_u64 pid)) kPdName comm;
          td = MsgField (VarintField [] kTdUuid (c_int_to_u64 pid)) kTdProcess proc;
          pkt = MsgField [] kTrackDescriptor td
      in MsgField trace kTracePacket pkt)"

definition emit_track :: "Pb \<Rightarrow> u64 \<Rightarrow> string \<Rightarrow> c_int \<Rightarrow> Pb" where
  "emit_track trace uuid label pid =
     (let td = VarintField (StringField (VarintField [] kTdUuid uuid) kTdName label)
            kTdParentUuid (c_int_to_u64 pid);
          pkt = MsgField [] kTrackDescriptor td
      in MsgField trace kTracePacket pkt)"

fun queue_descriptors :: "QueueInfo list \<Rightarrow> c_int list \<Rightarrow> Pb \<Rightarrow> c_int list \<times> Pb" where
  "queue_descriptors [] seen_pid trace = (seen_pid, trace)"
| "queue_descriptors (q # qs) seen_pid trace =
     (let fresh = q_pid q \<notin> set seen_pid;
          trace1 = (if fresh then emit_process trace (q_pid q) (q_comm q) else trace);
          seen1 = (if fresh then q_pid q # seen_pid else seen_pid)
      in queue_descriptors qs seen1
           (emit_track trace1 (QueueTrackUuid (q_uid q)) (queue_label q) (q_pid q)))"

text \<open>The key \<^verbatim>\<open>"pid:pcie_id"\<close> of an AIS track and its label, cut to \<^verbatim>\<open>char[256]\<close>.\<close>

definition ais_track_key :: "AisRecord \<Rightarrow> string" where
  "ais_track_key r = show_int (a_pid r) @ '':'' @ a_pcie_id r"

definition ais_track_label :: "AisRecord \<Rightarrow> string" where
  "ais_track_label r =
     take 255 (''ais [gpu '' @ show_dec (unat (a_gpu_id r)) @ ''] ['' @ c_str (a_pcie_id r) @ '']'')"

fun ais_descriptors ::
  "(string \<Rightarrow> u64) \<Rightarrow> c_int list \<Rightarrow> AisRecord list \<Rightarrow> c_int list \<Rightarrow> string list \<Rightarrow> Pb \<Rightarrow> Pb"
where
  "ais_descriptors hash seen_pid [] ais_seen_pid ais_seen_track trace = trace"
| "ais_descriptors hash seen_pid (r # rs) ais_seen_pid ais_seen_track trace =
     (if ais_track_key r \<in> set ais_seen_track
      then ais_descriptors hash seen_pid rs ais_seen_pid ais_seen_track trace
      else
        let fresh = a_pid r \<notin> set seen_pid \<and> a_pid r \<notin> set ais_seen_pid;
            trace1 = (if fresh then emit_process trace (a_pid r) (a_comm r) else trace);
            seen1 = (if fresh then a_pid r # ais_seen_pid else ais_seen_pid)
        in ais_descriptors hash seen_pid rs seen1 (ais_track_key r # ais_seen_track)
             (emit_track trace1 (AisTrackUuid hash (a_pid r) (a_pcie_id r)) (ais_track_label r) (a_pid r)))"

subsection \<open>Events\<close>

record 'r Ev =
  ev_ts :: u64
  ev_begin :: bool
  ev_rec :: 'r

definition slice_end_time :: "seconds \<Rightarrow> seconds \<Rightarrow> seconds" where
  "slice_end_time submit_ts complete_ts =
     (if complete_ts - submit_ts < kMinDurSec then submit_ts + kMinDurSec else complete_ts)"

definition make_evs :: "('r \<Rightarrow> seconds) \<Rightarrow> ('r \<Rightarrow> seconds) \<Rightarrow> 'r list \<Rightarrow> 'r Ev list" where
  "make_evs submit_of complete_of rs =
     concat (map (\<lambda>r.
       [\<lparr>ev_ts = NsOf (submit_of r), ev_begin = True, ev_rec = r\<rparr>,
        \<lparr>ev_ts = NsOf (slice_end_time (submit_of r) (complete_of r)), ev_begin = False, ev_rec = r\<rparr>]) rs)"

text \<open>The comparator: by time, an end before a begin at equal times.\<close>

definition ev_key :: "'r Ev \<Rightarrow> u64 \<times> bool" where
  "ev_key e = (ev_ts e, ev_begin e)"

definition stable_sort :: "'r Ev list \<Rightarrow> 'r Ev list" where
  "stable_sort evs = sort_key ev_key evs"

definition emit_event :: "Pb \<Rightarrow> u64 \<Rightarrow> Pb \<Rightarrow> Pb" where
  "emit_event trace ts te =
     MsgField trace kTracePacket
       (VarintField (MsgField (VarintField [] kTimestamp ts) kTrackEvent te) kSeqId kSeq)"

definition add_debug :: "Pb list \<Rightarrow> Pb \<Rightarrow> Pb" where
  "add_debug ds te = fold (\<lambda>d t. MsgField t kTeDebug d) ds te"

definition slice_begin :: "u64 \<Rightarrow> string \<Rightarrow> Pb list \<Rightarrow> Pb" where
  "slice_begin track name ds =
     add_debug ds
       (StringField (VarintField (VarintField [] kTeTrackUuid track) kTeType kTypeSliceBegin) kTeName name)"

definition slice_end :: "u64 \<Rightarrow> Pb" where
  "slice_end track = VarintField (VarintField [] kTeTrackUuid track) kTeType kTypeSliceEnd"

definition packet_debug :: "QueueInfo \<Rightarrow> PacketRecord \<Rightarrow> Pb list" where
  "packet_debug q r =
     [DebugStr ''type'' (PacketTypeName (p_type r)), DebugUint ''dispatch_id'' (p_dispatch_id r)] @
     (if dispatch_like (p_type r)
      then [DebugStr ''grid'' (Dims (p_grid r)), DebugStr ''workgroup'' (Dims16 (p_wg r)),
        DebugUint ''kernel_object'' (p_kernel_object r),
        DebugUint ''group_seg'' (ucast (p_group_seg r)),
        DebugUint ''private_seg'' (ucast (p_private_seg r)),
        DebugUint ''completion_signal'' (p_completion_signal r)]
      else []) @
     (if q_ring_phys q \<noteq> 0 then [DebugUint ''ring_phys'' (q_ring_phys q)] else [])"

text \<open>\<^verbatim>\<open>queues_[uid]\<close> in the AQL loop inserts a default queue for an unknown uid.\<close>

fun packet_events ::
  "PacketRecord Ev list \<Rightarrow> (u64, QueueInfo) odict \<Rightarrow> Pb \<Rightarrow> (u64, QueueInfo) odict \<times> Pb"
where
  "packet_events [] queues trace = (queues, trace)"
| "packet_events (e # es) queues trace =
     (let r = ev_rec e; track = QueueTrackUuid (p_queue_uid r) in
      if ev_begin e
      then let queues1 = od_emplace (p_queue_uid r) new_QueueInfo queues;
               q = queue_or_default queues1 (p_queue_uid r)
           in packet_events es queues1
                (emit_event trace (ev_ts e) (slice_begin track (p_kernel_name r) (packet_debug q r)))
      else packet_events es queues (emit_event trace (ev_ts e) (slice_end track)))"

definition sdma_debug :: "SdmaRecord \<Rightarrow> Pb list" where
  "sdma_debug r =
     [DebugUint ''opcode'' (ucast (s_opcode r)), DebugUint ''seq'' (s_seq r)] @
     (if is_copy r
      then [DebugUint ''bytes'' (s_bytes r), DebugStr ''direction'' (CopyDirName (s_dir r)),
        DebugUint ''src'' (s_src_addr r), DebugUint ''dst'' (s_dst_addr r)]
      else [])"

definition sdma_event :: "SdmaRecord Ev \<Rightarrow> Pb \<Rightarrow> Pb" where
  "sdma_event e trace =
     (let r = ev_rec e; track = QueueTrackUuid (s_queue_uid r) in
      emit_event trace (ev_ts e)
        (if ev_begin e then slice_begin track (s_op_name r) (sdma_debug r) else slice_end track))"

definition ais_debug :: "AisRecord \<Rightarrow> Pb list" where
  "ais_debug r =
     [DebugStr ''op'' (AisOpName (a_op r)), DebugUint ''gpu_id'' (ucast (a_gpu_id r)),
      DebugStr ''pcie_id'' (a_pcie_id r), DebugUint ''size_req'' (a_size_req r),
      DebugUint ''size_copied'' (a_size_copied r)] @
     (if is_error r then [DebugStr ''error'' (show_int (a_error r))] else []) @
     [DebugUint ''seq'' (a_seq r)]"

definition ais_event :: "(string \<Rightarrow> u64) \<Rightarrow> AisRecord Ev \<Rightarrow> Pb \<Rightarrow> Pb" where
  "ais_event hash e trace =
     (let r = ev_rec e; track = AisTrackUuid hash (a_pid r) (a_pcie_id r) in
      emit_event trace (ev_ts e)
        (if ev_begin e then slice_begin track (''ais/'' @ AisOpName (a_op r)) (ais_debug r)
         else slice_end track))"

definition perfetto_trace ::
  "(string \<Rightarrow> u64) \<Rightarrow> TraceWriter \<Rightarrow> (u64, QueueInfo) odict \<times> Pb"
where
  "perfetto_trace hash w =
     (case queue_descriptors (map snd (tw_queues w)) [] [] of (seen_pid, t1) \<Rightarrow>
      case packet_events (stable_sort (make_evs p_submit_ts p_complete_ts (tw_records w)))
             (tw_queues w) t1 of (queues, t2) \<Rightarrow>
        let t3 = fold sdma_event (stable_sort (make_evs s_submit_ts s_complete_ts (tw_sdma_records w))) t2;
            t4 = ais_descriptors hash seen_pid (tw_ais_records w) [] [] t3
        in (queues,
            fold (ais_event hash) (stable_sort (make_evs a_submit_ts a_complete_ts (tw_ais_records w))) t4))"

text \<open>The trace is built, and the queue map extended, before the file is opened.\<close>

definition WritePerfetto ::
  "(string \<Rightarrow> u64) \<Rightarrow> bool \<Rightarrow> TraceWriter \<Rightarrow> string option \<times> TraceWriter"
where
  "WritePerfetto hash opened w =
     (case perfetto_trace hash w of (queues, trace) \<Rightarrow>
        (if opened then Some trace else None, w\<lparr>tw_queues := queues\<rparr>))"

definition Write :: "(string \<Rightarrow> u64) \<Rightarrow> bool \<Rightarrow> TraceWriter \<Rightarrow> string option \<times> TraceWriter" where
  "Write hash opened w =
     (if tw_fmt w = kJson then (WriteJson hash opened w, w) else WritePerfetto hash opened w)"

end
