(* ===== verification/Trace_Properties.thy ===== *)
theory Trace_Properties
  imports Trace_Writer
begin

text \<open>
  What the written traces mean: the Perfetto file decodes to one message per descriptor and
  event, slices open before they close, and the JSON escaping is right exactly for strings
  without control characters.
\<close>

section \<open>The trace as a message tree\<close>

definition dbg_str :: "string \<Rightarrow> string \<Rightarrow> nat \<times> pb_tree" where
  "dbg_str name val = (kTeDebug, PMsg [(kDaName, PStr name), (kDaStr, PStr val)])"

definition dbg_uint :: "string \<Rightarrow> u64 \<Rightarrow> nat \<times> pb_tree" where
  "dbg_uint name val = (kTeDebug, PMsg [(kDaName, PStr name), (kDaUint, PInt val)])"

definition process_tree :: "c_int \<Rightarrow> string \<Rightarrow> nat \<times> pb_tree" where
  "process_tree pid comm =
     (kTracePacket, PMsg [(kTrackDescriptor, PMsg
       [(kTdUuid, PInt (c_int_to_u64 pid)),
        (kTdProcess, PMsg [(kPdPid, PInt (c_int_to_u64 pid)), (kPdName, PStr comm)])])])"

definition track_tree :: "u64 \<Rightarrow> string \<Rightarrow> c_int \<Rightarrow> nat \<times> pb_tree" where
  "track_tree uuid label pid =
     (kTracePacket, PMsg [(kTrackDescriptor, PMsg
       [(kTdUuid, PInt uuid), (kTdName, PStr label), (kTdParentUuid, PInt (c_int_to_u64 pid))])])"

definition event_tree :: "u64 \<Rightarrow> pb_msg \<Rightarrow> nat \<times> pb_tree" where
  "event_tree ts te =
     (kTracePacket, PMsg [(kTimestamp, PInt ts), (kTrackEvent, PMsg te), (kSeqId, PInt kSeq)])"

definition begin_tree :: "u64 \<Rightarrow> string \<Rightarrow> pb_msg \<Rightarrow> pb_msg" where
  "begin_tree track name ds =
     [(kTeTrackUuid, PInt track), (kTeType, PInt kTypeSliceBegin), (kTeName, PStr name)] @ ds"

definition end_tree :: "u64 \<Rightarrow> pb_msg" where
  "end_tree track = [(kTeTrackUuid, PInt track), (kTeType, PInt kTypeSliceEnd)]"

definition packet_args :: "QueueInfo \<Rightarrow> PacketRecord \<Rightarrow> pb_msg" where
  "packet_args q r =
     [dbg_str ''type'' (PacketTypeName (p_type r)), dbg_uint ''dispatch_id'' (p_dispatch_id r)] @
     (if dispatch_like (p_type r)
      then [dbg_str ''grid'' (Dims (p_grid r)), dbg_str ''workgroup'' (Dims16 (p_wg r)),
        dbg_uint ''kernel_object'' (p_kernel_object r),
        dbg_uint ''group_seg'' (ucast (p_group_seg r)),
        dbg_uint ''private_seg'' (ucast (p_private_seg r)),
        dbg_uint ''completion_signal'' (p_completion_signal r)]
      else []) @
     (if q_ring_phys q \<noteq> 0 then [dbg_uint ''ring_phys'' (q_ring_phys q)] else [])"

definition sdma_args :: "SdmaRecord \<Rightarrow> pb_msg" where
  "sdma_args r =
     [dbg_uint ''opcode'' (ucast (s_opcode r)), dbg_uint ''seq'' (s_seq r)] @
     (if is_copy r
      then [dbg_uint ''bytes'' (s_bytes r), dbg_str ''direction'' (CopyDirName (s_dir r)),
        dbg_uint ''src'' (s_src_addr r), dbg_uint ''dst'' (s_dst_addr r)]
      else [])"

definition ais_args :: "AisRecord \<Rightarrow> pb_msg" where
  "ais_args r =
     [dbg_str ''op'' (AisOpName (a_op r)), dbg_uint ''gpu_id'' (ucast (a_gpu_id r)),
      dbg_str ''pcie_id'' (a_pcie_id r), dbg_uint ''size_req'' (a_size_req r),
      dbg_uint ''size_copied'' (a_size_copied r)] @
     (if is_error r then [dbg_str ''error'' (show_int (a_error r))] else []) @
     [dbg_uint ''seq'' (a_seq r)]"

definition packet_tree :: "(u64, QueueInfo) odict \<Rightarrow> PacketRecord Ev \<Rightarrow> nat \<times> pb_tree" where
  "packet_tree queues e =
     (let r = ev_rec e; track = QueueTrackUuid (p_queue_uid r) in
      event_tree (ev_ts e)
        (if ev_begin e
         then begin_tree track (p_kernel_name r) (packet_args (queue_or_default queues (p_queue_uid r)) r)
         else end_tree track))"

definition sdma_tree :: "SdmaRecord Ev \<Rightarrow> nat \<times> pb_tree" where
  "sdma_tree e =
     (let r = ev_rec e; track = QueueTrackUuid (s_queue_uid r) in
      event_tree (ev_ts e)
        (if ev_begin e then begin_tree track (s_op_name r) (sdma_args r) else end_tree track))"

definition ais_tree :: "(string \<Rightarrow> u64) \<Rightarrow> AisRecord Ev \<Rightarrow> nat \<times> pb_tree" where
  "ais_tree hash e =
     (let r = ev_rec e; track = AisTrackUuid hash (a_pid r) (a_pcie_id r) in
      event_tree (ev_ts e)
        (if ev_begin e then begin_tree track (''ais/'' @ AisOpName (a_op r)) (ais_args r)
         else end_tree track))"

text \<open>Descriptors: a process track before the first track of its process.\<close>

fun queue_trees :: "c_int set \<Rightarrow> QueueInfo list \<Rightarrow> pb_msg" where
  "queue_trees seen [] = []"
| "queue_trees seen (q # qs) =
     (if q_pid q \<in> seen then [] else [process_tree (q_pid q) (q_comm q)]) @
     [track_tree (QueueTrackUuid (q_uid q)) (queue_label q) (q_pid q)] @
     queue_trees (insert (q_pid q) seen) qs"

fun ais_trees ::
  "(string \<Rightarrow> u64) \<Rightarrow> c_int set \<Rightarrow> string set \<Rightarrow> AisRecord list \<Rightarrow> pb_msg"
where
  "ais_trees hash seen tracks [] = []"
| "ais_trees hash seen tracks (r # rs) =
     (if ais_track_key r \<in> tracks then ais_trees hash seen tracks rs
      else
        (if a_pid r \<in> seen then [] else [process_tree (a_pid r) (a_comm r)]) @
        [track_tree (AisTrackUuid hash (a_pid r) (a_pcie_id r)) (ais_track_label r) (a_pid r)] @
        ais_trees hash (insert (a_pid r) seen) (insert (ais_track_key r) tracks) rs)"

definition trace_tree :: "(string \<Rightarrow> u64) \<Rightarrow> TraceWriter \<Rightarrow> pb_msg" where
  "trace_tree hash w =
     queue_trees {} (map snd (tw_queues w)) @
     map (packet_tree (tw_queues w)) (stable_sort (make_evs p_submit_ts p_complete_ts (tw_records w))) @
     map sdma_tree (stable_sort (make_evs s_submit_ts s_complete_ts (tw_sdma_records w))) @
     ais_trees hash (set (map (q_pid \<circ> snd) (tw_queues w))) {} (tw_ais_records w) @
     map (ais_tree hash) (stable_sort (make_evs a_submit_ts a_complete_ts (tw_ais_records w)))"

text \<open>The message fields of the Perfetto protos the trace uses, by depth.\<close>

definition pf_schema :: "nat list list" where
  "pf_schema = [[kTracePacket], [kTrackDescriptor, kTrackEvent], [kTdProcess, kTeDebug], []]"

section \<open>The writers encode the tree\<close>

lemma encodes_cong: "encodes buf m \<Longrightarrow> m = m' \<Longrightarrow> encodes buf m'"
  by simp

lemma emit_process_encodes:
  "encodes trace m \<Longrightarrow> encodes (emit_process trace pid comm) (m @ [process_tree pid comm])"
  unfolding emit_process_def Let_def process_tree_def pf_numbers
  by (rule encodes_cong, (rule encode_intros | assumption | simp)+)

lemma emit_track_encodes:
  "encodes trace m \<Longrightarrow> encodes (emit_track trace uuid label pid) (m @ [track_tree uuid label pid])"
  unfolding emit_track_def Let_def track_tree_def pf_numbers
  by (rule encodes_cong, (rule encode_intros | assumption | simp)+)

lemma emit_event_encodes:
  "encodes trace m \<Longrightarrow> encodes te t \<Longrightarrow> encodes (emit_event trace ts te) (m @ [event_tree ts t])"
  unfolding emit_event_def event_tree_def pf_numbers
  by (rule encodes_cong, (rule encode_intros | assumption | simp)+)

lemma add_debug_encodes:
  "list_all2 (\<lambda>d t. \<exists>m. t = (kTeDebug, PMsg m) \<and> encodes d m) ds ts \<Longrightarrow> encodes te m \<Longrightarrow>
     encodes (add_debug ds te) (m @ ts)"
proof (induction ds ts arbitrary: te m rule: list_all2_induct)
  case (Cons d ds t ts)
  then obtain k where k: "t = (kTeDebug, PMsg k)" "encodes d k" by blast
  have "encodes (MsgField te kTeDebug d) (m @ [t])"
    using MsgField_encodes [OF Cons.prems k(2), of kTeDebug] k(1) by (simp add: pf_numbers)
  then show ?case using Cons.IH by (fastforce simp: add_debug_def)
qed (simp add: add_debug_def)

definition debug_pair :: "Pb \<Rightarrow> nat \<times> pb_tree \<Rightarrow> bool" where
  "debug_pair d t = (\<exists>m. t = (kTeDebug, PMsg m) \<and> encodes d m)"

lemma debug_pairs [simp]:
  "debug_pair (DebugStr n v) (dbg_str n v)" "debug_pair (DebugUint n u) (dbg_uint n u)"
proof -
  have "encodes (DebugStr n v) [(kDaName, PStr n), (kDaStr, PStr v)]"
    unfolding DebugStr_def pf_numbers by (rule encodes_cong, (rule encode_intros | simp)+)
  then show "debug_pair (DebugStr n v) (dbg_str n v)" by (simp add: debug_pair_def dbg_str_def)
  have "encodes (DebugUint n u) [(kDaName, PStr n), (kDaUint, PInt u)]"
    unfolding DebugUint_def pf_numbers by (rule encodes_cong, (rule encode_intros | simp)+)
  then show "debug_pair (DebugUint n u) (dbg_uint n u)" by (simp add: debug_pair_def dbg_uint_def)
qed

lemma slice_end_encodes: "encodes (slice_end track) (end_tree track)"
  unfolding slice_end_def end_tree_def pf_numbers
  by (rule encodes_cong, (rule encode_intros | simp)+)

lemma slice_begin_encodes:
  "list_all2 debug_pair ds ts \<Longrightarrow> encodes (slice_begin track name ds) (begin_tree track name ts)"
proof -
  assume "list_all2 debug_pair ds ts"
  then have l: "list_all2 (\<lambda>d t. \<exists>m. t = (kTeDebug, PMsg m) \<and> encodes d m) ds ts"
    by (simp add: debug_pair_def [abs_def])
  have "encodes (StringField (VarintField (VarintField [] kTeTrackUuid track) kTeType kTypeSliceBegin) kTeName name)
      [(kTeTrackUuid, PInt track), (kTeType, PInt kTypeSliceBegin), (kTeName, PStr name)]"
    unfolding pf_numbers by (rule encodes_cong, (rule encode_intros | simp)+)
  from add_debug_encodes [OF l this] show ?thesis by (simp add: slice_begin_def begin_tree_def)
qed

lemma debug_lists:
  "list_all2 debug_pair (packet_debug q r) (packet_args q r)"
  "list_all2 debug_pair (sdma_debug s) (sdma_args s)"
  "list_all2 debug_pair (ais_debug a) (ais_args a)"
  by (simp_all add: packet_debug_def packet_args_def sdma_debug_def sdma_args_def ais_debug_def
      ais_args_def)

lemma event_encodes:
  assumes "encodes trace m" "list_all2 debug_pair ds ts"
  shows "encodes (emit_event trace n (if b then slice_begin track name ds else slice_end track))
    (m @ [event_tree n (if b then begin_tree track name ts else end_tree track)])"
  using emit_event_encodes [OF assms(1) slice_begin_encodes [OF assms(2), of track name], of n]
    emit_event_encodes [OF assms(1) slice_end_encodes [of track], of n]
  by simp

lemma sdma_event_encodes: "encodes trace m \<Longrightarrow> encodes (sdma_event e trace) (m @ [sdma_tree e])"
  unfolding sdma_event_def sdma_tree_def Let_def by (rule event_encodes [OF _ debug_lists(2)])

lemma ais_event_encodes: "encodes trace m \<Longrightarrow> encodes (ais_event hash e trace) (m @ [ais_tree hash e])"
  unfolding ais_event_def ais_tree_def Let_def by (rule event_encodes [OF _ debug_lists(3)])

lemma fold_encodes:
  assumes "\<And>e trace m. encodes trace m \<Longrightarrow> encodes (f e trace) (m @ [g e])" and "encodes trace m"
  shows "encodes (fold f es trace) (m @ map g es)"
  using assms(2)
proof (induction es arbitrary: trace m)
  case (Cons e es)
  then show ?case using Cons.IH [OF assms(1) [OF Cons.prems]] by simp
qed simp

lemma sdma_events_encode:
  "encodes trace m \<Longrightarrow> encodes (fold sdma_event es trace) (m @ map sdma_tree es)"
  by (rule fold_encodes; (rule sdma_event_encodes)?; assumption)

lemma ais_events_encode:
  "encodes trace m \<Longrightarrow> encodes (fold (ais_event hash) es trace) (m @ map (ais_tree hash) es)"
  by (rule fold_encodes; (rule ais_event_encodes)?; assumption)

lemma emplace_default_lookup:
  assumes "od_ok queues"
  shows "queue_or_default (od_emplace k new_QueueInfo queues) uid = queue_or_default queues uid"
  using assms by (auto simp: queue_or_default_def map_of_emplace split: option.splits)

lemma packet_tree_emplace:
  "od_ok queues \<Longrightarrow> packet_tree (od_emplace k new_QueueInfo queues) = packet_tree queues"
  by (simp add: fun_eq_iff packet_tree_def Let_def emplace_default_lookup)

lemma packet_events_encodes:
  "encodes trace m \<Longrightarrow> od_ok queues \<Longrightarrow>
     encodes (snd (packet_events es queues trace)) (m @ map (packet_tree queues) es)"
proof (induction es queues trace arbitrary: m rule: packet_events.induct)
  case (2 e es queues trace)
  let ?r = "ev_rec e"
  let ?q = "od_emplace (p_queue_uid ?r) new_QueueInfo queues"
  have s: "encodes (emit_event trace (ev_ts e)
        (if ev_begin e
         then slice_begin (QueueTrackUuid (p_queue_uid ?r)) (p_kernel_name ?r)
           (packet_debug (queue_or_default queues (p_queue_uid ?r)) ?r)
         else slice_end (QueueTrackUuid (p_queue_uid ?r)))) (m @ [packet_tree queues e])"
    unfolding packet_tree_def Let_def by (rule event_encodes [OF "2.prems"(1) debug_lists(1)])
  show ?case
  proof (cases "ev_begin e")
    case True
    have "encodes (snd (packet_events es ?q (emit_event trace (ev_ts e)
        (slice_begin (QueueTrackUuid (p_queue_uid ?r)) (p_kernel_name ?r)
           (packet_debug (queue_or_default ?q (p_queue_uid ?r)) ?r)))))
      ((m @ [packet_tree queues e]) @ map (packet_tree ?q) es)"
      using s True "2.prems"(2)
      by (intro "2.IH"(1) [OF refl refl True refl refl])
        (simp_all add: emplace_default_lookup od_ok_emplace)
    then show ?thesis using True "2.prems"(2) by (simp add: Let_def packet_tree_emplace)
  next
    case False
    have "encodes (snd (packet_events es queues
        (emit_event trace (ev_ts e) (slice_end (QueueTrackUuid (p_queue_uid ?r))))))
      ((m @ [packet_tree queues e]) @ map (packet_tree queues) es)"
      using s False "2.prems"(2) by (intro "2.IH"(2) [OF refl refl False]) simp_all
    then show ?thesis using False by (simp add: Let_def)
  qed
qed simp

lemma queue_descriptors_encodes:
  "encodes trace m \<Longrightarrow>
     encodes (snd (queue_descriptors qs seen trace)) (m @ queue_trees (set seen) qs) \<and>
     set (fst (queue_descriptors qs seen trace)) = set seen \<union> q_pid ` set qs"
proof (induction qs seen trace arbitrary: m rule: queue_descriptors.induct)
  case (2 q qs seen trace)
  show ?case
  proof (cases "q_pid q \<in> set seen")
    case True
    have "encodes (emit_track trace (QueueTrackUuid (q_uid q)) (queue_label q) (q_pid q))
        (m @ [track_tree (QueueTrackUuid (q_uid q)) (queue_label q) (q_pid q)])"
      by (rule emit_track_encodes [OF "2.prems"])
    from "2.IH" [OF refl refl refl, simplified True, simplified, OF this] show ?thesis
      using True by (auto simp: Let_def insert_absorb)
  next
    case False
    have "encodes (emit_track (emit_process trace (q_pid q) (q_comm q))
          (QueueTrackUuid (q_uid q)) (queue_label q) (q_pid q))
        ((m @ [process_tree (q_pid q) (q_comm q)]) @
         [track_tree (QueueTrackUuid (q_uid q)) (queue_label q) (q_pid q)])"
      by (rule emit_track_encodes [OF emit_process_encodes [OF "2.prems"]])
    from "2.IH" [OF refl refl refl, simplified False, simplified, OF this] show ?thesis
      using False by (auto simp: Let_def)
  qed
qed simp

lemma ais_descriptors_encodes:
  "encodes trace m \<Longrightarrow>
     encodes (ais_descriptors hash seen rs ais_seen tracks trace)
       (m @ ais_trees hash (set seen \<union> set ais_seen) (set tracks) rs)"
proof (induction hash seen rs ais_seen tracks trace arbitrary: m rule: ais_descriptors.induct)
  case (2 hash seen r rs ais_seen tracks trace)
  let ?t = "track_tree (AisTrackUuid hash (a_pid r) (a_pcie_id r)) (ais_track_label r) (a_pid r)"
  show ?case
  proof (cases "ais_track_key r \<in> set tracks")
    case True
    then show ?thesis using "2.IH"(1) [OF True "2.prems"] by simp
  next
    case new: False
    note step = "2.IH"(2) [OF new refl refl refl]
    show ?thesis
    proof (cases "a_pid r \<in> set seen \<union> set ais_seen")
      case True
      then have f: "\<not> (a_pid r \<notin> set seen \<and> a_pid r \<notin> set ais_seen)" by blast
      have "encodes (emit_track trace (AisTrackUuid hash (a_pid r) (a_pcie_id r)) (ais_track_label r) (a_pid r))
          (m @ [?t])"
        by (rule emit_track_encodes [OF "2.prems"])
      from step [unfolded if_not_P [OF f], OF this] show ?thesis
        using True new f by (simp add: Let_def insert_absorb del: de_Morgan_conj not_not)
    next
      case False
      then have f: "a_pid r \<notin> set seen \<and> a_pid r \<notin> set ais_seen" by blast
      have "encodes (emit_track (emit_process trace (a_pid r) (a_comm r))
          (AisTrackUuid hash (a_pid r) (a_pcie_id r)) (ais_track_label r) (a_pid r))
          ((m @ [process_tree (a_pid r) (a_comm r)]) @ [?t])"
        by (rule emit_track_encodes [OF emit_process_encodes [OF "2.prems"]])
      from step [unfolded if_P [OF f], OF this] show ?thesis
        using f new by (simp add: Let_def)
    qed
  qed
qed simp

lemma perfetto_encodes:
  assumes "od_ok (tw_queues w)"
  shows "encodes (snd (perfetto_trace hash w)) (trace_tree hash w)"
proof -
  obtain seen t1 where q: "queue_descriptors (map snd (tw_queues w)) [] [] = (seen, t1)" by force
  let ?es = "stable_sort (make_evs p_submit_ts p_complete_ts (tw_records w))"
  let ?ss = "stable_sort (make_evs s_submit_ts s_complete_ts (tw_sdma_records w))"
  let ?as = "stable_sort (make_evs a_submit_ts a_complete_ts (tw_ais_records w))"
  obtain queues t2 where p: "packet_events ?es (tw_queues w) t1 = (queues, t2)" by force
  have "encodes t1 ([] @ queue_trees {} (map snd (tw_queues w)))"
    and seen: "set seen = q_pid ` set (map snd (tw_queues w))"
    using queue_descriptors_encodes [OF encodes_empty, of "map snd (tw_queues w)" "[]"] q by auto
  then have "encodes t2 (queue_trees {} (map snd (tw_queues w)) @ map (packet_tree (tw_queues w)) ?es)"
    using packet_events_encodes [OF _ assms, of t1 _ ?es] p by fastforce
  then have t3: "encodes (fold sdma_event ?ss t2) ((queue_trees {} (map snd (tw_queues w)) @
      map (packet_tree (tw_queues w)) ?es) @ map sdma_tree ?ss)"
    by (rule sdma_events_encode)
  have s: "set seen = set (map (q_pid \<circ> snd) (tw_queues w))" using seen by (simp add: image_comp)
  from ais_events_encode [where hash = hash and es = ?as, OF
      ais_descriptors_encodes [where hash = hash and seen = seen and rs = "tw_ais_records w"
        and ais_seen = "[]" and tracks = "[]", OF t3]]
  show ?thesis by (simp add: perfetto_trace_def q p Let_def trace_tree_def s)
qed

section \<open>The tree fits the schema\<close>

lemma conforms_append [simp]: "conforms sch (m @ n) \<longleftrightarrow> conforms sch m \<and> conforms sch n"
  by (cases sch) auto

lemma conforms_Nil: "sch \<noteq> [] \<Longrightarrow> conforms sch []"
  by (cases sch) auto

lemma conforms_map:
  "(\<And>e. e \<in> set es \<Longrightarrow> conforms (here # sch) [g e]) \<Longrightarrow> conforms (here # sch) (map g es)"
  by (auto simp: list_all_iff)

lemma args_conform [simp]:
  "conforms [[kTdProcess, kTeDebug], []] (packet_args q r)"
  "conforms [[kTdProcess, kTeDebug], []] (sdma_args s)"
  "conforms [[kTdProcess, kTeDebug], []] (ais_args a)"
  by (simp_all add: packet_args_def sdma_args_def ais_args_def dbg_str_def dbg_uint_def)

lemma packets_conform [simp]:
  "conforms pf_schema [process_tree pid comm]" "conforms pf_schema [track_tree uuid label pid]"
  "conforms pf_schema [packet_tree queues e]" "conforms pf_schema [sdma_tree e']"
  "conforms pf_schema [ais_tree hash e'']"
proof -
  have b: "conforms [[kTdProcess, kTeDebug], []] ds \<Longrightarrow>
      conforms [[kTdProcess, kTeDebug], []] (begin_tree track name ds)" for track name ds
    by (simp add: begin_tree_def pf_numbers)
  have n: "conforms [[kTdProcess, kTeDebug], []] (end_tree track)" for track
    by (simp add: end_tree_def pf_numbers)
  have v: "conforms [[kTdProcess, kTeDebug], []] te \<Longrightarrow> conforms pf_schema [event_tree ts te]" for ts te
    by (simp add: event_tree_def pf_schema_def del: conforms.simps(2))
      (simp add: pf_numbers)
  show "conforms pf_schema [process_tree pid comm]" "conforms pf_schema [track_tree uuid label pid]"
    by (simp_all add: pf_schema_def process_tree_def track_tree_def pf_numbers)
  show "conforms pf_schema [packet_tree queues e]" "conforms pf_schema [sdma_tree e']"
    "conforms pf_schema [ais_tree hash e'']"
    unfolding packet_tree_def sdma_tree_def ais_tree_def Let_def
    by (rule v; cases "ev_begin e"; cases "ev_begin e'"; cases "ev_begin e''"; simp only: if_True if_False;
        intro b n args_conform)+
qed

lemma pf_schema_nonempty: "pf_schema \<noteq> []"
  by (simp add: pf_schema_def)

lemma conforms_Cons:
  "conforms pf_schema [f] \<Longrightarrow> conforms pf_schema (f # m) \<longleftrightarrow> conforms pf_schema m"
  by (simp add: pf_schema_def)

lemma queue_trees_conform: "conforms pf_schema (queue_trees seen qs)"
  by (induction qs arbitrary: seen) (simp_all add: conforms_Nil pf_schema_nonempty conforms_Cons)

lemma ais_trees_conform: "conforms pf_schema (ais_trees hash seen tracks rs)"
  by (induction rs arbitrary: seen tracks)
    (simp_all add: conforms_Nil pf_schema_nonempty conforms_Cons)

lemma map_conforms: "(\<And>e. conforms pf_schema [g e]) \<Longrightarrow> conforms pf_schema (map g es)"
  by (simp add: pf_schema_def list_all_iff)

lemma trace_tree_conforms: "conforms pf_schema (trace_tree hash w)"
  by (simp add: trace_tree_def queue_trees_conform ais_trees_conform map_conforms)

text \<open>
  C5: the Perfetto file, decoded with the schema of the protos it targets, is the descriptors of
  the registered queues followed by one message per begin and end of the packet, SDMA and AIS
  records in their sorted order, each with its time stamp, track, name and annotations, the
  descriptors of the AIS tracks before the AIS events. Queues created by the lookup of an
  unregistered queue do not show.
\<close>

theorem perfetto_trace_decodes:
  assumes "od_ok (tw_queues w)" and "length (snd (perfetto_trace hash w)) < 2 ^ 64"
  shows "read_msg pf_schema (snd (perfetto_trace hash w)) = Some (trace_tree hash w)"
  using encodes_read [OF perfetto_encodes [OF assms(1)] assms(2) trace_tree_conforms] .

section \<open>Slices\<close>

lemma filter_make_evs:
  "length (filter (\<lambda>e. ev_rec e = r \<and> ev_begin e = b) (make_evs f g rs)) = count_list rs r"
  by (induction rs) (auto simp: make_evs_def)

lemma make_evs_cases:
  assumes "e \<in> set (make_evs f g rs)"
  shows "ev_rec e \<in> set rs \<and>
    ev_ts e = NsOf (if ev_begin e then f (ev_rec e) else slice_end_time (f (ev_rec e)) (g (ev_rec e)))"
  using assms by (auto simp: make_evs_def)

text \<open>The times a nanosecond counter of 64 bits can hold.\<close>

definition ns_range :: "seconds \<Rightarrow> bool" where
  "ns_range s = (0 \<le> s \<and> s * 1000000000 < 2 ^ 64)"

lemma NsOf_less:
  assumes "ns_range s" "ns_range t" "s + kMinDurSec \<le> t"
  shows "NsOf s < NsOf t"
proof -
  have r: "0 \<le> s" "s * 1000000000 < 2 ^ 64" "0 \<le> t" "t * 1000000000 < 2 ^ 64"
    using assms by (simp_all add: ns_range_def)
  have u: "uint (NsOf x) = \<lfloor>x * 1000000000\<rfloor>" if "0 \<le> x" "x * 1000000000 < 2 ^ 64" for x
  proof -
    have "\<lfloor>x * 1000000000\<rfloor> < 2 ^ 64" using that(2) by (simp add: floor_less_iff)
    moreover have "0 \<le> \<lfloor>x * 1000000000\<rfloor>" using that(1) by simp
    ultimately show ?thesis
      using that(1) by (simp add: NsOf_def truncate_rat_def uint_word_of_int)
  qed
  have "s * 1000000000 + 100 \<le> t * 1000000000" using assms(3) by (simp add: kMinDurSec_def)
  then have "\<lfloor>s * 1000000000\<rfloor> < \<lfloor>t * 1000000000\<rfloor>" by linarith
  then show ?thesis by (simp add: word_less_def u [OF r(1,2)] u [OF r(3,4)])
qed

lemma slice_end_later: "s + kMinDurSec \<le> slice_end_time s c"
  by (simp add: slice_end_time_def kMinDurSec_def)

lemma sorted_prefix_filter:
  assumes "sorted (map k xs)" "y \<in> set (take n xs)" "\<And>x. x \<in> set xs \<Longrightarrow> P x \<Longrightarrow> k x < k y"
  shows "filter P (take n xs) = filter P xs"
proof -
  have "\<not> P x" if "x \<in> set (drop n xs)" for x
  proof
    assume "P x"
    have "x \<in> set xs" using that by (meson in_set_dropD)
    then have "k x < k y" using assms(3) \<open>P x\<close> by blast
    moreover have "sorted (map k (take n xs) @ map k (drop n xs))"
      using assms(1) by (metis append_take_drop_id map_append)
    ultimately show False using that assms(2) by (force simp: sorted_append)
  qed
  then have "filter P (drop n xs) = []" by (simp add: filter_empty_conv)
  then show ?thesis by (metis append_Nil2 append_take_drop_id filter_append)
qed

lemma length_filter_take: "length (filter P (take n xs)) \<le> length (filter P xs)"
  by (metis append_take_drop_id filter_append le_add1 length_append)

text \<open>
  C23: the event list of a trace holds each record's begin and end once, in time order, and no
  slice is closed before it is opened: in every prefix of the list a record has at least as
  many begins as ends. Records observed within one poll, or with a completion before their
  submission, are no exception.
\<close>

theorem slices_open_before_close:
  assumes "\<forall>r \<in> set rs. ns_range (f r) \<and> ns_range (slice_end_time (f r) (g r))"
  shows "sorted (map ev_ts (stable_sort (make_evs f g rs))) \<and>
    mset (stable_sort (make_evs f g rs)) = mset (make_evs f g rs) \<and>
    length (filter (\<lambda>e. ev_rec e = r \<and> ev_begin e = b) (stable_sort (make_evs f g rs))) = count_list rs r \<and>
    length (filter (\<lambda>e. ev_rec e = r \<and> ev_begin e = False) (take n (stable_sort (make_evs f g rs))))
      \<le> length (filter (\<lambda>e. ev_rec e = r \<and> ev_begin e = True) (take n (stable_sort (make_evs f g rs))))"
proof -
  let ?es = "stable_sort (make_evs f g rs)"
  let ?fin = "\<lambda>e. ev_rec e = r \<and> ev_begin e = False" and ?beg = "\<lambda>e. ev_rec e = r \<and> ev_begin e = True"
  have m: "mset ?es = mset (make_evs f g rs)" by (simp add: stable_sort_def)
  have s: "sorted (map ev_key ?es)" by (simp add: stable_sort_def)
  have ts: "sorted (map ev_ts ?es)"
    using s unfolding sorted_map by (rule sorted_wrt_mono_rel [rotated]) (auto simp: ev_key_def less_eq_prod_def)
  have c: "length (filter (\<lambda>e. ev_rec e = r \<and> ev_begin e = b) ?es) = count_list rs r" for b
    using filter_make_evs [of r b f g rs] arg_cong [OF m, of "\<lambda>M. size {#e \<in># M. ev_rec e = r \<and> ev_begin e = b#}"]
    by (simp only: mset_filter [symmetric] size_mset)
  have "length (filter ?fin (take n ?es)) \<le> length (filter ?beg (take n ?es))"
  proof (cases "filter ?fin (take n ?es) = []")
    case False
    then obtain y where y: "y \<in> set (take n ?es)" "ev_rec y = r" "ev_begin y = False"
      unfolding filter_empty_conv by blast
    have mem: "x \<in> set ?es \<Longrightarrow> x \<in> set (make_evs f g rs)" for x
      using mset_eq_setD [OF m] by simp
    have "ev_key x < ev_key y" if x: "x \<in> set ?es" "ev_rec x = r \<and> ev_begin x = True" for x
    proof -
      have "y \<in> set ?es" using y(1) by (meson in_set_takeD)
      then have ty: "r \<in> set rs" "ev_ts y = NsOf (slice_end_time (f r) (g r))"
        using make_evs_cases [OF mem, of y] y(2,3) by simp_all
      have "ev_ts x = NsOf (f r)" using make_evs_cases [OF mem [OF x(1)]] x(2) by simp
      then have "ev_ts x < ev_ts y"
        using NsOf_less [OF _ _ slice_end_later [of "f r" "g r"]] bspec [OF assms ty(1)] ty(2) by simp
      then show ?thesis by (simp add: ev_key_def less_prod_def)
    qed
    from sorted_prefix_filter [OF s y(1) this] have "filter ?beg (take n ?es) = filter ?beg ?es" .
    then have "length (filter ?beg (take n ?es)) = count_list rs r" using c [of True] by simp
    moreover have "length (filter ?fin (take n ?es)) \<le> length (filter ?fin ?es)"
      by (rule length_filter_take)
    ultimately show ?thesis using c [of False] by simp
  qed simp
  then show ?thesis by (intro conjI m ts c)
qed

section \<open>JSON strings\<close>

text \<open>The characters \<^verbatim>\<open>JsonEscape\<close> handles: newline and everything that is no control character.\<close>

definition escapable :: "char \<Rightarrow> bool" where
  "escapable c = (c = CHR 0x0A \<or> 0x20 \<le> (of_char c :: nat))"

lemma read_escape_char:
  "read_string (escape_char c @ rest) =
     (if escapable c then map_option (apfst (\<lambda>t. c # t)) (read_string rest) else None)"
proof (cases "c = CHR 0x22 \<or> c = CHR 0x5C \<or> c = CHR 0x0A")
  case True
  then show ?thesis by (auto simp: escape_char_def escapable_def)
next
  case False
  then show ?thesis by (simp add: escape_char_def escapable_def)
qed

text \<open>
  A string escaped by \<^verbatim>\<open>JsonEscape\<close> and put between quotes reads back as itself exactly when
  newline is its only control character; with any other control character, a tab for one, the
  text is no JSON string at all and the trace file does not parse.
\<close>

theorem json_escape_reads_back:
  "read_string (JsonEscape s @ [CHR 0x22] @ rest) =
     (if list_all escapable s then Some (s, rest) else None)"
  unfolding JsonEscape_def
proof (induction s)
  case (Cons c s)
  then show ?case
    using read_escape_char [of c "concat (map escape_char s) @ [CHR 0x22] @ rest"] by simp
qed simp

section \<open>Tracks\<close>

text \<open>
  The tracks of two processes that do AIS operations on the same device are told apart
  exactly by the bits of the process identifier outside \<open>0xA150\<close>: processes 1 and 17, for
  instance, share one track, under two different parents.
\<close>

theorem ais_tracks_collide:
  "AisTrackUuid hash pid pcie = AisTrackUuid hash pid' pcie \<longleftrightarrow>
     (word_of_int pid :: u32) OR 0xA150 = word_of_int pid' OR 0xA150"
proof -
  have e: "AisTrackUuid hash x pcie =
      push_bit 16 (ucast ((word_of_int x :: u32) OR 0xA150)) OR (hash pcie AND 0xFFFF)" for x
  proof -
    have "(0xA1500000 :: u64) = push_bit 16 (ucast (0xA150 :: u32))" by simp
    then show ?thesis
      unfolding AisTrackUuid_def by (simp add: unsigned_or_eq or.commute or.assoc or.left_commute push_bit_or)
  qed
  have "push_bit 16 (ucast a :: u64) OR (h AND 0xFFFF) = push_bit 16 (ucast b) OR (h AND 0xFFFF) \<longleftrightarrow> a = b"
    for a b :: u32 and h :: u64
  proof
    assume "push_bit 16 (ucast a :: u64) OR (h AND 0xFFFF) = push_bit 16 (ucast b) OR (h AND 0xFFFF)"
    then have w: "push_bit 16 (ucast a :: u64) OR take_bit 16 h = push_bit 16 (ucast b) OR take_bit 16 h"
      by (simp add: take_bit_eq_mask mask_eq_exp_minus_1)
    show "a = b"
    proof (rule bit_word_eqI)
      fix n assume "n < LENGTH(32)"
      then show "bit a n = bit b n"
        using arg_cong [OF w, of "\<lambda>x. bit x (n + 16)"] by (simp add: bit_simps)
    qed
  qed simp
  then show ?thesis unfolding e by simp
qed

section \<open>A small trace\<close>

definition demo_trace :: TraceWriter where
  "demo_trace =
     Add_packet (new_PacketRecord\<lparr>p_queue_uid := 7, p_kernel_name := ''k'', p_submit_ts := 2, p_complete_ts := 3\<rparr>)
       (RegisterQueue (new_QueueInfo\<lparr>q_uid := 7, q_pid := 42, q_comm := ''app''\<rparr>)
         (new_TraceWriter kPerfetto))"

lemma demo_trace_ok:
  "od_ok (tw_queues demo_trace)"
  by (simp add: demo_trace_def Add_packet_def RegisterQueue_def new_TraceWriter_def)

lemma varint_at_most_ten: "length (varint_bytes (unat (v :: u64))) \<le> 10"
proof (rule varint_length)
  have "unat v < 2 ^ 64" using unat_bound [of v] by simp
  then show "unat v < 128 ^ 10" by simp
qed simp

lemma field_lengths:
  "length (VarintField buf fld v) \<le> length buf + 20"
  "length (StringField buf fld s) \<le> length buf + 20 + length s"
  "length (MsgField buf fld s) \<le> length buf + 20 + length s"
proof -
  have "length (varint_bytes (unat (x :: u64))) + length (varint_bytes (unat (y :: u64))) \<le> 20" for x y
    using varint_at_most_ten [of x] varint_at_most_ten [of y] by simp
  then show "length (VarintField buf fld v) \<le> length buf + 20"
    "length (StringField buf fld s) \<le> length buf + 20 + length s"
    "length (MsgField buf fld s) \<le> length buf + 20 + length s"
    by (simp_all add: VarintField_def StringField_def MsgField_def Tag_def Varint_bytes)
qed

lemma field_bounds:
  "length buf \<le> n \<Longrightarrow> length (VarintField buf fld v) \<le> n + 20"
  "length buf \<le> n \<Longrightarrow> length (StringField buf fld s) \<le> n + 20 + length s"
  "length buf \<le> n \<Longrightarrow> length s \<le> k \<Longrightarrow> length (MsgField buf fld s) \<le> n + 20 + k"
  "length ([] :: string) \<le> 0"
  using field_lengths(1) [of buf fld v] field_lengths(2,3) [of buf fld s] by simp_all

lemma demo_trace_short: "length (snd (perfetto_trace (\<lambda>s. 0) demo_trace)) < 2 ^ 64"
proof -
  let ?r = "new_PacketRecord\<lparr>p_queue_uid := 7, p_kernel_name := ''k'', p_submit_ts := 2, p_complete_ts := 3\<rparr>"
  let ?q = "new_QueueInfo\<lparr>q_uid := 7, q_pid := 42, q_comm := ''app''\<rparr>"
  have w: "tw_queues demo_trace = [(7, ?q)]" "tw_records demo_trace = [?r]"
    "tw_sdma_records demo_trace = []" "tw_ais_records demo_trace = []"
    by (simp_all add: demo_trace_def Add_packet_def RegisterQueue_def new_TraceWriter_def)
  have e: "stable_sort (make_evs p_submit_ts p_complete_ts [?r]) =
      [\<lparr>ev_ts = NsOf 2, ev_begin = True, ev_rec = ?r\<rparr>, \<lparr>ev_ts = NsOf 3, ev_begin = False, ev_rec = ?r\<rparr>]"
    by (simp add: make_evs_def stable_sort_def ev_key_def slice_end_time_def kMinDurSec_def NsOf_def
        truncate_rat_def new_PacketRecord_def less_eq_prod_def)
  have d: "packet_debug ?q ?r = [DebugStr ''type'' ''invalid'', DebugUint ''dispatch_id'' 0]"
    by (simp add: packet_debug_def dispatch_like_def new_PacketRecord_def new_QueueInfo_def)
  have l: "length (queue_label ?q) \<le> 127"
    by (simp add: queue_label_def)
  have s: "make_evs f g [] = []" "stable_sort ([] :: 'r Ev list) = []" for f g :: "'r \<Rightarrow> seconds"
    by (simp_all add: make_evs_def stable_sort_def)
  have t: "snd (perfetto_trace (\<lambda>s. 0) demo_trace) =
      emit_event
        (emit_event
          (emit_track (emit_process [] 42 ''app'') (QueueTrackUuid 7) (queue_label ?q) 42)
          (NsOf 2) (slice_begin (QueueTrackUuid 7) ''k'' (packet_debug ?q ?r)))
        (NsOf 3) (slice_end (QueueTrackUuid 7))"
    by (simp add: perfetto_trace_def w e s queue_or_default_def Let_def)
  have "length (snd (perfetto_trace (\<lambda>s. 0) demo_trace)) \<le> 1000 + length (queue_label ?q)"
    unfolding t d emit_event_def emit_track_def emit_process_def slice_begin_def slice_end_def
      add_debug_def DebugStr_def DebugUint_def Let_def fold_simps
    by (rule order_trans, (rule field_bounds)+, simp)
  with l have "length (snd (perfetto_trace (\<lambda>s. 0) demo_trace)) \<le> 2000" by simp
  then show ?thesis by simp
qed

theorem perfetto_trace_decodes_witness:
  "length (snd (perfetto_trace (\<lambda>s. 0) demo_trace)) < 2 ^ 64 \<and>
   read_msg pf_schema (snd (perfetto_trace (\<lambda>s. 0) demo_trace)) = Some (trace_tree (\<lambda>s. 0) demo_trace)"
  using perfetto_trace_decodes [OF demo_trace_ok demo_trace_short] demo_trace_short by blast

theorem slices_open_before_close_witness:
  "\<exists>es. es = stable_sort (make_evs p_submit_ts p_complete_ts
       [new_PacketRecord\<lparr>p_submit_ts := 5\<rparr>, new_PacketRecord\<lparr>p_submit_ts := 2, p_complete_ts := 3\<rparr>]) \<and>
     sorted (map ev_ts es) \<and>
     length (filter (\<lambda>e. ev_rec e = new_PacketRecord\<lparr>p_submit_ts := 5\<rparr> \<and> ev_begin e = True) es) = 1"
proof -
  let ?a = "new_PacketRecord\<lparr>p_submit_ts := 5\<rparr>"
  let ?b = "new_PacketRecord\<lparr>p_submit_ts := 2, p_complete_ts := 3\<rparr>"
  have "\<forall>r \<in> set [?a, ?b]. ns_range (p_submit_ts r) \<and> ns_range (slice_end_time (p_submit_ts r) (p_complete_ts r))"
    by (simp add: ns_range_def slice_end_time_def kMinDurSec_def new_PacketRecord_def)
  from slices_open_before_close [OF this, of ?a True 0] show ?thesis
    by (simp add: new_PacketRecord_def)
qed

text \<open>
  Six significant digits: an hour after boot, two dispatches four milliseconds apart carry the
  same time stamp in the JSON trace.
\<close>

theorem json_times_collapse:
  "json_slice pid tid 3600 dur name args = json_slice pid tid (3600 + 4 / 1000) dur name args"
proof -
  have "dec_exponent 3600000000 = 9" "dec_exponent 3600004000 = 9"
    by ((subst dec_exponent.simps, simp)+)+
  moreover have "round_even (3600004000 / 10000) = 360000" "round_even (3600000000 / 10000) = 360000"
    by (rule round_even_near; simp)+
  ultimately have "show_double (3600 * 1000000) = show_double ((3600 + 4 / 1000) * 1000000)"
    by (simp add: show_double_def pow10_def)
  then show ?thesis by (simp add: json_slice_def)
qed

end
