(* ===== verification/Discovery.thy ===== *)
theory Discovery
  imports Data_Model
begin

text \<open>
  \<^verbatim>\<open>src/discovery.h\<close> and \<^verbatim>\<open>src/discovery.cpp\<close>: the three ways hsa-snoop learns of queues. The
  tracefs files are a map from paths to contents; \<open>writable\<close> says which writes the kernel
  accepts. What a probe prints arrives as the results of \<^verbatim>\<open>read\<close> on a pipe. The clock and the
  contents of \<^verbatim>\<open>/proc/<pid>/comm\<close> may change between queues, so both are parameters indexed by
  the uid the queue gets.
\<close>

section \<open>Files\<close>

type_synonym file_system = "string \<Rightarrow> string option"
type_synonym write_oracle = "string \<Rightarrow> string \<Rightarrow> bool"

definition WriteFile ::
  "write_oracle \<Rightarrow> string \<Rightarrow> string \<Rightarrow> bool \<Rightarrow> file_system \<Rightarrow> bool \<times> file_system"
where
  "WriteFile writable path val appending fs =
     (case fs path of
        None \<Rightarrow> (False, fs)
      | Some old \<Rightarrow>
          if writable path val then (True, fs(path \<mapsto> (if appending then old @ val else val)))
          else (False, fs))"

definition ReadFileToken :: "file_system \<Rightarrow> string \<Rightarrow> string" where
  "ReadFileToken fs path =
     (case fs path of
        None \<Rightarrow> []
      | Some content \<Rightarrow> (case extract_word content of Some (tok, rest) \<Rightarrow> tok | None \<Rightarrow> []))"

definition FindU64 :: "string \<Rightarrow> string \<Rightarrow> u64" where
  "FindU64 line key =
     (let needle = '' '' @ key @ ''='' in
      case str_find line needle 0 of
        None \<Rightarrow> 0
      | Some p \<Rightarrow> strtoull 10 (drop (p + length needle) line))"

section \<open>Locating libraries\<close>

text \<open>\<^verbatim>\<open>std::getline\<close> on \<^verbatim>\<open>/proc/version\<close>: \<open>None\<close> when it cannot be read.\<close>

definition IsWsl2 :: "string option \<Rightarrow> bool" where
  "IsWsl2 first_line =
     (case first_line of
        None \<Rightarrow> False
      | Some line \<Rightarrow> contains line ''microsoft'' \<or> contains line ''Microsoft'')"

fun first_existing :: "(string \<Rightarrow> string option) \<Rightarrow> (string \<Rightarrow> bool) \<Rightarrow> string list \<Rightarrow> string option"
where
  "first_existing resolve exists [] = None"
| "first_existing resolve exists (p # ps) =
     (let path = (case resolve p of Some r \<Rightarrow> r | None \<Rightarrow> p) in
      if exists path then Some path else first_existing resolve exists ps)"

text \<open>The first line \<^verbatim>\<open>find\<close> prints, as \<^verbatim>\<open>fgets\<close> into a \<^verbatim>\<open>char[512]\<close> gets it; \<open>None\<close> when nothing came.\<close>

definition find_output :: "string option \<Rightarrow> string" where
  "find_output printed =
     (case printed of
        None \<Rightarrow> []
      | Some out \<Rightarrow> takeWhile (\<lambda>c. c \<noteq> CHR 0x0A \<and> c \<noteq> CHR 0x00) (take 510 out))"

definition FindLibrocdxg ::
  "(string \<Rightarrow> string option) \<Rightarrow> (string \<Rightarrow> bool) \<Rightarrow> string option \<Rightarrow> string"
where
  "FindLibrocdxg resolve exists printed =
     (case first_existing resolve exists
        [''/opt/rocm/lib/librocdxg.so'', ''/opt/rocm/lib/librocdxg.so.1'',
         ''/usr/local/src/librocdxg/build/librocdxg.so.1.2.0''] of
        Some path \<Rightarrow> path
      | None \<Rightarrow> find_output printed)"

definition FindLibhsa ::
  "(string \<Rightarrow> string option) \<Rightarrow> (string \<Rightarrow> bool) \<Rightarrow> string option \<Rightarrow> string"
where
  "FindLibhsa resolve exists printed =
     (case first_existing resolve exists
        [''/opt/rocm/lib/libhsa-runtime64.so'', ''/opt/rocm/lib/libhsa-runtime64.so.1''] of
        Some path \<Rightarrow> path
      | None \<Rightarrow> find_output printed)"

section \<open>The kprobe\<close>

datatype DiscoveryMode = kKprobe | kBpftrace | kKfdUprobe

record Discovery =
  di_tracefs :: string
  di_pid_filter :: c_int
  di_mode :: DiscoveryMode
  di_librocdxg_path :: string
  di_libhsa_path :: string
  di_probe_name :: string
  di_running :: bool
  di_pipe_open :: bool
  di_bpf_prebuf :: string
  di_tracing_on_changed :: bool

definition new_Discovery ::
  "string \<Rightarrow> c_int \<Rightarrow> DiscoveryMode \<Rightarrow> string \<Rightarrow> string \<Rightarrow> c_int \<Rightarrow> Discovery"
where
  "new_Discovery tracefs pid_filter mode librocdxg libhsa my_pid =
     \<lparr> di_tracefs = tracefs, di_pid_filter = pid_filter, di_mode = mode,
       di_librocdxg_path = librocdxg, di_libhsa_path = libhsa,
       di_probe_name = ''hsasnoop_cq_'' @ show_int my_pid, di_running = False,
       di_pipe_open = False, di_bpf_prebuf = [], di_tracing_on_changed = False \<rparr>"

definition kprobe_events_path :: "Discovery \<Rightarrow> string" where
  "kprobe_events_path d = di_tracefs d @ ''/kprobe_events''"

definition enable_path :: "Discovery \<Rightarrow> string" where
  "enable_path d = di_tracefs d @ ''/events/kprobes/'' @ di_probe_name d @ ''/enable''"

definition tracing_on_path :: "Discovery \<Rightarrow> string" where
  "tracing_on_path d = di_tracefs d @ ''/tracing_on''"

definition kprobe_def :: "string \<Rightarrow> string" where
  "kprobe_def probe_name =
     ''p:'' @ probe_name @ '' kfd_ioctl_create_queue'' @ '' ring_base=+0(%dx):u64'' @
     '' wptr=+8(%dx):u64'' @ '' rptr=+16(%dx):u64'' @ '' ring_size=+32(%dx):u32'' @
     '' gpu_id=+36(%dx):u32'' @ '' qtype=+40(%dx):u32\<newline>''"

definition RemoveKprobe :: "write_oracle \<Rightarrow> Discovery \<Rightarrow> file_system \<Rightarrow> Discovery \<times> file_system" where
  "RemoveKprobe writable d fs =
     (let fs1 = snd (WriteFile writable (enable_path d) ''0\<newline>'' False fs);
          fs2 = snd (WriteFile writable (kprobe_events_path d) (''-:'' @ di_probe_name d @ ''\<newline>'') True fs1)
      in if di_tracing_on_changed d
         then (d\<lparr>di_tracing_on_changed := False\<rparr>,
               snd (WriteFile writable (tracing_on_path d) ''0\<newline>'' False fs2))
         else (d, fs2))"

definition InstallKprobe ::
  "write_oracle \<Rightarrow> Discovery \<Rightarrow> file_system \<Rightarrow> bool \<times> Discovery \<times> file_system"
where
  "InstallKprobe writable d fs =
     (let fs1 = snd (WriteFile writable (kprobe_events_path d) (''-:'' @ di_probe_name d @ ''\<newline>'') True fs) in
      case WriteFile writable (kprobe_events_path d) (kprobe_def (di_probe_name d)) True fs1 of
        (False, fs2) \<Rightarrow> (False, d, fs2)
      | (True, fs2) \<Rightarrow>
          (case WriteFile writable (enable_path d) ''1\<newline>'' False fs2 of
             (False, fs3) \<Rightarrow> (False, RemoveKprobe writable d fs3)
           | (True, fs3) \<Rightarrow>
               if ReadFileToken fs3 (tracing_on_path d) = ''0''
               then (case WriteFile writable (tracing_on_path d) ''1\<newline>'' False fs3 of
                       (ok, fs4) \<Rightarrow>
                         (True, if ok then d\<lparr>di_tracing_on_changed := True\<rparr> else d, fs4))
               else (True, d, fs3)))"

section \<open>Lines\<close>

text \<open>
  The inner loop of the three readers: the complete lines of the buffer, and what stays in it.
\<close>

fun split_lines :: "string \<Rightarrow> string list \<times> string" where
  "split_lines [] = ([], [])"
| "split_lines (c # cs) =
     (case split_lines cs of (ls, rest) \<Rightarrow>
        if c = CHR 0x0A then ([] # ls, rest)
        else (case ls of [] \<Rightarrow> ([], c # rest) | l # ls' \<Rightarrow> ((c # l) # ls', rest)))"

text \<open>\<^verbatim>\<open>/proc/<pid>/comm\<close>: its first line, \<open>None\<close> when it cannot be read.\<close>

type_synonym proc_comm = "c_int \<Rightarrow> string option"

definition real_comm :: "proc_comm \<Rightarrow> c_int \<Rightarrow> string \<Rightarrow> string" where
  "real_comm pc pid comm = (case pc pid of Some c \<Rightarrow> if c \<noteq> [] then c else comm | None \<Rightarrow> comm)"

text \<open>\<^verbatim>\<open>find_first_not_of(" \t")\<close>, then \<^verbatim>\<open>substr\<close>; unchanged when there is nothing else.\<close>

definition strip_left :: "string \<Rightarrow> string" where
  "strip_left s =
     (let t = dropWhile (\<lambda>c. c = CHR '' '' \<or> c = CHR 0x09) s in if t = [] then s else t)"

definition parse_prefix :: "string \<Rightarrow> (c_int \<times> string) option" where
  "parse_prefix line =
     (case str_find line '' ['' 0 of
        None \<Rightarrow> None
      | Some cpu \<Rightarrow>
          let prefix = take cpu line in
          (case last_index (CHR ''-'') prefix of
             None \<Rightarrow> None
           | Some dash \<Rightarrow> Some (atoi (drop (Suc dash) prefix), strip_left (take dash prefix))))"

definition kprobe_queue :: "string \<Rightarrow> c_int \<Rightarrow> string \<Rightarrow> seconds \<Rightarrow> u64 \<Rightarrow> QueueInfo" where
  "kprobe_queue line pid comm now uid =
     new_QueueInfo\<lparr>q_pid := pid, q_comm := comm, q_ring_base := FindU64 line ''ring_base'',
       q_wptr_addr := FindU64 line ''wptr'', q_rptr_addr := FindU64 line ''rptr'',
       q_ring_size := ucast (FindU64 line ''ring_size''), q_gpu_id := ucast (FindU64 line ''gpu_id''),
       q_qtype := ucast (FindU64 line ''qtype''), q_create_ts := now, q_uid := uid\<rparr>"

record disc_env =
  de_clock :: "u64 \<Rightarrow> seconds"
  de_comm :: "u64 \<Rightarrow> proc_comm"

text \<open>One line: the queue it reports, if any, and the next uid.\<close>

definition kprobe_line :: "Discovery \<Rightarrow> disc_env \<Rightarrow> string \<Rightarrow> u64 \<Rightarrow> QueueInfo option \<times> u64" where
  "kprobe_line d env line uid =
     (if line = [] \<or> hd line = CHR ''#'' then (None, uid)
      else if \<not> contains line (di_probe_name d) then (None, uid)
      else
        (case parse_prefix line of
           None \<Rightarrow> (None, uid)
         | Some (pid, comm) \<Rightarrow>
             let comm1 = real_comm (de_comm env uid) pid comm in
             if di_pid_filter d \<noteq> 0 \<and> pid \<noteq> di_pid_filter d then (None, uid)
             else
               let q = kprobe_queue line pid comm1 (de_clock env uid) uid in
               (if q_ring_base q \<noteq> 0 \<and> q_ring_size q \<noteq> 0 then Some q else None, uid + 1)))"

text \<open>
  The inner loop over the complete lines: \<open>handle\<close> is its body, \<open>v\<close> the local variables it
  changes, and the reported queues are those the callback gets.
\<close>

fun handle_lines ::
  "(string \<Rightarrow> 'v \<Rightarrow> QueueInfo option \<times> 'v) \<Rightarrow> string list \<Rightarrow> 'v \<Rightarrow> QueueInfo list \<times> 'v"
where
  "handle_lines handle [] v = ([], v)"
| "handle_lines handle (l # ls) v =
     (case handle l v of (q, v1) \<Rightarrow>
      case handle_lines handle ls v1 of (qs, v2) \<Rightarrow> (case q of Some x \<Rightarrow> x # qs | None \<Rightarrow> qs, v2))"

text \<open>Each round of \<^verbatim>\<open>RunKprobe\<close>: a poll that timed out, a read that failed, or data.\<close>

datatype pipe_round = NoData | Data string

fun RunKprobe :: "Discovery \<Rightarrow> disc_env \<Rightarrow> pipe_round list \<Rightarrow> string \<Rightarrow> u64 \<Rightarrow> QueueInfo list" where
  "RunKprobe d env [] buf uid = []"
| "RunKprobe d env (NoData # rs) buf uid = RunKprobe d env rs buf uid"
| "RunKprobe d env (Data chunk # rs) buf uid =
     (case split_lines (buf @ chunk) of (ls, rest) \<Rightarrow>
      case handle_lines (kprobe_line d env) ls uid of (qs, uid1) \<Rightarrow> qs @ RunKprobe d env rs rest uid1)"

section \<open>bpftrace scripts\<close>

definition dq :: string where
  "dq = [CHR 0x22]"

definition bs_n :: string where
  "bs_n = [CHR 0x5C, CHR ''n'']"

definition BuildKfdUprobeScript :: "string \<Rightarrow> string" where
  "BuildKfdUprobeScript so_path =
     ''uprobe:'' @ so_path @ '':hsa_queue_add_write_index_screlease\<newline>{\<newline>'' @
     ''  $q    = (uint64)arg0;\<newline>'' @
     ''  $ring = *(uint64*)($q + 8);\<newline>'' @
     ''  $slots = *(uint32*)($q + 24);\<newline>'' @
     ''  if ($ring == 0) { return; }\<newline>'' @
     ''  printf('' @ dq @ ''DISPATCH pid=%d comm=%s ring=0x%lx slots=%u'' @ bs_n @ dq @ '',\<newline>'' @
     ''         pid, comm, $ring, $slots);\<newline>'' @
     ''}\<newline>'' @
     ''interval:ms:10 { printf('' @ dq @ dq @ ''); }\<newline>''"

definition BuildBpftraceScript :: "string \<Rightarrow> string" where
  "BuildBpftraceScript so_path =
     ''uprobe:'' @ so_path @ '':hsaKmtCreateQueueExt\<newline>'' @
     ''{\<newline>'' @
     ''  if ((int32)arg1 != 21) { return; }\<newline>'' @
     ''  $sp = reg('' @ dq @ ''sp'' @ dq @ '');\<newline>'' @
     ''  $rsrc = *(uint64*)($sp + 24);\<newline>'' @
     ''  $wptr = *(uint64*)($rsrc + 16);\<newline>'' @
     ''  $rptr = *(uint64*)($rsrc + 24);\<newline>'' @
     ''  $size = *(uint64*)($sp + 8);\<newline>'' @
     ''  printf('' @ dq @ ''QUEUE pid=%d comm=%s ring=0x%lx wptr=0x%lx rptr=0x%lx size=%lu node=%u'' @ bs_n @ dq @ '',\<newline>'' @
     ''         pid, comm, (uint64)arg5, $wptr, $rptr, $size, (uint32)arg0);\<newline>'' @
     ''}\<newline>'' @
     ''interval:ms:10 { printf('' @ dq @ dq @ ''); }\<newline>''"

section \<open>Arming a uprobe\<close>

text \<open>
  The outcomes of the system calls before the wait for the probe: the script's temporary file,
  writing it, the pipe and the fork.
\<close>

record launch =
  la_exists :: "string \<Rightarrow> bool"
  la_tmp_ok :: bool
  la_write_ok :: "string \<Rightarrow> bool"
  la_pipe_ok :: bool
  la_fork_ok :: bool

definition launches :: "launch \<Rightarrow> string \<Rightarrow> string \<Rightarrow> bool" where
  "launches la so_path script =
     (so_path \<noteq> [] \<and> la_exists la so_path \<and> la_tmp_ok la \<and> la_write_ok la script \<and>
      la_pipe_ok la \<and> la_fork_ok la)"

text \<open>
  \<^verbatim>\<open>StartKfdUprobe\<close> reads one byte a time until the text read so far mentions
  \<^verbatim>\<open>Attaching\<close>, the pipe is closed, or the deadline ends the list of rounds.
\<close>

datatype byte_round = Quiet | Byte char | Closed

fun arm_kfd :: "byte_round list \<Rightarrow> string \<Rightarrow> string option" where
  "arm_kfd [] pre = Some pre"
| "arm_kfd (Quiet # rs) pre = arm_kfd rs pre"
| "arm_kfd (Byte c # rs) pre =
     (if contains (pre @ [c]) ''Attaching'' then Some (pre @ [c]) else arm_kfd rs (pre @ [c]))"
| "arm_kfd (Closed # rs) pre = None"

definition StartKfdUprobe :: "launch \<Rightarrow> byte_round list \<Rightarrow> Discovery \<Rightarrow> bool \<times> Discovery" where
  "StartKfdUprobe la rounds d =
     (if \<not> launches la (di_libhsa_path d) (BuildKfdUprobeScript (di_libhsa_path d)) then (False, d)
      else
        (case arm_kfd rounds [] of
           None \<Rightarrow> (False, d)
         | Some pre \<Rightarrow> (True, d\<lparr>di_pipe_open := True, di_bpf_prebuf := pre\<rparr>)))"

text \<open>
  \<^verbatim>\<open>StartBpftrace\<close> reads up to 512 bytes a round, and gives up when bpftrace has exited. It
  appends to the member \<^verbatim>\<open>bpf_prebuf_\<close>.
\<close>

fun arm_bpf :: "(string \<times> bool) list \<Rightarrow> string \<Rightarrow> bool \<times> string" where
  "arm_bpf [] pre = (True, pre)"
| "arm_bpf ((chunk, exited) # rs) pre =
     (if chunk \<noteq> [] \<and> contains (pre @ chunk) ''Attaching'' then (True, pre @ chunk)
      else if exited then (False, pre @ chunk)
      else arm_bpf rs (pre @ chunk))"

definition StartBpftrace :: "launch \<Rightarrow> (string \<times> bool) list \<Rightarrow> Discovery \<Rightarrow> bool \<times> Discovery" where
  "StartBpftrace la rounds d =
     (if \<not> launches la (di_librocdxg_path d) (BuildBpftraceScript (di_librocdxg_path d)) then (False, d)
      else
        (case arm_bpf rounds (di_bpf_prebuf d) of
           (ok, pre) \<Rightarrow> (ok, d\<lparr>di_pipe_open := ok, di_bpf_prebuf := pre\<rparr>)))"

section \<open>Reading a uprobe\<close>

text \<open>The lambdas \<^verbatim>\<open>get_u64\<close> (any base) and \<^verbatim>\<open>get_str\<close> of both readers.\<close>

definition get_u64 :: "string \<Rightarrow> string \<Rightarrow> u64" where
  "get_u64 line key =
     (let needle = '' '' @ key @ ''='' in
      case str_find line needle 0 of
        None \<Rightarrow> 0
      | Some p \<Rightarrow> strtoull 0 (drop (p + length needle) line))"

definition get_str :: "string \<Rightarrow> string \<Rightarrow> string" where
  "get_str line key =
     (let needle = '' '' @ key @ ''='' in
      case str_find line needle 0 of
        None \<Rightarrow> []
      | Some p \<Rightarrow> takeWhile (\<lambda>c. c \<noteq> CHR '' '') (drop (p + length needle) line))"

text \<open>\<^verbatim>\<open>line.find(tag) != 0\<close>.\<close>

definition has_tag :: "string \<Rightarrow> string \<Rightarrow> bool" where
  "has_tag line tag = (str_find line tag 0 = Some 0)"

definition kfd_line ::
  "Discovery \<Rightarrow> disc_env \<Rightarrow> string \<Rightarrow> u64 list \<times> u64 \<Rightarrow> QueueInfo option \<times> u64 list \<times> u64"
where
  "kfd_line d env line st =
     (case st of (seen, uid) \<Rightarrow>
        if \<not> has_tag line ''DISPATCH '' then (None, seen, uid)
        else
          let ring = get_u64 line ''ring''; slots = ucast (get_u64 line ''slots'') :: u32 in
          if ring = 0 \<or> slots = 0 then (None, seen, uid)
          else if ring \<in> set seen then (None, seen, uid)
          else
            let q = new_QueueInfo\<lparr>q_pid := to_c_int (get_u64 line ''pid''), q_comm := get_str line ''comm'',
                  q_ring_base := ring, q_ring_size := ucast (ucast slots * 64 :: u64),
                  q_wptr_addr := 0, q_rptr_addr := 0, q_qtype := 2, q_gpu_id := 0, q_uid := uid,
                  q_create_ts := de_clock env uid\<rparr>
            in (if di_pid_filter d \<noteq> 0 \<and> q_pid q \<noteq> di_pid_filter d then None else Some q,
                ring # seen, uid + 1))"

text \<open>
  The namespace pid of a bpftrace event: with a filter, the filter, unless both names are known
  and neither holds the first 15 characters of the other; without, the first process in the
  window whose name holds that of the event.
\<close>

definition comm_mismatch :: "proc_comm \<Rightarrow> c_int \<Rightarrow> string \<Rightarrow> bool" where
  "comm_mismatch pc pid_filter comm =
     (case pc pid_filter of
        None \<Rightarrow> False
      | Some target \<Rightarrow>
          target \<noteq> [] \<and> \<not> contains comm (take 15 target) \<and> \<not> contains target (take 15 comm))"

definition same_name :: "proc_comm \<Rightarrow> string \<Rightarrow> c_int \<Rightarrow> bool" where
  "same_name pc comm candidate =
     (0 < candidate \<and>
      (case pc candidate of None \<Rightarrow> False | Some c \<Rightarrow> c \<noteq> [] \<and> contains c (take 15 comm)))"

definition ns_pid_of :: "proc_comm \<Rightarrow> c_int \<Rightarrow> string \<Rightarrow> c_int \<Rightarrow> c_int option" where
  "ns_pid_of pc pid_filter comm pid =
     (if pid_filter \<noteq> 0 then (if comm_mismatch pc pid_filter comm then None else Some pid_filter)
      else Some (case find (same_name pc comm) [pid - 200000 .. pid] of Some c \<Rightarrow> c | None \<Rightarrow> pid))"

definition bpftrace_line ::
  "Discovery \<Rightarrow> disc_env \<Rightarrow> string \<Rightarrow> u64 \<Rightarrow> QueueInfo option \<times> u64"
where
  "bpftrace_line d env line uid =
     (if line = [] \<or> \<not> has_tag line ''QUEUE '' then (None, uid)
      else
        let pid = to_c_int (get_u64 line ''pid''); comm = get_str line ''comm'';
            ring = get_u64 line ''ring''; qbytes = get_u64 line ''size'' in
        if ring = 0 \<or> qbytes = 0 then (None, uid)
        else
          (case ns_pid_of (de_comm env uid) (di_pid_filter d) comm pid of
             None \<Rightarrow> (None, uid)
           | Some ns_pid \<Rightarrow>
               (Some (new_QueueInfo\<lparr>q_pid := ns_pid, q_comm := real_comm (de_comm env uid) ns_pid comm,
                  q_ring_base := ring, q_wptr_addr := get_u64 line ''wptr'',
                  q_rptr_addr := get_u64 line ''rptr'', q_ring_size := ucast qbytes,
                  q_gpu_id := ucast (get_u64 line ''node''), q_qtype := 21,
                  q_create_ts := de_clock env uid, q_uid := uid\<rparr>), uid + 1)))"

text \<open>
  The outer loop of both readers, over the results its \<^verbatim>\<open>read\<close> calls will have. \<open>rd_done\<close> is the
  exit from the loop; a \<^verbatim>\<open>read\<close> with no result left blocks. \<open>handle\<close> is the body of the inner
  loop and \<open>rd_vars\<close> its local variables.
\<close>

datatype read_result = Got string | Eof | Eintr | Failed

record 'v reader =
  rd_buf :: string
  rd_pending :: "read_result list"
  rd_vars :: 'v
  rd_queues :: "QueueInfo list"
  rd_done :: bool

definition blocked :: "'v reader \<Rightarrow> bool" where
  "blocked s = (rd_buf s = [] \<and> rd_pending s = [])"

definition take_lines ::
  "(string \<Rightarrow> 'v \<Rightarrow> QueueInfo option \<times> 'v) \<Rightarrow> 'v reader \<Rightarrow> 'v reader"
where
  "take_lines handle s =
     (case split_lines (rd_buf s) of (ls, rest) \<Rightarrow>
      case handle_lines handle ls (rd_vars s) of (qs, v) \<Rightarrow>
        s\<lparr>rd_buf := rest, rd_vars := v, rd_queues := rd_queues s @ qs\<rparr>)"

definition reader_round ::
  "(string \<Rightarrow> 'v \<Rightarrow> QueueInfo option \<times> 'v) \<Rightarrow> 'v reader \<Rightarrow> 'v reader"
where
  "reader_round handle s =
     (if rd_buf s \<noteq> [] then take_lines handle s
      else
        (case rd_pending s of
           [] \<Rightarrow> s
         | Got chunk # rs \<Rightarrow> take_lines handle (s\<lparr>rd_buf := chunk, rd_pending := rs\<rparr>)
         | Eintr # rs \<Rightarrow> s\<lparr>rd_pending := rs\<rparr>
         | Eof # rs \<Rightarrow> s\<lparr>rd_pending := rs, rd_done := True\<rparr>
         | Failed # rs \<Rightarrow> s\<lparr>rd_pending := rs, rd_done := True\<rparr>))"

text \<open>With \<open>n\<close> rounds the loop ends or waits for input, or \<open>None\<close>.\<close>

fun reader_loop ::
  "(string \<Rightarrow> 'v \<Rightarrow> QueueInfo option \<times> 'v) \<Rightarrow> nat \<Rightarrow> 'v reader \<Rightarrow> 'v reader option"
where
  "reader_loop handle n s =
     (if rd_done s \<or> blocked s then Some s
      else case n of 0 \<Rightarrow> None | Suc m \<Rightarrow> reader_loop handle m (reader_round handle s))"

declare reader_loop.simps [simp del]

definition RunKfdUprobe ::
  "Discovery \<Rightarrow> disc_env \<Rightarrow> u64 \<Rightarrow> read_result list \<Rightarrow> nat \<Rightarrow> (u64 list \<times> u64) reader option"
where
  "RunKfdUprobe d env next_uid pending n =
     reader_loop (kfd_line d env) n
       \<lparr>rd_buf = di_bpf_prebuf d, rd_pending = pending, rd_vars = ([], next_uid), rd_queues = [],
        rd_done = False\<rparr>"

definition RunBpftrace ::
  "Discovery \<Rightarrow> disc_env \<Rightarrow> read_result list \<Rightarrow> nat \<Rightarrow> u64 reader option"
where
  "RunBpftrace d env pending n =
     reader_loop (bpftrace_line d env) n
       \<lparr>rd_buf = di_bpf_prebuf d, rd_pending = pending, rd_vars = 1, rd_queues = [], rd_done = False\<rparr>"

section \<open>Starting and stopping\<close>

definition Start ::
  "write_oracle \<Rightarrow> bool \<Rightarrow> launch \<Rightarrow> (string \<times> bool) list \<Rightarrow> byte_round list \<Rightarrow> Discovery \<Rightarrow>
   file_system \<Rightarrow> bool \<times> Discovery \<times> file_system"
where
  "Start writable pipe_opens la bpf_rounds kfd_rounds d fs =
     (case di_mode d of
        kBpftrace \<Rightarrow>
          (case StartBpftrace la bpf_rounds d of
             (ok, d1) \<Rightarrow> (ok, if ok then d1\<lparr>di_running := True\<rparr> else d1, fs))
      | kKfdUprobe \<Rightarrow>
          (case StartKfdUprobe la kfd_rounds d of
             (ok, d1) \<Rightarrow> (ok, if ok then d1\<lparr>di_running := True\<rparr> else d1, fs))
      | kKprobe \<Rightarrow>
          (case InstallKprobe writable d fs of
             (False, d1, fs1) \<Rightarrow> (False, d1, fs1)
           | (True, d1, fs1) \<Rightarrow>
               if pipe_opens then (True, d1\<lparr>di_pipe_open := True, di_running := True\<rparr>, fs1)
               else (False, RemoveKprobe writable d1 fs1)))"

definition Stop :: "write_oracle \<Rightarrow> Discovery \<Rightarrow> file_system \<Rightarrow> Discovery \<times> file_system" where
  "Stop writable d fs =
     (if \<not> di_running d then (d, fs)
      else
        let d1 = d\<lparr>di_running := False\<rparr> in
        if di_mode d = kBpftrace \<or> di_mode d = kKfdUprobe then (d1\<lparr>di_pipe_open := False\<rparr>, fs)
        else (case RemoveKprobe writable d1 fs of (d2, fs2) \<Rightarrow> (d2\<lparr>di_pipe_open := False\<rparr>, fs2)))"

end
