(* ===== verification/Discovery_Properties.thy ===== *)
theory Discovery_Properties
  imports Discovery
begin

text \<open>
  Properties of queue discovery: how lines are cut from the pipe, what the three handlers
  report, what is left of the tracefs settings, and when the uprobe readers make progress.
\<close>

section \<open>Cutting lines\<close>

lemma split_lines_rest: "split_lines s = (ls, rest) \<Longrightarrow> CHR 0x0A \<notin> set rest"
  by (induction s arbitrary: ls rest) (auto split: prod.splits if_splits list.splits)

lemma split_lines_none: "CHR 0x0A \<notin> set s \<Longrightarrow> split_lines s = ([], s)"
  by (induction s) auto

lemma split_lines_join:
  "split_lines s = (ls, rest) \<Longrightarrow> concat (map (\<lambda>l. l @ [CHR 0x0A]) ls) @ rest = s"
  by (induction s arbitrary: ls rest) (auto split: prod.splits if_splits list.splits)

lemma split_lines_cons:
  "CHR 0x0A \<notin> set l \<Longrightarrow> split_lines (l @ CHR 0x0A # s) = (case split_lines s of (ls, rest) \<Rightarrow> (l # ls, rest))"
  by (induction l) (auto split: prod.splits)

lemma split_lines_lines: "split_lines s = (ls, rest) \<Longrightarrow> l \<in> set ls \<Longrightarrow> CHR 0x0A \<notin> set l"
  by (induction s arbitrary: ls rest l) (auto split: prod.splits if_splits list.splits)

lemma split_lines_of_lines:
  "\<forall>l \<in> set ls. CHR 0x0A \<notin> set l \<Longrightarrow>
     split_lines (concat (map (\<lambda>l. l @ [CHR 0x0A]) ls) @ s) =
       (case split_lines s of (ls', rest) \<Rightarrow> (ls @ ls', rest))"
  by (induction ls) (auto simp: split_lines_cons split: prod.splits)

lemma split_lines_append:
  assumes "split_lines s = (ls, rest)"
  shows "split_lines (s @ t) = (case split_lines (rest @ t) of (ls', rest') \<Rightarrow> (ls @ ls', rest'))"
proof -
  have "s @ t = concat (map (\<lambda>l. l @ [CHR 0x0A]) ls) @ (rest @ t)"
    using split_lines_join [OF assms] by simp
  then show ?thesis using split_lines_of_lines [of ls "rest @ t"] split_lines_lines [OF assms] by simp
qed

lemma split_lines_ends: "split_lines (s @ [CHR 0x0A]) = (fst (split_lines s) @ [snd (split_lines s)], [])"
  using split_lines_append [of s _ _ "[CHR 0x0A]"]
    split_lines_cons [of "snd (split_lines s)" "[]"] split_lines_rest [of s]
  by (cases "split_lines s") simp

lemma handle_lines_append:
  "handle_lines h (ls @ ls') v =
     (case handle_lines h ls v of (qs, v1) \<Rightarrow> case handle_lines h ls' v1 of (qs', v2) \<Rightarrow> (qs @ qs', v2))"
  by (induction h ls v rule: handle_lines.induct) (auto split: prod.splits option.splits)

section \<open>Handlers\<close>

text \<open>
  What a reader relies on: a handler gives each queue it reports the next uid, and uses up at
  most one uid a line.
\<close>

locale uid_handler =
  fixes handle :: "string \<Rightarrow> 'v \<Rightarrow> QueueInfo option \<times> 'v"
    and uid_of :: "'v \<Rightarrow> u64"
    and good :: "QueueInfo \<Rightarrow> bool"
  assumes reported: "handle l v = (Some q, v') \<Longrightarrow> q_uid q = uid_of v \<and> uid_of v' = uid_of v + 1 \<and> good q"
    and silent: "handle l v = (None, v') \<Longrightarrow> uid_of v' = uid_of v \<or> uid_of v' = uid_of v + 1"
begin

lemma handle_lines_uids:
  assumes "handle_lines handle ls v = (qs, v')" "unat (uid_of v) + length ls < 2 ^ 64"
  shows "sorted_wrt (<) (map q_uid qs) \<and> list_all good qs \<and>
    (\<forall>q \<in> set qs. uid_of v \<le> q_uid q \<and> q_uid q < uid_of v') \<and> uid_of v \<le> uid_of v' \<and>
    unat (uid_of v') \<le> unat (uid_of v) + length ls"
  using assms
proof (induction ls arbitrary: v qs)
  case (Cons l ls)
  obtain q v1 where h: "handle l v = (q, v1)" by force
  obtain qs1 where r: "handle_lines handle ls v1 = (qs1, v')" and qs: "qs = (case q of Some x \<Rightarrow> x # qs1 | None \<Rightarrow> qs1)"
    using Cons.prems(1) h by (auto split: prod.splits)
  have n: "unat (uid_of v + 1) = Suc (unat (uid_of v))"
    using Cons.prems(2) by (simp add: unat_add_no_wrap)
  have "uid_of v1 = uid_of v \<or> uid_of v1 = uid_of v + 1" using h reported silent by (cases q) auto
  then have u: "unat (uid_of v1) = unat (uid_of v) \<or> unat (uid_of v1) = Suc (unat (uid_of v))"
    using n by auto
  then have "unat (uid_of v1) + length ls < 2 ^ 64" using Cons.prems(2) by auto
  note IH = Cons.IH [OF r this]
  show ?case
  proof (cases q)
    case None
    then show ?thesis using IH qs u by (auto simp: word_le_nat_alt)
  next
    case (Some x)
    then have x: "q_uid x = uid_of v" "uid_of v1 = uid_of v + 1" "good x" using h reported by auto
    have lt: "uid_of v < uid_of v1" using n x(2) by (simp add: word_less_nat_alt)
    then have "\<forall>y \<in> set qs1. q_uid x < q_uid y \<and> uid_of v \<le> q_uid y"
      using IH x(1) by (auto dest: less_le_trans)
    moreover have "uid_of v < uid_of v'" using lt IH by (auto dest: less_le_trans)
    ultimately show ?thesis using IH Some qs x u by auto
  qed
qed simp

end

definition passes_filter :: "Discovery \<Rightarrow> QueueInfo \<Rightarrow> bool" where
  "passes_filter d q = (di_pid_filter d = 0 \<or> q_pid q = di_pid_filter d)"

definition usable_ring :: "QueueInfo \<Rightarrow> bool" where
  "usable_ring q = (q_ring_base q \<noteq> 0 \<and> q_ring_size q \<noteq> 0)"

interpretation kprobe: uid_handler "kprobe_line d env" "\<lambda>uid. uid" "\<lambda>q. passes_filter d q \<and> usable_ring q"
  for d env
  by unfold_locales
    (auto simp: kprobe_line_def Let_def kprobe_queue_def passes_filter_def usable_ring_def
      split: if_splits option.splits prod.splits)

interpretation kfd: uid_handler "kfd_line d env" snd "\<lambda>q. passes_filter d q \<and> q_ring_base q \<noteq> 0"
  for d env
  by unfold_locales
    (auto simp: kfd_line_def Let_def passes_filter_def split: if_splits option.splits prod.splits)

interpretation bpf: uid_handler "bpftrace_line d env" "\<lambda>uid. uid" "\<lambda>q. passes_filter d q \<and> q_ring_base q \<noteq> 0"
  for d env
  by unfold_locales
    (auto simp: bpftrace_line_def Let_def ns_pid_of_def passes_filter_def
      split: if_splits option.splits prod.splits)

section \<open>The kprobe reader\<close>

fun round_text :: "pipe_round \<Rightarrow> string" where
  "round_text NoData = []"
| "round_text (Data chunk) = chunk"

lemma RunKprobe_lines:
  "CHR 0x0A \<notin> set buf \<Longrightarrow>
   RunKprobe d env rs buf uid =
     fst (handle_lines (kprobe_line d env) (fst (split_lines (buf @ concat (map round_text rs)))) uid)"
proof (induction d env rs buf uid rule: RunKprobe.induct)
  case (1 d env buf uid)
  then show ?case by (simp add: split_lines_none)
next
  case (2 d env rs buf uid)
  then show ?case by simp
next
  case (3 d env chunk rs buf uid)
  obtain ls rest where s: "split_lines (buf @ chunk) = (ls, rest)" by force
  obtain qs uid1 where h: "handle_lines (kprobe_line d env) ls uid = (qs, uid1)" by force
  obtain ls' rest' where s': "split_lines (rest @ concat (map round_text rs)) = (ls', rest')" by force
  have "split_lines (buf @ chunk @ concat (map round_text rs)) = (ls @ ls', rest')"
    using split_lines_append [OF s, of "concat (map round_text rs)"] s' by simp
  then show ?case
    using "3.IH" [OF s [symmetric] h [symmetric] split_lines_rest [OF s]] s h s'
    by (simp add: handle_lines_append split: prod.splits)
qed

lemma kprobe_chunking:
  "RunKprobe d env rs [] uid =
     fst (handle_lines (kprobe_line d env) (fst (split_lines (concat (map round_text rs)))) uid)"
  using RunKprobe_lines [of "[]"] by simp

text \<open>
  C17: the kprobe reader reports the same queues however the trace pipe cuts its output into
  reads: what it reports is a function of the complete lines of the whole text. Reads that
  time out or fail change nothing.
\<close>

theorem kprobe_chunking_irrelevant:
  "RunKprobe d env rs [] uid =
     fst (handle_lines (kprobe_line d env) (fst (split_lines (concat (map round_text rs)))) uid)"
  by (rule kprobe_chunking)

text \<open>
  C15: the queues one run reports have strictly increasing, hence distinct, uids, a ring that is
  not empty, and belong to the filtered process when there is a filter.
\<close>

theorem kprobe_queues_fresh:
  assumes "length (fst (split_lines (concat (map round_text rs)))) < 2 ^ 63"
  shows "sorted_wrt (<) (map q_uid (RunKprobe d env rs [] 1)) \<and>
    list_all (\<lambda>q. passes_filter d q \<and> usable_ring q) (RunKprobe d env rs [] 1)"
proof -
  let ?ls = "fst (split_lines (concat (map round_text rs)))"
  obtain qs v where h: "handle_lines (kprobe_line d env) ?ls 1 = (qs, v)" by force
  have "unat (1 :: u64) + length ?ls < 2 ^ 64" using assms by simp
  from kprobe.handle_lines_uids [OF h this] show ?thesis
    using h kprobe_chunking [of d env rs 1] by simp
qed

section \<open>Progress of the uprobe readers\<close>

lemma partial_line_round:
  assumes "rd_buf s \<noteq> []" "CHR 0x0A \<notin> set (rd_buf s)"
  shows "reader_round h s = s"
  using assms by (simp add: reader_round_def take_lines_def split_lines_none)

lemma partial_line_stuck:
  assumes "rd_buf s \<noteq> []" "CHR 0x0A \<notin> set (rd_buf s)" "\<not> rd_done s"
  shows "reader_loop h n s = None"
proof (induction n)
  case 0
  then show ?case using assms by (simp add: reader_loop.simps [of h 0] blocked_def)
next
  case (Suc n)
  then show ?case
    using assms by (simp add: reader_loop.simps [of h "Suc n"] blocked_def partial_line_round)
qed

lemma partial_tail_stuck:
  assumes "snd (split_lines (rd_buf s)) \<noteq> []" "\<not> rd_done s"
  shows "reader_loop h n s = None"
proof (cases n)
  case 0
  have "rd_buf s \<noteq> []" using assms(1) by auto
  then show ?thesis using 0 assms by (simp add: reader_loop.simps [of h 0] blocked_def)
next
  case (Suc m)
  obtain ls rest where s: "split_lines (rd_buf s) = (ls, rest)" by force
  have b: "rd_buf s \<noteq> []" using assms(1) by auto
  have "rd_buf (reader_round h s) = rest" "\<not> rd_done (reader_round h s)"
    using b s assms(2) by (auto simp: reader_round_def take_lines_def split: prod.splits)
  then have "reader_loop h m (reader_round h s) = None"
    using s assms(1) split_lines_rest [OF s] by (intro partial_line_stuck) auto
  then show ?thesis using b assms(2) Suc by (simp add: reader_loop.simps [of h "Suc m"] blocked_def)
qed

lemma find_from_start_append:
  "find_from_start needle s = None \<Longrightarrow> find_from_start needle (s @ [c]) \<noteq> None \<Longrightarrow> needle \<noteq> [] \<Longrightarrow>
     last needle = c"
proof (induction needle s rule: find_from_start.induct)
  case (1 needle)
  then show ?case by (cases needle) (auto split: if_splits)
next
  case (2 needle d ds)
  have n: "take (length needle) (d # ds) \<noteq> needle" and m: "find_from_start needle ds = None"
    using "2.prems"(1) by (auto split: if_splits)
  show ?case
  proof (cases "take (length needle) (d # ds @ [c]) = needle")
    case True
    have "length needle = Suc (length (d # ds))"
    proof (rule ccontr)
      assume "length needle \<noteq> Suc (length (d # ds))"
      moreover have "length needle \<le> Suc (length (d # ds))" using arg_cong [OF True, of length] by simp
      ultimately have "length needle \<le> length (d # ds)" by simp
      then have "take (length needle) (d # ds @ [c]) = take (length needle) (d # ds)"
        using take_append [of "length needle" "d # ds" "[c]"] by simp
      with True n show False by simp
    qed
    then have "needle = d # ds @ [c]" using True by simp
    then show ?thesis by simp
  next
    case False
    have "find_from_start needle (ds @ [c]) \<noteq> None" using "2.prems"(2) False by auto
    with 2 m n show ?thesis by auto
  qed
qed

lemma arm_kfd_tail:
  assumes "arm_kfd rounds pre = Some buf" "\<not> contains pre ''Attaching''" "contains buf ''Attaching''"
  shows "\<exists>front. buf = front @ ''g''"
  using assms
proof (induction rounds pre rule: arm_kfd.induct)
  case (3 c rs pre)
  show ?case
  proof (cases "contains (pre @ [c]) ''Attaching''")
    case True
    then have "find_from_start ''Attaching'' pre = None"
      "find_from_start ''Attaching'' (pre @ [c]) \<noteq> None"
      using "3.prems"(2) by (simp_all add: contains_def str_find_def)
    then have "last ''Attaching'' = c" by (rule find_from_start_append) simp
    then show ?thesis using True "3.prems"(1) by auto
  next
    case False
    then show ?thesis using 3 by simp
  qed
qed simp_all

text \<open>
  Once \<^verbatim>\<open>StartKfdUprobe\<close> has seen bpftrace attach, the reader thread of the kfd-uprobe mode
  never reads the pipe: the bytes kept from the wait end in the middle of a line, and the loop
  only reads when that buffer is empty. It spins without end, whatever bpftrace prints, and
  reports no queue.
\<close>

theorem kfd_armed_reader_spins:
  assumes "StartKfdUprobe la rounds d = (True, d')" and "contains (di_bpf_prebuf d') ''Attaching''"
  shows "RunKfdUprobe d' env uid pending n = None"
proof -
  have "arm_kfd rounds [] = Some (di_bpf_prebuf d')"
    using assms(1) by (auto simp: StartKfdUprobe_def split: if_splits option.splits)
  then obtain front where f: "di_bpf_prebuf d' = front @ ''g''"
    using arm_kfd_tail [of rounds "[]", OF _ _ assms(2)] by (auto simp: contains_def str_find_def)
  obtain ls rest where s: "split_lines front = (ls, rest)" by force
  have "split_lines (rest @ ''g'') = ([], rest @ ''g'')"
    using split_lines_rest [OF s] by (intro split_lines_none) auto
  then have "snd (split_lines (front @ ''g'')) \<noteq> []"
    using split_lines_append [OF s, of "''g''"] by simp
  then show ?thesis unfolding RunKfdUprobe_def by (intro partial_tail_stuck) (simp_all add: f)
qed









section \<open>Reading a probe event\<close>

lemma find_skip_nonspace:
  "CHR '' '' \<notin> set a \<Longrightarrow>
     find_from_start (CHR '' '' # k) (a @ s) = map_option (\<lambda>i. length a + i) (find_from_start (CHR '' '' # k) s)"
proof (induction a)
  case Nil
  then show ?case by (cases "find_from_start (CHR '' '' # k) s") simp_all
next
  case (Cons c a)
  then show ?case by (cases "find_from_start (CHR '' '' # k) s") auto
qed

text \<open>A key cannot match across the blank that starts the next word.\<close>

lemma find_skip_words:
  assumes "e \<notin> set a" "CHR '' '' \<notin> set k" "e \<noteq> CHR '' ''"
  shows "find_from_start (CHR '' '' # k @ [e]) (a @ CHR '' '' # s) =
    map_option (\<lambda>i. length a + i) (find_from_start (CHR '' '' # k @ [e]) (CHR '' '' # s))"
  using assms(1)
proof (induction a)
  case Nil
  then show ?case by (cases "find_from_start (CHR '' '' # k @ [e]) (CHR '' '' # s)") simp_all
next
  case (Cons c a)
  have "take (length k + 1) (a @ CHR '' '' # s) \<noteq> k @ [e]"
  proof
    assume t: "take (length k + 1) (a @ CHR '' '' # s) = k @ [e]"
    show False
    proof (cases "length k < length a")
      case True
      then have "take (length k + 1) (a @ CHR '' '' # s) = take (length k + 1) a" by simp
      then have "e \<in> set a" using t by (metis in_set_conv_decomp in_set_takeD)
      then show False using Cons.prems by simp
    next
      case False
      then have "(k @ [e]) ! length a = CHR '' ''"
        unfolding t [symmetric] by (simp add: nth_append)
      moreover have "(k @ [e]) ! length a \<in> set (k @ [e])" using False by (intro nth_mem) simp
      ultimately show False using assms(2,3) by auto
    qed
  qed
  then show ?case
    using Cons by (cases "find_from_start (CHR '' '' # k @ [e]) (CHR '' '' # s)") (auto simp del: take_append)
qed

lemma key_prefix:
  assumes "take (length k + 1) (k' @ e # r) = k @ [e]" "e \<notin> set k" "e \<notin> set k'"
  shows "k' = k"
proof -
  have stops: "takeWhile (\<lambda>c. c \<noteq> e) (x @ e # y) = x" if "e \<notin> set x" for x y
    using that by (induction x) auto
  have "takeWhile (\<lambda>c. c \<noteq> e) (take (length k + 1) (k' @ e # r) @ drop (length k + 1) (k' @ e # r)) = k'"
    using stops [OF assms(3)] by (simp only: append_take_drop_id)
  moreover have "takeWhile (\<lambda>c. c \<noteq> e) ((k @ [e]) @ drop (length k + 1) (k' @ e # r)) = k"
    using stops [OF assms(2)] by simp
  ultimately show ?thesis by (simp only: assms(1))
qed

definition event_fields :: "(string \<times> nat) list \<Rightarrow> string" where
  "event_fields fs = concat (map (\<lambda>f. '' '' @ fst f @ ''='' @ show_dec (snd f)) fs)"

definition plain_key :: "string \<Rightarrow> bool" where
  "plain_key k = (CHR '' '' \<notin> set k \<and> CHR ''='' \<notin> set k)"

lemma show_dec_no_blank: "CHR '' '' \<notin> set (show_dec n)"
proof
  assume "CHR '' '' \<in> set (show_dec n)"
  then obtain d where "d < 10" "CHR '' '' = digit_char d"
    using digits_of_show_radix [of 10] unfolding show_dec_def by force
  then have "\<not> c_isspace CHR '' ''" using digit_char_plain [of d] by simp
  then show False by (simp add: c_isspace_def)
qed

lemma event_field_value:
  assumes "list_all (\<lambda>f. plain_key (fst f) \<and> snd f < 2 ^ 64) fs" "plain_key k" "map_of fs k = Some v"
  shows "\<exists>i. find_from_start (CHR '' '' # k @ ''='') (event_fields fs) = Some i \<and>
    strtoull 10 (drop (i + length k + 2) (event_fields fs)) = of_nat v"
  using assms(1,3)
proof (induction fs)
  case (Cons f fs)
  obtain k' v' where f: "f = (k', v')" by (cases f)
  have k': "plain_key k'" "v' < 2 ^ 64" using Cons.prems(1) f by simp_all
  have e: "event_fields (f # fs) = CHR '' '' # k' @ CHR ''='' # show_dec v' @ event_fields fs"
    by (simp add: event_fields_def f)
  have hd: "event_fields fs = [] \<or> char_digit (hd (event_fields fs)) = None"
    by (cases fs) (simp_all add: event_fields_def char_digit_def)
  show ?case
  proof (cases "k' = k")
    case True
    have "find_from_start (CHR '' '' # k @ ''='') (event_fields (f # fs)) = Some 0"
      by (simp add: e True)
    moreover have "strtoull 10 (show_dec v' @ event_fields fs) = of_nat v'"
      using k'(2) hd by (rule strtoull_show_dec)
    moreover have "v' = v" using Cons.prems(2) f True by simp
    ultimately show ?thesis by (auto simp: e True)
  next
    case False
    then have "map_of fs k = Some v" using Cons.prems(2) f by simp
    with Cons obtain i where i: "find_from_start (CHR '' '' # k @ ''='') (event_fields fs) = Some i"
      "strtoull 10 (drop (i + length k + 2) (event_fields fs)) = of_nat v" by auto
    have "take (length k + 1) (k' @ CHR ''='' # show_dec v' @ event_fields fs) \<noteq> k @ ''=''"
      using key_prefix [of k k' "CHR ''=''"] False assms(2) k'(1) by (auto simp: plain_key_def)
    moreover have "CHR '' '' \<notin> set (k' @ CHR ''='' # show_dec v')"
      using k'(1) show_dec_no_blank by (simp add: plain_key_def)
    from find_skip_nonspace [OF this, of "k @ ''=''" "event_fields fs"]
    have "find_from_start (CHR '' '' # k @ ''='') (k' @ CHR ''='' # show_dec v' @ event_fields fs) =
        Some (length k' + 1 + length (show_dec v') + i)" using i(1) by simp
    ultimately have "find_from_start (CHR '' '' # k @ ''='') (event_fields (f # fs)) =
        Some (Suc (length k' + 1 + length (show_dec v') + i))"
      by (simp add: e del: take_append)
    moreover have "drop (Suc (length k' + 1 + length (show_dec v') + i) + length k + 2) (event_fields (f # fs)) =
        drop (i + length k + 2) (event_fields fs)"
    proof -
      let ?pre = "CHR '' '' # k' @ CHR ''='' # show_dec v'"
      have "drop (length ?pre + (i + length k + 2)) (?pre @ event_fields fs) = drop (i + length k + 2) (event_fields fs)"
        by (simp only: drop_append length_append) simp
      moreover have "length ?pre + (i + length k + 2) = Suc (length k' + 1 + length (show_dec v') + i) + length k + 2"
        by simp
      ultimately show ?thesis by (simp only: e) simp
    qed
    ultimately show ?thesis using i(2) by auto
  qed
qed simp

lemma FindU64_event:
  assumes "CHR ''='' \<notin> set head" "list_all (\<lambda>f. plain_key (fst f) \<and> snd f < 2 ^ 64) fs" "plain_key k"
    "map_of fs k = Some v"
  shows "FindU64 (head @ event_fields fs) k = of_nat v"
proof -
  obtain i where i: "find_from_start (CHR '' '' # k @ ''='') (event_fields fs) = Some i"
    "strtoull 10 (drop (i + length k + 2) (event_fields fs)) = of_nat v"
    using event_field_value [OF assms(2-4)] by blast
  obtain s where s: "event_fields fs = CHR '' '' # s"
    using assms(4) by (cases fs) (simp_all add: event_fields_def)
  have "find_from_start (CHR '' '' # k @ ''='') (head @ event_fields fs) = Some (length head + i)"
    unfolding s using find_skip_words [of "CHR ''=''" head k s] assms(1,3) i(1) [unfolded s]
    by (simp add: plain_key_def)
  then show ?thesis using i(2) by (simp add: FindU64_def str_find_def add.commute add.left_commute)
qed

text \<open>A trace pipe line: padded name and pid, the rest of the ftrace head, the fetched arguments.\<close>

definition event_line :: "string \<Rightarrow> nat \<Rightarrow> nat \<Rightarrow> string \<Rightarrow> (string \<times> nat) list \<Rightarrow> string" where
  "event_line comm pid pad mid fs =
     comm @ ''-'' @ show_dec pid @ replicate pad (CHR '' '') @ '' ['' @ mid @ event_fields fs"

lemma find_bracket:
  assumes "CHR ''['' \<notin> set a"
  shows "find_from_start '' ['' (a @ replicate pad (CHR '' '') @ '' ['' @ s) = Some (length a + pad)"
proof -
  have "CHR ''['' \<notin> set (a @ replicate pad (CHR '' ''))" using assms by auto
  from find_skip_words [OF this, of "[]" "CHR ''['' # s"] show ?thesis by simp
qed

lemma last_index_dash:
  "CHR ''-'' \<notin> set s \<Longrightarrow> last_index (CHR ''-'') (a @ CHR ''-'' # s) = Some (length a)"
proof (induction a)
  case Nil
  then show ?case using last_index_None [of "CHR ''-''" s] by simp
qed simp

lemma ucast_up_down: "(ucast (ucast (x :: u32) :: u64) :: u32) = x"
  by (rule bit_word_eqI) (simp add: bit_simps)

lemma atoi_show_dec:
  assumes "n < 2 ^ 31" "rest = [] \<or> char_digit (hd rest) = None"
  shows "atoi (show_dec n @ rest) = int n"
proof -
  have r: "read_digits 10 0 (show_dec n @ rest) = (n, rest)"
    using assms(2) by (cases rest) (auto simp: show_dec_def read_show_radix read_show_radix [of _ _ "[]", simplified])
  have "sint (of_nat n :: u32) = int n"
    using assms(1) by transfer (simp add: signed_take_bit_int_eq_self)
  moreover have "(ucast (of_nat n :: u64) :: u32) = of_nat n"
    by (rule bit_word_eqI) (simp add: bit_simps)
  ultimately show ?thesis
    using r assms(1) unfolding atoi_def
    by (simp add: show_dec_def show_radix_plain to_c_int_def min_def)
qed

lemma parse_event_prefix:
  assumes "CHR ''['' \<notin> set comm" "pid < 2 ^ 31"
  shows "parse_prefix (event_line comm pid pad mid fs) = Some (int pid, strip_left comm)"
proof -
  have d: "c \<notin> set (show_dec pid)" if "char_digit c = None" for c
  proof
    assume "c \<in> set (show_dec pid)"
    then obtain x where "x < 10" "c = digit_char x"
      using digits_of_show_radix [of 10] unfolding show_dec_def by force
    then show False using that by simp
  qed
  have "CHR ''['' \<notin> set (comm @ ''-'' @ show_dec pid)" using assms(1) d by (simp add: char_digit_def)
  from find_bracket [OF this, of pad "mid @ event_fields fs"]
  have f: "str_find (event_line comm pid pad mid fs) '' ['' 0 = Some (length (comm @ ''-'' @ show_dec pid) + pad)"
    by (simp add: str_find_def event_line_def)
  have t: "take (Suc (length comm + length (show_dec pid) + pad)) (event_line comm pid pad mid fs) =
      comm @ CHR ''-'' # show_dec pid @ replicate pad (CHR '' '')"
    by (simp add: event_line_def)
  have "CHR ''-'' \<notin> set (show_dec pid @ replicate pad (CHR '' ''))" using d by (auto simp: char_digit_def)
  from last_index_dash [OF this] have l: "last_index (CHR ''-'') (comm @ CHR ''-'' # show_dec pid @ replicate pad (CHR '' '')) =
      Some (length comm)" by simp
  have "replicate pad (CHR '' '') = [] \<or> char_digit (hd (replicate pad (CHR '' ''))) = None"
    by (cases pad) (simp_all add: char_digit_def)
  from atoi_show_dec [OF assms(2) this] show ?thesis
    unfolding parse_prefix_def f by (simp add: t l Let_def)
qed

text \<open>
  C9: an event of the kprobe, as the trace pipe prints it, is read back exactly: pid, rings,
  sizes and queue type are those the kernel fetched from the ioctl's arguments, provided the
  process name holds neither a bracket nor an equals sign.
\<close>

theorem kprobe_event_read_back:
  fixes rb wp rp :: u64 and sz gpu qt :: u32
  defines "fs \<equiv> [(''ring_base'', unat rb), (''wptr'', unat wp), (''rptr'', unat rp),
    (''ring_size'', unat sz), (''gpu_id'', unat gpu), (''qtype'', unat qt)]"
  assumes "CHR ''['' \<notin> set comm" "CHR ''='' \<notin> set (comm @ mid)" "pid < 2 ^ 31"
    and "contains (event_line comm pid pad mid fs) (di_probe_name d)"
    and "hd (event_line comm pid pad mid fs) \<noteq> CHR ''#''"
    and "di_pid_filter d = 0 \<or> di_pid_filter d = int pid" and "rb \<noteq> 0" "sz \<noteq> 0"
  shows "kprobe_line d env (event_line comm pid pad mid fs) uid =
    (Some (new_QueueInfo\<lparr>q_pid := int pid, q_comm := real_comm (de_comm env uid) (int pid) (strip_left comm),
       q_ring_base := rb, q_wptr_addr := wp, q_rptr_addr := rp, q_ring_size := sz, q_gpu_id := gpu,
       q_qtype := qt, q_create_ts := de_clock env uid, q_uid := uid\<rparr>), uid + 1)"
proof -
  have d: "CHR ''='' \<notin> set (show_dec pid)"
  proof
    assume "CHR ''='' \<in> set (show_dec pid)"
    then obtain x where "x < 10" "CHR ''='' = digit_char x"
      using digits_of_show_radix [of 10] unfolding show_dec_def by force
    then have "char_digit CHR ''='' = Some x" by simp
    then show False by (simp add: char_digit_def)
  qed
  let ?head = "comm @ ''-'' @ show_dec pid @ replicate pad (CHR '' '') @ '' ['' @ mid"
  have h: "CHR ''='' \<notin> set ?head" using assms(3) d by auto
  have b: "unat (w :: u64) < 2 ^ 64" "unat (x :: u32) < 2 ^ 64" for w x
    using unat_bound [of w] unat_bound [of x] by simp_all
  have fs: "list_all (\<lambda>f. plain_key (fst f) \<and> snd f < 2 ^ 64) fs"
    using b by (simp add: fs_def plain_key_def)
  have g: "FindU64 (event_line comm pid pad mid fs) k = of_nat v" if "map_of fs k = Some v" "plain_key k" for k v
    using FindU64_event [OF h fs that(2,1)] by (simp add: event_line_def)
  have "kprobe_queue (event_line comm pid pad mid fs) p c n u =
      new_QueueInfo\<lparr>q_pid := p, q_comm := c, q_ring_base := rb, q_wptr_addr := wp, q_rptr_addr := rp,
        q_ring_size := sz, q_gpu_id := gpu, q_qtype := qt, q_create_ts := n, q_uid := u\<rparr>" for p c n u
    using g [of "''ring_base''"] g [of "''wptr''"] g [of "''rptr''"] g [of "''ring_size''"]
      g [of "''gpu_id''"] g [of "''qtype''"]
    by (simp add: kprobe_queue_def fs_def plain_key_def ucast_up_down)
  moreover have "event_line comm pid pad mid fs \<noteq> []" by (simp add: event_line_def)
  ultimately show ?thesis
    using assms(5-9) by (auto simp: kprobe_line_def parse_event_prefix [OF assms(2,4)] Let_def)
qed

section \<open>One queue per ring\<close>

lemma kfd_lines_distinct:
  "handle_lines (kfd_line d env) ls st = (qs, st') \<Longrightarrow>
     distinct (map q_ring_base qs) \<and> set (map q_ring_base qs) \<inter> set (fst st) = {} \<and>
     set (fst st) \<union> set (map q_ring_base qs) \<subseteq> set (fst st')"
proof (induction ls arbitrary: st qs)
  case (Cons l ls)
  obtain q st1 where h: "kfd_line d env l st = (q, st1)" by (cases "kfd_line d env l st")
  obtain qs1 where r: "handle_lines (kfd_line d env) ls st1 = (qs1, st')"
    and qs: "qs = (case q of Some x \<Rightarrow> x # qs1 | None \<Rightarrow> qs1)"
    using Cons.prems h by (auto split: prod.splits)
  have "set (fst st) \<subseteq> set (fst st1)" and
    "q = Some x \<Longrightarrow> q_ring_base x \<in> set (fst st1) \<and> q_ring_base x \<notin> set (fst st)" for x
    using h by (auto simp: kfd_line_def Let_def split: prod.splits if_splits)
  then show ?case using Cons.IH [OF r] qs by (cases q) auto
qed auto

text \<open>
  The kfd-uprobe handler reports each ring address once, however often the process
  dispatches to it, with increasing uids and only for the filtered process.
\<close>

theorem kfd_one_queue_per_ring:
  assumes "unat uid + length ls < 2 ^ 64"
  shows "distinct (map q_ring_base (fst (handle_lines (kfd_line d env) ls ([], uid)))) \<and>
    sorted_wrt (<) (map q_uid (fst (handle_lines (kfd_line d env) ls ([], uid)))) \<and>
    list_all (passes_filter d) (fst (handle_lines (kfd_line d env) ls ([], uid)))"
proof -
  obtain qs st where h: "handle_lines (kfd_line d env) ls ([], uid) = (qs, st)"
    by (cases "handle_lines (kfd_line d env) ls ([], uid)")
  have "distinct (map q_ring_base qs)" using kfd_lines_distinct [OF h] by simp
  moreover have "sorted_wrt (<) (map q_uid qs) \<and> list_all (\<lambda>q. passes_filter d q \<and> q_ring_base q \<noteq> 0) qs"
    using kfd.handle_lines_uids [OF h] assms by simp
  ultimately show ?thesis using h by (simp add: list_all_iff)
qed

section \<open>The tracing switch\<close>

lemma WriteFile_other: "path \<noteq> p \<Longrightarrow> snd (WriteFile w p v a fs) path = fs path"
  by (simp add: WriteFile_def split: option.splits)

lemma WriteFile_same:
  "fst (WriteFile w p v False fs) \<Longrightarrow> snd (WriteFile w p v False fs) p = Some v"
  by (simp add: WriteFile_def split: option.splits if_splits)

lemma WriteFile_fails: "\<not> fst (WriteFile w p v a fs) \<Longrightarrow> snd (WriteFile w p v a fs) = fs"
  by (simp add: WriteFile_def split: option.splits if_splits)

lemma WriteFile_ok: "fst (WriteFile w p v a fs) \<longleftrightarrow> p \<in> dom fs \<and> w p v"
  by (auto simp: WriteFile_def split: option.splits)

lemma paths_differ [simp]:
  "tracing_on_path d \<noteq> kprobe_events_path d" "tracing_on_path d \<noteq> enable_path d"
  by (simp_all add: tracing_on_path_def kprobe_events_path_def enable_path_def)

lemma ReadFileToken_cong: "fs p = fs' p \<Longrightarrow> ReadFileToken fs p = ReadFileToken fs' p"
  by (simp add: ReadFileToken_def)

lemma token_0: "fs p = Some ''0\<newline>'' \<Longrightarrow> ReadFileToken fs p = ''0''"
  by (simp add: ReadFileToken_def extract_word_def c_isspace_def)

text \<open>The switch as found, given whether it was changed.\<close>

definition switch_kept :: "string \<Rightarrow> bool \<Rightarrow> file_system \<Rightarrow> file_system \<Rightarrow> bool" where
  "switch_kept p changed fs fs' =
     (if changed then ReadFileToken fs p = ''0'' \<and> p \<in> dom fs'
      else ReadFileToken fs' p = ReadFileToken fs p)"

lemma RemoveKprobe_switch:
  assumes "switch_kept (tracing_on_path d) (di_tracing_on_changed d) fs fs1"
    "w (tracing_on_path d) ''0\<newline>''" "RemoveKprobe w d fs1 = (d', fs2)"
  shows "ReadFileToken fs2 (tracing_on_path d) = ReadFileToken fs (tracing_on_path d) \<and>
    \<not> di_tracing_on_changed d' \<and> di_tracefs d' = di_tracefs d"
proof -
  let ?p = "tracing_on_path d"
  define fa where "fa = snd (WriteFile w (kprobe_events_path d) (''-:'' @ di_probe_name d @ ''\<newline>'') True
      (snd (WriteFile w (enable_path d) ''0\<newline>'' False fs1)))"
  have fa: "fa ?p = fs1 ?p" by (simp add: fa_def WriteFile_other)
  show ?thesis
  proof (cases "di_tracing_on_changed d")
    case True
    then have s: "ReadFileToken fs ?p = ''0''" "?p \<in> dom fs1" using assms(1) by (simp_all add: switch_kept_def)
    have e: "fs2 = snd (WriteFile w ?p ''0\<newline>'' False fa)" "d' = d\<lparr>di_tracing_on_changed := False\<rparr>"
      using assms(3) True by (simp_all add: RemoveKprobe_def Let_def fa_def)
    have "?p \<in> dom fa" using s(2) fa by auto
    then have "fst (WriteFile w ?p ''0\<newline>'' False fa)" using assms(2) by (simp add: WriteFile_ok)
    then have "fs2 ?p = Some ''0\<newline>''" unfolding e(1) by (rule WriteFile_same)
    then have "ReadFileToken fs2 ?p = ''0''" by (rule token_0)
    then show ?thesis using e(2) s(1) by simp
  next
    case False
    then have "fs2 = fa" "d' = d" using assms(3) by (auto simp: RemoveKprobe_def Let_def fa_def)
    then show ?thesis using assms(1) False ReadFileToken_cong [of fa ?p fs1, OF fa] by (simp add: switch_kept_def)
  qed
qed

lemma InstallKprobe_switch:
  assumes "\<not> di_tracing_on_changed d" "w (tracing_on_path d) ''0\<newline>''"
    "InstallKprobe w d fs = (ok, d', fs')"
  shows "switch_kept (tracing_on_path d) (di_tracing_on_changed d') fs fs' \<and>
    di_tracefs d' = di_tracefs d \<and> di_mode d' = di_mode d \<and> (\<not> ok \<longrightarrow> \<not> di_tracing_on_changed d')"
proof -
  let ?p = "tracing_on_path d" and ?k = "kprobe_events_path d"
  define fs1 where "fs1 = snd (WriteFile w ?k (''-:'' @ di_probe_name d @ ''\<newline>'') True fs)"
  obtain b2 fs2 where w2: "WriteFile w ?k (kprobe_def (di_probe_name d)) True fs1 = (b2, fs2)"
    by (cases "WriteFile w ?k (kprobe_def (di_probe_name d)) True fs1")
  obtain b3 fs3 where w3: "WriteFile w (enable_path d) ''1\<newline>'' False fs2 = (b3, fs3)"
    by (cases "WriteFile w (enable_path d) ''1\<newline>'' False fs2")
  have f1: "fs1 ?p = fs ?p" unfolding fs1_def by (rule WriteFile_other) simp
  have f2: "fs2 ?p = fs ?p"
    using WriteFile_other [of ?p ?k w "kprobe_def (di_probe_name d)" True fs1] w2 f1 by simp
  have f3: "fs3 ?p = fs ?p"
    using WriteFile_other [of ?p "enable_path d" w "''1\<newline>''" False fs2] w3 f2 by simp
  show ?thesis
  proof (cases "b2 \<and> b3")
    case True
    then have i: "InstallKprobe w d fs =
        (if ReadFileToken fs3 ?p = ''0''
         then (case WriteFile w ?p ''1\<newline>'' False fs3 of
                 (ok, fs4) \<Rightarrow> (True, if ok then d\<lparr>di_tracing_on_changed := True\<rparr> else d, fs4))
         else (True, d, fs3))"
      unfolding InstallKprobe_def Let_def fs1_def [symmetric] w2 by (simp add: w3)
    obtain b4 fs4 where w4: "WriteFile w ?p ''1\<newline>'' False fs3 = (b4, fs4)"
      by (cases "WriteFile w ?p ''1\<newline>'' False fs3")
    have "b4 \<Longrightarrow> ?p \<in> dom fs4" using WriteFile_same [of w ?p "''1\<newline>''" fs3] w4 by auto
    moreover have "\<not> b4 \<Longrightarrow> fs4 = fs3" using WriteFile_fails [of w ?p "''1\<newline>''" False fs3] w4 by simp
    ultimately show ?thesis
      using assms(1,3) i w4 ReadFileToken_cong [of fs3 ?p fs, OF f3]
      by (auto simp: switch_kept_def split: if_splits)
  next
    case False
    have k: "switch_kept ?p (di_tracing_on_changed d) fs fs3"
      using assms(1) ReadFileToken_cong [of fs3 ?p fs, OF f3] by (simp add: switch_kept_def)
    show ?thesis
    proof (cases b2)
      case True
      then have "RemoveKprobe w d fs3 = (d', fs')" "\<not> ok"
        using False w3 assms(3) unfolding InstallKprobe_def Let_def fs1_def [symmetric] w2 by simp_all
      with RemoveKprobe_switch [OF k assms(2) this(1)] show ?thesis
        using assms(1) by (auto simp: switch_kept_def RemoveKprobe_def Let_def split: if_splits)
    next
      case nb2: False
      then have "d' = d" "fs' = fs2" "\<not> ok"
        using assms(3) unfolding InstallKprobe_def Let_def fs1_def [symmetric] w2 by simp_all
      then show ?thesis
        using assms(1) ReadFileToken_cong [of fs2 ?p fs, OF f2] by (simp add: switch_kept_def)
    qed
  qed
qed

lemma tracing_on_path_cong: "di_tracefs d = di_tracefs d' \<Longrightarrow> tracing_on_path d = tracing_on_path d'"
  by (simp add: tracing_on_path_def)

text \<open>
  C10: whatever fails on the way, starting and then stopping the kprobe mode leaves the global
  tracing switch as it was found, as long as the kernel takes the write that turns it off.
\<close>

theorem kprobe_restores_tracing:
  assumes "di_mode d = kKprobe" "\<not> di_tracing_on_changed d" "\<not> di_running d"
    "writable (tracing_on_path d) ''0\<newline>''"
    "Start writable pipe_opens la bpf kfd d fs = (ok, d1, fs1)" "Stop writable d1 fs1 = (d2, fs2)"
  shows "ReadFileToken fs2 (tracing_on_path d) = ReadFileToken fs (tracing_on_path d) \<and>
    \<not> di_tracing_on_changed d2 \<and> \<not> di_running d2"
proof -
  obtain b di fsi where i: "InstallKprobe writable d fs = (b, di, fsi)" by (cases "InstallKprobe writable d fs")
  note sw = InstallKprobe_switch [OF assms(2,4) i]
  have p: "tracing_on_path di = tracing_on_path d" using sw by (intro tracing_on_path_cong) simp
  have rn: "di_running (fst (RemoveKprobe writable x f)) = di_running x" for x f
    by (simp add: RemoveKprobe_def Let_def)
  have run: "di_running di = di_running d"
    using i by (auto simp: InstallKprobe_def Let_def RemoveKprobe_def split: prod.splits bool.splits if_splits)
  consider (installed) "b" "pipe_opens" | (nopipe) "b" "\<not> pipe_opens" | (failed) "\<not> b" by blast
  then show ?thesis
  proof cases
    case installed
    then have d1: "d1 = di\<lparr>di_pipe_open := True, di_running := True\<rparr>" "fs1 = fsi"
      using assms(1,5) i by (simp_all add: Start_def)
    let ?d = "d1\<lparr>di_running := False\<rparr>"
    obtain dr fsr where r: "RemoveKprobe writable ?d fs1 = (dr, fsr)" by (cases "RemoveKprobe writable ?d fs1")
    have "d2 = dr\<lparr>di_pipe_open := False\<rparr>" "fs2 = fsr"
      using assms(1,6) d1 sw r by (simp_all add: Stop_def)
    moreover have "tracing_on_path ?d = tracing_on_path d" using p d1 by (simp add: tracing_on_path_def)
    ultimately show ?thesis
      using RemoveKprobe_switch [of ?d fs fs1 writable dr fsr] sw assms(4) r d1 rn [of ?d fs1] by simp
  next
    case nopipe
    then have r: "RemoveKprobe writable di fsi = (d1, fs1)" using assms(1,5) i by (simp add: Start_def)
    then have "\<not> di_running d1" using rn [of di fsi] run assms(3) by simp
    then have "d2 = d1" "fs2 = fs1" using assms(6) by (simp_all add: Stop_def)
    then show ?thesis
      using RemoveKprobe_switch [of di fs fsi writable d1 fs1] sw assms(4) r p \<open>\<not> di_running d1\<close> by simp
  next
    case failed
    then have "d1 = di" "fs1 = fsi" using assms(1,5) i by (simp_all add: Start_def)
    then have "d2 = di" "fs2 = fsi" using assms(3,6) run by (simp_all add: Stop_def)
    then show ?thesis using sw failed run assms(3) by (simp add: switch_kept_def)
  qed
qed

section \<open>Witnesses\<close>

lemma contains_mid: "contains (a @ n @ b) n"
proof -
  have "find_from_start n (a @ n @ b) \<noteq> None"
  proof (induction a)
    case Nil
    have t: "take (length n) (n @ b) = n" by simp
    show ?case
    proof (cases "n @ b")
      case (Cons c cs)
      with t show ?thesis by (simp add: Cons del: take_append)
    qed simp
  qed auto
  then show ?thesis by (simp add: contains_def str_find_def)
qed

definition demo_env :: disc_env where
  "demo_env = \<lparr>de_clock = \<lambda>uid. 0, de_comm = \<lambda>uid pid. None\<rparr>"

definition demo_discovery :: "DiscoveryMode \<Rightarrow> Discovery" where
  "demo_discovery mode = new_Discovery ''/t'' 0 mode ''/lib/rocdxg'' ''/lib/hsa'' 5"

definition demo_launch :: launch where
  "demo_launch = \<lparr>la_exists = \<lambda>p. True, la_tmp_ok = True, la_write_ok = \<lambda>s. True, la_pipe_ok = True,
     la_fork_ok = True\<rparr>"

theorem kprobe_queues_fresh_witness:
  "sorted_wrt (<) (map q_uid (RunKprobe (demo_discovery kKprobe) demo_env
      [Data ''# head'', NoData, Data ''er\<newline>par''] [] 1)) \<and>
   fst (split_lines ''# header\<newline>par'') = [''# header'']"
  using kprobe_queues_fresh [of "[Data ''# head'', NoData, Data ''er\<newline>par'']" "demo_discovery kKprobe" demo_env]
  by simp

theorem kfd_armed_reader_spins_witness:
  "\<exists>d'. StartKfdUprobe demo_launch (map Byte ''Attaching 2 probes'') (demo_discovery kKfdUprobe) = (True, d') \<and>
     RunKfdUprobe d' demo_env 1 [Got ''DISPATCH pid=7 comm=a ring=0x1000 slots=64\<newline>'', Eof] 100 = None"
proof -
  let ?d = "(demo_discovery kKfdUprobe)\<lparr>di_pipe_open := True, di_bpf_prebuf := ''Attaching''\<rparr>"
  have c: "\<not> contains ''A'' ''Attaching''" "\<not> contains ''At'' ''Attaching''" "\<not> contains ''Att'' ''Attaching''"
    "\<not> contains ''Atta'' ''Attaching''" "\<not> contains ''Attac'' ''Attaching''" "\<not> contains ''Attach'' ''Attaching''"
    "\<not> contains ''Attachi'' ''Attaching''" "\<not> contains ''Attachin'' ''Attaching''" "contains ''Attaching'' ''Attaching''"
    by (simp_all add: contains_def str_find_def)
  have "StartKfdUprobe demo_launch (map Byte ''Attaching 2 probes'') (demo_discovery kKfdUprobe) = (True, ?d)"
    by (simp add: StartKfdUprobe_def launches_def demo_launch_def demo_discovery_def new_Discovery_def c)
  with kfd_armed_reader_spins [OF this, of demo_env 1 _ 100] c(9) show ?thesis by auto
qed


theorem kprobe_event_read_back_witness:
  "fst (kprobe_line (demo_discovery kKprobe) demo_env
      (event_line ''app'' 42 3 ''003] d 1.5: hsasnoop_cq_5: (create)''
        [(''ring_base'', unat (4096 :: u64)), (''wptr'', unat (8 :: u64)), (''rptr'', unat (16 :: u64)),
         (''ring_size'', unat (65536 :: u32)), (''gpu_id'', unat (9 :: u32)), (''qtype'', unat (2 :: u32))]) 1) =
   Some (new_QueueInfo\<lparr>q_pid := 42, q_comm := ''app'', q_ring_base := 4096, q_wptr_addr := 8,
     q_rptr_addr := 16, q_ring_size := 65536, q_gpu_id := 9, q_qtype := 2, q_create_ts := 0, q_uid := 1\<rparr>)"
proof -
  let ?fs = "[(''ring_base'', unat (4096 :: u64)), (''wptr'', unat (8 :: u64)), (''rptr'', unat (16 :: u64)),
      (''ring_size'', unat (65536 :: u32)), (''gpu_id'', unat (9 :: u32)), (''qtype'', unat (2 :: u32))]"
  let ?mid = "''003] d 1.5: hsasnoop_cq_5: (create)''"
  have n: "di_probe_name (demo_discovery kKprobe) = ''hsasnoop_cq_5''" "di_pid_filter (demo_discovery kKprobe) = 0"
    by (simp_all add: demo_discovery_def new_Discovery_def show_int_def show_dec_def show_radix.simps digit_char_def)
  have "event_line ''app'' 42 3 ?mid ?fs =
      (''app-'' @ show_dec 42 @ replicate 3 (CHR '' '') @ '' [003] d 1.5: '') @ ''hsasnoop_cq_5'' @ ('': (create)'' @ event_fields ?fs)"
    by (simp add: event_line_def)
  then have "contains (event_line ''app'' 42 3 ?mid ?fs) ''hsasnoop_cq_5''"
    by (simp only: contains_mid)
  then have "kprobe_line (demo_discovery kKprobe) demo_env (event_line ''app'' 42 3 ?mid ?fs) 1 =
    (Some (new_QueueInfo\<lparr>q_pid := int 42, q_comm := real_comm (de_comm demo_env 1) (int 42) (strip_left ''app''),
       q_ring_base := 4096, q_wptr_addr := 8, q_rptr_addr := 16, q_ring_size := 65536, q_gpu_id := 9,
       q_qtype := 2, q_create_ts := de_clock demo_env 1, q_uid := 1\<rparr>), 1 + 1)"
    using n by (intro kprobe_event_read_back) (simp_all add: event_line_def)
  then show ?thesis by (simp add: demo_env_def real_comm_def strip_left_def)
qed

theorem kfd_one_queue_per_ring_witness:
  "distinct (map q_ring_base (fst (handle_lines (kfd_line (demo_discovery kKfdUprobe) demo_env)
      [''DISPATCH pid=7 ring=0x1000 slots=64'', ''DISPATCH pid=7 ring=0x1000 slots=64''] ([], 1))))"
  using kfd_one_queue_per_ring [of 1 "[''DISPATCH pid=7 ring=0x1000 slots=64'', ''DISPATCH pid=7 ring=0x1000 slots=64'']"
      "demo_discovery kKfdUprobe" demo_env] by simp

theorem kprobe_restores_tracing_witness:
  "\<exists>ok d1 fs1 d2 fs2.
     Start (\<lambda>p v. True) False demo_launch [] [] (demo_discovery kKprobe)
       [''/t/tracing_on'' \<mapsto> ''0\<newline>'', ''/t/kprobe_events'' \<mapsto> [], ''/t/events/kprobes/hsasnoop_cq_5/enable'' \<mapsto> ''0\<newline>'']
       = (ok, d1, fs1) \<and> Stop (\<lambda>p v. True) d1 fs1 = (d2, fs2) \<and> ReadFileToken fs2 ''/t/tracing_on'' = ''0''"
proof -
  let ?w = "\<lambda>p v :: string. True"
  let ?fs = "[''/t/tracing_on'' \<mapsto> ''0\<newline>'', ''/t/kprobe_events'' \<mapsto> [],
      ''/t/events/kprobes/hsasnoop_cq_5/enable'' \<mapsto> ''0\<newline>''] :: file_system"
  obtain ok d1 fs1 where a: "Start ?w False demo_launch [] [] (demo_discovery kKprobe) ?fs = (ok, d1, fs1)"
    by (metis prod.exhaust)
  obtain d2 fs2 where b: "Stop ?w d1 fs1 = (d2, fs2)" by (metis prod.exhaust)
  have p: "tracing_on_path (demo_discovery kKprobe) = ''/t/tracing_on''"
    by (simp add: tracing_on_path_def demo_discovery_def new_Discovery_def)
  have "ReadFileToken ?fs ''/t/tracing_on'' = ''0''" by (rule token_0) simp
  then show ?thesis
    using kprobe_restores_tracing [OF _ _ _ _ a b] a b p
    by (auto simp: demo_discovery_def new_Discovery_def)
qed

text \<open>
  A ring is marked as seen before the process filter is applied: a dispatch of a foreign process
  hides the queue of the filtered process that has the same virtual address.
\<close>

theorem kfd_foreign_ring_hides_queue:
  "fst (handle_lines (kfd_line ((demo_discovery kKfdUprobe)\<lparr>di_pid_filter := 2\<rparr>) demo_env)
      [''DISPATCH pid=1 comm=a ring=0x1000 slots=64'', ''DISPATCH pid=2 comm=b ring=0x1000 slots=64''] ([], 1)) = []"
proof -
  let ?a = "''DISPATCH pid=1 comm=a ring=0x1000 slots=64''"
  let ?b = "''DISPATCH pid=2 comm=b ring=0x1000 slots=64''"
  have "get_u64 ?a ''ring'' = 4096" "get_u64 ?b ''ring'' = 4096" "get_u64 ?a ''slots'' = 64"
    "get_u64 ?b ''slots'' = 64" "get_u64 ?a ''pid'' = 1"
    by (simp_all add: get_u64_def str_find_def strtoull_def hex_prefix_def char_digit_def c_isspace_def
        starts_with_def Let_def)
  moreover have "has_tag ?a ''DISPATCH ''" "has_tag ?b ''DISPATCH ''"
    by (simp_all add: has_tag_def str_find_def)
  moreover have "to_c_int 1 = 1" by (simp add: to_c_int_def)
  ultimately show ?thesis by (simp add: kfd_line_def Let_def)
qed

end
