(* ===== verification/Monitors.thy ===== *)
theory Monitors
  imports Discovery Number_Format
begin

text \<open>
  \<^verbatim>\<open>src/ais_monitor.cpp\<close> and \<^verbatim>\<open>src/xnack_monitor.cpp\<close>: the AIS ioctl monitor with the
  classification of the PCIe device behind a file descriptor, and the XNACK fault monitor.
  What the kernel shows (file status, sysfs, the pci.ids database, realpath) is a parameter.
\<close>

section \<open>sscanf\<close>

text \<open>
  The directives the monitors use: a blank of the format skips any white space, a literal must
  match, \<^verbatim>\<open>%u\<close> and \<^verbatim>\<open>%lu\<close> read as \<^verbatim>\<open>strtoul\<close>, \<^verbatim>\<open>%d\<close> as \<^verbatim>\<open>strtol\<close>, \<^verbatim>\<open>%<n>s\<close> reads a word. The
  result is the list of conversions stored before the first mismatch.
\<close>

datatype directive = Lit char | Blank | ScanU | ScanD | ScanS nat
datatype scanned = SU u64 | SD c_int | SS string

definition scan_u :: "string \<Rightarrow> (u64 \<times> string) option" where
  "scan_u s =
     (case take_sign (dropWhile c_isspace s) of (neg, ds) \<Rightarrow>
      case read_digits 10 0 ds of (v, rest) \<Rightarrow>
        if rest = ds then None
        else Some (let w = (if 2 ^ 64 \<le> v then - 1 else of_nat v) in if neg \<and> v < 2 ^ 64 then - w else w, rest))"

definition scan_d :: "string \<Rightarrow> (c_int \<times> string) option" where
  "scan_d s =
     (case take_sign (dropWhile c_isspace s) of (neg, ds) \<Rightarrow>
      case read_digits 10 0 ds of (v, rest) \<Rightarrow>
        if rest = ds then None
        else Some (to_c_int (word_of_int
          (if neg then max (- (2 ^ 63)) (- int v) else min (2 ^ 63 - 1) (int v))), rest))"

definition scan_s :: "nat \<Rightarrow> string \<Rightarrow> (string \<times> string) option" where
  "scan_s n s =
     (let t = dropWhile c_isspace s; w = take n (takeWhile (\<lambda>c. \<not> c_isspace c) t) in
      if w = [] then None else Some (w, drop (length w) t))"

fun sscanf_go :: "directive list \<Rightarrow> string \<Rightarrow> scanned list" where
  "sscanf_go [] s = []"
| "sscanf_go (Blank # ds) s = sscanf_go ds (dropWhile c_isspace s)"
| "sscanf_go (Lit c # ds) s = (case s of x # xs \<Rightarrow> if x = c then sscanf_go ds xs else [] | [] \<Rightarrow> [])"
| "sscanf_go (ScanU # ds) s = (case scan_u s of Some (v, r) \<Rightarrow> SU v # sscanf_go ds r | None \<Rightarrow> [])"
| "sscanf_go (ScanD # ds) s = (case scan_d s of Some (v, r) \<Rightarrow> SD v # sscanf_go ds r | None \<Rightarrow> [])"
| "sscanf_go (ScanS n # ds) s = (case scan_s n s of Some (v, r) \<Rightarrow> SS v # sscanf_go ds r | None \<Rightarrow> [])"

text \<open>A C string argument ends at its first NUL.\<close>

definition cstr :: "string \<Rightarrow> string" where
  "cstr s = takeWhile (\<lambda>c. c \<noteq> CHR 0x00) s"

definition sscanf :: "string \<Rightarrow> directive list \<Rightarrow> scanned list" where
  "sscanf s ds = sscanf_go ds (cstr s)"

section \<open>PCIe devices\<close>

definition c_tolower :: "char \<Rightarrow> char" where
  "c_tolower c =
     (let n = of_char c :: nat in if 65 \<le> n \<and> n \<le> 90 then char_of (n + 32) else c)"

text \<open>The first line of a sysfs file; \<open>None\<close> when it cannot be opened.\<close>

definition ReadSysfsStr :: "(string \<Rightarrow> string option) \<Rightarrow> string \<Rightarrow> string" where
  "ReadSysfsStr sysfs path =
     (case sysfs path of
        None \<Rightarrow> []
      | Some s \<Rightarrow>
          let t = (if 2 < length s \<and> s ! 0 = CHR ''0'' \<and> (s ! 1 = CHR ''x'' \<or> s ! 1 = CHR ''X'')
                   then drop 2 s else s)
          in map c_tolower t)"

definition ClassifyByClassCode :: "string \<Rightarrow> string" where
  "ClassifyByClassCode cls =
     (if 6 \<le> length cls then
        let base = take 4 cls in
        if base = ''0108'' then ''nvme''
        else if base = ''0107'' then ''sas''
        else if base = ''0106'' then ''sata''
        else if base = ''0104'' then ''raid''
        else if base = ''0c06'' then ''rdma''
        else if base = ''0c07'' then ''rdma''
        else if base = ''0200'' then ''eth''
        else if base = ''0207'' then ''rdma''
        else []
      else [])"

definition ClassifyByVendorId :: "string \<Rightarrow> string" where
  "ClassifyByVendorId vid =
     (if vid = ''15b3'' then ''rdma''
      else if vid = ''1425'' then ''rdma''
      else if vid = ''8086'' then []
      else if vid = ''14e4'' then []
      else if vid = ''1d0f'' then ''rdma''
      else if vid = ''0x1dd8'' \<or> vid = ''1dd8'' then ''rdma''
      else if vid = ''1077'' then ''rdma''
      else if vid = ''10ee'' \<or> vid = ''1924'' then ''rdma''
      else [])"

text \<open>One line of pci.ids: a vendor entry, or nothing.\<close>

definition vendor_entry :: "string \<Rightarrow> (string \<times> string) option" where
  "vendor_entry line =
     (if line = [] \<or> hd line = CHR ''#'' \<or> hd line = CHR 0x09 then None
      else if length line < 6 then None
      else
        let key = take 4 line; name = dropWhile (\<lambda>c. c = CHR '' '' \<or> c = CHR 0x09) (drop 4 line) in
        if list_all (\<lambda>c. char_digit c \<noteq> None) key \<and> name \<noteq> [] then Some (key, name) else None)"

text \<open>The database is the first of the three files that opens; a later entry overwrites.\<close>

definition vendor_db :: "string list option list \<Rightarrow> (string \<rightharpoonup> string)" where
  "vendor_db files =
     (case find (\<lambda>f. f \<noteq> None) files of
        Some (Some ls) \<Rightarrow> map_of (rev (List.map_filter vendor_entry ls))
      | _ \<Rightarrow> Map.empty)"

definition VendorName :: "(string \<rightharpoonup> string) \<Rightarrow> string \<Rightarrow> string" where
  "VendorName db vid = (case db vid of Some name \<Rightarrow> name | None \<Rightarrow> ''unknown'')"

record sys_view =
  sv_stat :: "c_int \<Rightarrow> c_int \<Rightarrow> (bool \<times> (nat \<times> nat) \<times> (nat \<times> nat)) option"
  sv_realpath :: "string \<Rightarrow> string option"
  sv_file :: "string \<Rightarrow> string option"
  sv_vendors :: "string \<rightharpoonup> string"

definition base_name :: "string \<Rightarrow> string option" where
  "base_name path =
     (case last_index (CHR ''/'') path of Some i \<Rightarrow> Some (drop (Suc i) path) | None \<Rightarrow> None)"

definition is_bdf :: "string \<Rightarrow> bool" where
  "is_bdf name = (8 < length name \<and> count_list name (CHR '':'') = 2 \<and> CHR ''.'' \<in> set name)"

fun walk_up :: "(string \<Rightarrow> string option) \<Rightarrow> nat \<Rightarrow> string \<Rightarrow> (string \<times> string) option" where
  "walk_up rp 0 sys_dev = None"
| "walk_up rp (Suc n) sys_dev =
     (case rp sys_dev of
        None \<Rightarrow> None
      | Some path \<Rightarrow>
          (case base_name path of
             None \<Rightarrow> None
           | Some name \<Rightarrow>
               if is_bdf name then Some (name, path) else walk_up rp n (path @ ''/..'')))"

definition lookup_device :: "sys_view \<Rightarrow> c_int \<Rightarrow> c_int \<Rightarrow> PcieDeviceInfo" where
  "lookup_device sv pid fd =
     (let info = new_PcieDeviceInfo\<lparr>d_device_type := ''unknown'', d_vendor := ''unknown''\<rparr> in
      case sv_stat sv pid fd of
        None \<Rightarrow> info
      | Some (is_blk, rdev, dev) \<Rightarrow>
          (case (if is_blk then rdev else dev) of (maj, minor) \<Rightarrow>
           case walk_up (sv_realpath sv) 8
                  (''/sys/dev/block/'' @ show_dec maj @ '':'' @ show_dec minor @ ''/device'') of
             None \<Rightarrow> info\<lparr>d_bdf := ''unknown''\<rparr>
           | Some (bdf, path) \<Rightarrow>
               let vid = ReadSysfsStr (sv_file sv) (path @ ''/vendor'');
                   did = ReadSysfsStr (sv_file sv) (path @ ''/device'');
                   cls = ReadSysfsStr (sv_file sv) (path @ ''/class'');
                   by_class = ClassifyByClassCode cls;
                   by_vendor = ClassifyByVendorId vid
               in \<lparr>d_bdf = bdf,
                    d_device_type =
                      (if by_class \<noteq> [] then by_class else if by_vendor \<noteq> [] then by_vendor else ''unknown''),
                    d_vendor = VendorName (sv_vendors sv) vid, d_vendor_id = vid, d_device_id = did,
                    d_class_code = cls\<rparr>))"

type_synonym pcie_cache = "string \<rightharpoonup> PcieDeviceInfo"

definition ResolvePcieDeviceInfo ::
  "sys_view \<Rightarrow> c_int \<Rightarrow> c_int \<Rightarrow> pcie_cache \<Rightarrow> PcieDeviceInfo \<times> pcie_cache"
where
  "ResolvePcieDeviceInfo sv pid fd cache =
     (let key = show_int pid @ '':'' @ show_int fd in
      case cache key of
        Some info \<Rightarrow> (info, cache)
      | None \<Rightarrow> let info = lookup_device sv pid fd in (info, cache(key \<mapsto> info)))"

section \<open>The AIS monitor\<close>

record AisMonitor =
  am_tracefs :: string
  am_instance :: string
  am_probe_entry :: string
  am_pipe_open :: bool
  am_cancel_open :: bool
  am_running :: bool

definition new_AisMonitor :: "string \<Rightarrow> AisMonitor" where
  "new_AisMonitor tracefs =
     \<lparr> am_tracefs = tracefs, am_instance = [], am_probe_entry = [], am_pipe_open = False,
       am_cancel_open = False, am_running = False \<rparr>"

text \<open>
  The tracefs operations beside the file writes: \<^verbatim>\<open>mkdir\<close> and \<^verbatim>\<open>rmdir\<close> of the instance. The
  directories that exist are part of the state; a new instance brings its control files.
\<close>

record tracefs_tree =
  tt_files :: file_system
  tt_instances :: "string set"

definition WriteTracefs ::
  "write_oracle \<Rightarrow> string \<Rightarrow> string \<Rightarrow> bool \<Rightarrow> tracefs_tree \<Rightarrow> bool \<times> tracefs_tree"
where
  "WriteTracefs writable path val appending tt =
     (case WriteFile writable path val appending (tt_files tt) of (ok, fs) \<Rightarrow> (ok, tt\<lparr>tt_files := fs\<rparr>))"

definition instance_path :: "string \<Rightarrow> c_int \<Rightarrow> string" where
  "instance_path tracefs my_pid = tracefs @ ''/instances/hsa_ais_'' @ show_int my_pid"

definition ais_enable_path :: "string \<Rightarrow> string \<Rightarrow> string" where
  "ais_enable_path inst probe = inst @ ''/events/kprobes/'' @ probe @ ''/enable''"

definition ais_probe_def :: "string \<Rightarrow> string" where
  "ais_probe_def probe =
     ''p:'' @ probe @ '' kfd_ioctl_ais'' @ '' gpu_id=+4(%dx):u32'' @ '' size_req=+24(%dx):u64'' @
     '' op=+32(%dx):u32'' @ '' fd=+36(%dx):s32\<newline>''"

definition RemoveKprobes ::
  "write_oracle \<Rightarrow> AisMonitor \<Rightarrow> tracefs_tree \<Rightarrow> AisMonitor \<times> tracefs_tree"
where
  "RemoveKprobes writable m tt =
     (let kpe = am_tracefs m @ ''/kprobe_events'';
          (m1, tt1) =
            (if am_probe_entry m \<noteq> [] then
               let tta = (if am_instance m \<noteq> []
                     then snd (WriteTracefs writable (ais_enable_path (am_instance m) (am_probe_entry m)) ''0\<newline>'' False tt)
                     else tt);
                   ttb = snd (WriteTracefs writable kpe (''-:'' @ am_probe_entry m @ ''\<newline>'') True tta)
               in (m\<lparr>am_probe_entry := []\<rparr>, ttb)
             else (m, tt))
      in if am_instance m1 \<noteq> []
         then (m1\<lparr>am_instance := []\<rparr>, tt1\<lparr>tt_instances := tt_instances tt1 - {am_instance m1}\<rparr>)
         else (m1, tt1))"

text \<open>\<open>mkdir_ok\<close>: \<^verbatim>\<open>mkdir\<close> succeeded, or the directory was there.\<close>

definition InstallKprobes ::
  "write_oracle \<Rightarrow> bool \<Rightarrow> c_int \<Rightarrow> AisMonitor \<Rightarrow> tracefs_tree \<Rightarrow> bool \<times> AisMonitor \<times> tracefs_tree"
where
  "InstallKprobes writable mkdir_ok my_pid m tt =
     (if \<not> mkdir_ok then (False, m\<lparr>am_instance := []\<rparr>, tt)
      else
        let inst = instance_path (am_tracefs m) my_pid;
            kpe = am_tracefs m @ ''/kprobe_events'';
            probe = ''hsasnoop_ais_e_'' @ show_int my_pid;
            m1 = m\<lparr>am_instance := inst, am_probe_entry := probe\<rparr>;
            tt1 = tt\<lparr>tt_instances := insert inst (tt_instances tt)\<rparr>;
            tt2 = snd (WriteTracefs writable kpe (''-:'' @ probe @ ''\<newline>'') True tt1)
        in (case WriteTracefs writable kpe (ais_probe_def probe) True tt2 of
              (False, tt3) \<Rightarrow> (False, RemoveKprobes writable m1 tt3)
            | (True, tt3) \<Rightarrow>
                (case WriteTracefs writable (ais_enable_path inst probe) ''1\<newline>'' False tt3 of
                   (False, tt4) \<Rightarrow> (False, RemoveKprobes writable m1 tt4)
                 | (True, tt4) \<Rightarrow>
                     (True, m1, snd (WriteTracefs writable (inst @ ''/tracing_on'') ''1\<newline>'' False tt4)))))"

definition StartAis ::
  "write_oracle \<Rightarrow> bool \<Rightarrow> bool \<Rightarrow> bool \<Rightarrow> c_int \<Rightarrow> AisMonitor \<Rightarrow> tracefs_tree \<Rightarrow>
   bool \<times> AisMonitor \<times> tracefs_tree"
where
  "StartAis writable mkdir_ok open_ok pipe_ok my_pid m tt =
     (case InstallKprobes writable mkdir_ok my_pid m tt of
        (False, m1, tt1) \<Rightarrow> (False, m1, tt1)
      | (True, m1, tt1) \<Rightarrow>
          if \<not> open_ok then (False, RemoveKprobes writable m1 tt1)
          else if \<not> pipe_ok then (False, RemoveKprobes writable m1 tt1)
          else (True, m1\<lparr>am_pipe_open := True, am_cancel_open := True, am_running := True\<rparr>, tt1))"

definition StopAis :: "write_oracle \<Rightarrow> AisMonitor \<Rightarrow> tracefs_tree \<Rightarrow> AisMonitor \<times> tracefs_tree" where
  "StopAis writable m tt =
     (case RemoveKprobes writable (m\<lparr>am_running := False\<rparr>) tt of
        (m1, tt1) \<Rightarrow> (m1\<lparr>am_pipe_open := False, am_cancel_open := False\<rparr>, tt1))"

subsection \<open>Reading events\<close>

definition ais_op_of :: "u32 \<Rightarrow> AisOp" where
  "ais_op_of op_val = (if op_val = 1 then Ais_Read else if op_val = 2 then Ais_Write else AisOp_Unknown)"

text \<open>
  The fields: after the second \<^verbatim>\<open>": "\<close>, past the parenthesised function reference when there is
  one. The reference is searched in the C string, the blank after it is skipped unseen.
\<close>

definition ais_fields :: "string \<Rightarrow> string option" where
  "ais_fields line =
     (case str_find line '': '' 0 of
        None \<Rightarrow> None
      | Some p1 \<Rightarrow>
          (case str_find line '': '' (p1 + 2) of
             None \<Rightarrow> None
           | Some p2 \<Rightarrow>
               let raw = cstr (drop (p2 + 2) line) in
               Some (if CHR '')'' \<in> set raw then drop 2 (dropWhile (\<lambda>c. c \<noteq> CHR '')'') raw) else raw)))"

text \<open>Thread id and name: the rightmost dash at or before the first bracket.\<close>

definition ais_task :: "string \<Rightarrow> (c_int \<times> string) option" where
  "ais_task line =
     (case str_find line ''['' 0 of
        None \<Rightarrow> None
      | Some bracket \<Rightarrow>
          (case str_rfind line (CHR ''-'') bracket of
             None \<Rightarrow> None
           | Some dash \<Rightarrow>
               let comm = take dash line; s = dropWhile (\<lambda>c. c = CHR '' '') comm in
               Some (atoi (drop (Suc dash) line), if s = [] then comm else s)))"

definition lits :: "string \<Rightarrow> directive list" where
  "lits s = map (\<lambda>c. if c = CHR '' '' then Blank else Lit c) s"

definition ais_format :: "directive list" where
  "ais_format =
     lits ''gpu_id='' @ [ScanU] @ lits '' size_req='' @ [ScanU] @ lits '' op='' @ [ScanU] @
     lits '' fd='' @ [ScanD]"

text \<open>Variables not reached by \<^verbatim>\<open>sscanf\<close> keep their initial values.\<close>

definition ais_values :: "string \<Rightarrow> u32 \<times> u64 \<times> u32 \<times> c_int" where
  "ais_values ftext =
     (case sscanf ftext ais_format of
        [SU g, SU n, SU o', SD fd] \<Rightarrow> (ucast g, n, ucast o', fd)
      | [SU g, SU n, SU o'] \<Rightarrow> (ucast g, n, ucast o', - 1)
      | [SU g, SU n] \<Rightarrow> (ucast g, n, 0, - 1)
      | [SU g] \<Rightarrow> (ucast g, 0, 0, - 1)
      | _ \<Rightarrow> (0, 0, 0, - 1))"

definition ais_line ::
  "AisMonitor \<Rightarrow> (u64 \<Rightarrow> seconds) \<Rightarrow> (u64 \<Rightarrow> sys_view) \<Rightarrow> string \<Rightarrow> u64 \<times> pcie_cache \<Rightarrow>
   AisRecord option \<times> u64 \<times> pcie_cache"
where
  "ais_line m clock sv line st =
     (case st of (seq, cache) \<Rightarrow>
        if \<not> contains line (am_probe_entry m) then (None, seq, cache)
        else
          (case ais_fields line of
             None \<Rightarrow> (None, seq, cache)
           | Some ftext \<Rightarrow>
               (case ais_task line of
                  None \<Rightarrow> (None, seq, cache)
                | Some (tid, comm) \<Rightarrow>
                    (case ais_values ftext of (gpu, size_req, op_val, file_fd) \<Rightarrow>
                       let n = seq + 1;
                           rec = new_AisRecord\<lparr>a_seq := n, a_pid := tid, a_comm := comm, a_op := ais_op_of op_val,
                             a_gpu_id := gpu, a_size_req := size_req, a_size_copied := size_req, a_error := 0,
                             a_completed := True, a_submit_ts := clock n, a_complete_ts := clock n\<rparr>
                       in if 0 < tid \<and> 0 \<le> file_fd
                          then (case ResolvePcieDeviceInfo (sv n) tid file_fd cache of (info, cache1) \<Rightarrow>
                                  (Some (rec\<lparr>a_pcie_info := info, a_pcie_id := d_bdf info\<rparr>), n, cache1))
                          else (Some rec, n, cache)))))"

fun ais_lines ::
  "(string \<Rightarrow> 'v \<Rightarrow> AisRecord option \<times> 'v) \<Rightarrow> string list \<Rightarrow> 'v \<Rightarrow> AisRecord list \<times> 'v"
where
  "ais_lines handle [] v = ([], v)"
| "ais_lines handle (l # ls) v =
     (case handle l v of (r, v1) \<Rightarrow>
      case ais_lines handle ls v1 of (rs, v2) \<Rightarrow> (case r of Some x \<Rightarrow> x # rs | None \<Rightarrow> rs, v2))"

text \<open>
  A round of \<^verbatim>\<open>ReadLoop\<close>: the poll timed out, data came, or the loop ends (the cancel pipe, a failed
  poll or read, the cleared flag). Each read is appended as a C string. A stop request seen between
  two lines of a chunk drops the later ones: it is the chunk cut there, followed by \<open>Quit\<close>.
\<close>

datatype ais_round = Idle | Chunk string | Quit

fun ReadLoopAis ::
  "(string \<Rightarrow> 'v \<Rightarrow> AisRecord option \<times> 'v) \<Rightarrow> ais_round list \<Rightarrow> string \<Rightarrow> 'v \<Rightarrow> AisRecord list"
where
  "ReadLoopAis handle [] partial v = []"
| "ReadLoopAis handle (Idle # rs) partial v = ReadLoopAis handle rs partial v"
| "ReadLoopAis handle (Quit # rs) partial v = []"
| "ReadLoopAis handle (Chunk c # rs) partial v =
     (case split_lines (partial @ cstr c) of (ls, rest) \<Rightarrow>
      case ais_lines handle ls v of (xs, v1) \<Rightarrow> xs @ ReadLoopAis handle rs rest v1)"

section \<open>The XNACK monitor\<close>

text \<open>
  The child between \<^verbatim>\<open>fork\<close> and \<^verbatim>\<open>exec\<close>, as far as the script's file goes: \<open>None\<close> when it
  exits early, otherwise the path bpftrace is given and the files it finds.
\<close>

definition xnack_script :: string where
  "xnack_script =
     ''\<newline>#!/usr/bin/env bpftrace\<newline>\<newline>'' @
     ''// kfd_process_vm_fault(struct device_queue_manager *dqm, u32 pasid)\<newline>'' @
     ''// arg0 = dqm    (struct device_queue_manager *)\<newline>'' @
     ''// arg1 = pasid  (u32) '' @ [CHR 0xE2, CHR 0x80, CHR 0x94] @
     '' AMD Process ASID for the faulting GPU context\<newline>'' @
     ''//\<newline>'' @
     ''// This probe fires for every GPU page fault delivered to the KFD driver\<newline>'' @
     ''// through the XNACK (retry) path on gfx900+ (Vega10+) hardware.\<newline>\<newline>'' @
     ''BEGIN {\<newline>    printf('' @ dq @ ''XNACK_MONITOR_READY'' @ bs_n @ dq @ '');\<newline>}\<newline>\<newline>'' @
     ''kprobe:kfd_process_vm_fault {\<newline>    $pasid = (uint32)arg1;\<newline>    printf('' @ dq @
     ''XNACK pid=%d comm=%s pasid=%u'' @ bs_n @ dq @ '', pid, comm, $pasid);\<newline>}\<newline>''"

definition xnack_child :: "string option \<Rightarrow> bool \<Rightarrow> file_system \<Rightarrow> (string \<times> file_system) option" where
  "xnack_child tmpfile write_ok fs =
     (case tmpfile of
        None \<Rightarrow> None
      | Some path \<Rightarrow>
          if \<not> write_ok then None
          else
            let fs1 = fs(path \<mapsto> xnack_script);
                fs2 = fs1(path := None)
            in Some (path, fs2))"

text \<open>
  Starting and stopping the child. \<^verbatim>\<open>Start\<close> sees whether the pipe was made and what \<^verbatim>\<open>fork\<close> returned
  in the parent; the calls \<^verbatim>\<open>Stop\<close> makes are its result. The reader thread clears the flag and its
  descriptor when its input ends.
\<close>

record XnackMonitor =
  xm_bpftrace_pid :: c_int
  xm_stdout_open :: bool
  xm_running :: bool
  xm_joinable :: bool

definition new_XnackMonitor :: XnackMonitor where
  "new_XnackMonitor = \<lparr>xm_bpftrace_pid = - 1, xm_stdout_open = False, xm_running = False, xm_joinable = False\<rparr>"

datatype child_call = Sigterm c_int | Pause | Wait_nohang c_int | Sigkill c_int | Wait_child c_int | Join_reader

definition StartXnack :: "bool \<Rightarrow> c_int \<Rightarrow> XnackMonitor \<Rightarrow> bool \<times> XnackMonitor" where
  "StartXnack pipe_ok child m =
     (if \<not> pipe_ok then (False, m)
      else if child < 0 then (False, m)
      else (True, m\<lparr>xm_bpftrace_pid := child, xm_stdout_open := True, xm_running := True, xm_joinable := True\<rparr>))"

definition reader_done :: "XnackMonitor \<Rightarrow> XnackMonitor" where
  "reader_done m = m\<lparr>xm_stdout_open := False, xm_running := False\<rparr>"

definition StopXnack :: "XnackMonitor \<Rightarrow> child_call list \<times> XnackMonitor" where
  "StopXnack m =
     (let pid = xm_bpftrace_pid m;
          signals = (if xm_running m then [Sigterm pid, Pause, Wait_nohang pid, Sigkill pid] else []);
          (calls, m1) = (if 0 < pid then (signals @ [Wait_child pid], m\<lparr>xm_bpftrace_pid := - 1\<rparr>) else ([], m))
      in (calls @ (if xm_joinable m then [Join_reader] else []), m1\<lparr>xm_running := False, xm_joinable := False\<rparr>))"

text \<open>\<^verbatim>\<open>fgets\<close> into a \<^verbatim>\<open>char[512]\<close>: at most 511 characters, up to and with the newline.\<close>

function fgets_all :: "string \<Rightarrow> string list" where
  "fgets_all s =
     (if s = [] then []
      else
        let l = take 511 (takeWhile (\<lambda>c. c \<noteq> CHR 0x0A) s @ take 1 (dropWhile (\<lambda>c. c \<noteq> CHR 0x0A) s))
        in l # fgets_all (drop (length l) s))"
  by pat_completeness auto
termination
proof (relation "measure length", goal_cases)
  case (2 s x)
  then show ?case by (cases s) auto
qed simp

declare fgets_all.simps [simp del]

definition xnack_format :: "directive list" where
  "xnack_format =
     lits ''XNACK pid='' @ [ScanD] @ lits '' comm='' @ [ScanS 255] @ lits '' pasid='' @ [ScanU]"

definition xnack_line ::
  "(u64 \<Rightarrow> seconds) \<Rightarrow> string \<Rightarrow> bool \<times> u64 \<Rightarrow> XnackRecord option \<times> bool \<times> u64"
where
  "xnack_line clock line st =
     (case st of (ready, seq) \<Rightarrow>
        if \<not> ready then (None, contains (cstr line) ''XNACK_MONITOR_READY'', seq)
        else if \<not> starts_with (cstr line) ''XNACK '' then (None, ready, seq)
        else
          (case sscanf line xnack_format of
             [SD pid, SS comm, SU pasid] \<Rightarrow>
               (Some \<lparr>x_seq = seq + 1, x_pasid = ucast pasid, x_pid = pid, x_comm = comm,
                  x_timestamp = clock (seq + 1)\<rparr>, ready, seq + 1)
           | _ \<Rightarrow> (None, ready, seq + 1)))"

fun ReadLoopXnack ::
  "(u64 \<Rightarrow> seconds) \<Rightarrow> string list \<Rightarrow> bool \<times> u64 \<Rightarrow> XnackRecord list"
where
  "ReadLoopXnack clock [] st = []"
| "ReadLoopXnack clock (l # ls) st =
     (case xnack_line clock l st of (r, st1) \<Rightarrow>
        (case r of Some x \<Rightarrow> [x] | None \<Rightarrow> []) @ ReadLoopXnack clock ls st1)"

end
