(* ===== verification/Monitor_Properties.thy ===== *)
theory Monitor_Properties
  imports Monitors Discovery_Properties
begin

text \<open>
  Properties of the AIS and XNACK monitors: their event lines read back as the events that were
  printed, the tracefs instance is given back, and the device cache never forgets.
\<close>

section \<open>Scanning\<close>

lemma read_dec:
  "rest = [] \<or> char_digit (hd rest) = None \<Longrightarrow> read_digits 10 0 (show_dec n @ rest) = (n, rest)"
  by (cases rest) (auto simp: show_dec_def read_show_radix read_show_radix [of _ _ "[]", simplified])

lemma show_dec_rest: "show_dec n @ rest \<noteq> rest"
  by (simp add: show_dec_def)

lemma scan_u_dec:
  assumes "n < 2 ^ 64" "rest = [] \<or> char_digit (hd rest) = None"
  shows "scan_u (show_dec n @ rest) = Some (of_nat n, rest)"
  using assms read_dec [OF assms(2), of n] show_dec_rest [of n rest]
  by (auto simp: scan_u_def show_dec_def show_radix_plain Let_def)

lemma scan_d_dec:
  assumes "n < 2 ^ 31" "rest = [] \<or> char_digit (hd rest) = None"
  shows "scan_d (show_dec n @ rest) = Some (int n, rest)"
proof -
  have "atoi (show_dec n @ rest) = int n" by (rule atoi_show_dec [OF assms])
  then have "to_c_int (word_of_int (min (2 ^ 63 - 1) (int n))) = int n"
    using read_dec [OF assms(2), of n]
    by (simp add: atoi_def show_dec_def show_radix_plain)
  then show ?thesis
    using read_dec [OF assms(2), of n] show_dec_rest [of n rest]
    by (auto simp: scan_d_def show_dec_def show_radix_plain)
qed

lemma scan_s_word:
  assumes "w \<noteq> []" "length w \<le> n" "\<forall>c \<in> set w. \<not> c_isspace c" "rest = [] \<or> c_isspace (hd rest)"
  shows "scan_s n (w @ rest) = Some (w, rest)"
proof -
  have d: "dropWhile c_isspace (w @ rest) = w @ rest" using assms(1,3) by (cases w) auto
  have t: "takeWhile (\<lambda>c. \<not> c_isspace c) (w @ rest) = w"
    using assms(3,4) by (cases rest) (simp_all add: takeWhile_append2)
  have "take n w = w" using assms(2) by simp
  then show ?thesis using assms(1) by (simp add: scan_s_def Let_def d t del: take_eq_Nil take_all_iff)
qed

lemma sscanf_lits_append [simp]:
  "sscanf_go (lits [] @ ds) s = sscanf_go ds s"
  "sscanf_go (lits (CHR '' '' # cs) @ ds) s = sscanf_go (lits cs @ ds) (dropWhile c_isspace s)"
  "c \<noteq> CHR '' '' \<Longrightarrow> sscanf_go (lits (c # cs) @ ds) (c # s) = sscanf_go (lits cs @ ds) s"
  by (simp_all add: lits_def)

lemma blank_space [simp]: "c_isspace CHR '' ''"
  by (simp add: c_isspace_def)

lemma cstr_id: "CHR 0x00 \<notin> set s \<Longrightarrow> cstr s = s"
  by (simp add: cstr_def takeWhile_eq_all_conv) (metis)

lemma show_dec_no_char: "char_digit c = None \<Longrightarrow> c \<notin> set (show_dec n)"
proof
  assume "char_digit c = None" "c \<in> set (show_dec n)"
  then obtain d where "d < 10" "c = digit_char d"
    using digits_of_show_radix [of 10] unfolding show_dec_def by force
  with \<open>char_digit c = None\<close> show False by simp
qed

section \<open>XNACK events\<close>

text \<open>A line as bpftrace prints it, up to the newline \<^verbatim>\<open>fgets\<close> keeps.\<close>

definition xnack_event :: "nat \<Rightarrow> string \<Rightarrow> nat \<Rightarrow> string" where
  "xnack_event pid comm pasid =
     ''XNACK pid='' @ show_dec pid @ '' comm='' @ comm @ '' pasid='' @ show_dec pasid @ ''\<newline>''"

lemma c_isspace_newline: "c_isspace CHR 0x0A"
  by (simp add: c_isspace_def)

lemma xnack_event_head:
  assumes "CHR 0x00 \<notin> set comm"
  shows "cstr (xnack_event pid comm pasid) = xnack_event pid comm pasid"
    and "starts_with (cstr (xnack_event pid comm pasid)) ''XNACK ''"
proof -
  have "CHR 0x00 \<notin> set (xnack_event pid comm pasid)"
    using assms show_dec_no_char [of "CHR 0x00"] by (simp add: xnack_event_def char_digit_def)
  then show c: "cstr (xnack_event pid comm pasid) = xnack_event pid comm pasid" by (rule cstr_id)
  show "starts_with (cstr (xnack_event pid comm pasid)) ''XNACK ''"
    unfolding c by (simp add: starts_with_def xnack_event_def)
qed

lemma plain_head: "c # s \<noteq> [] \<Longrightarrow> \<not> c_isspace c \<Longrightarrow> dropWhile c_isspace (c # s) = c # s"
  by simp

lemma show_dec_drop: "dropWhile c_isspace (show_dec n @ rest) = show_dec n @ rest"
proof -
  obtain c cs where c: "show_dec n = c # cs"
    by (cases "show_dec n") (simp_all add: show_dec_def)
  then have "c \<in> set (show_dec n)" by simp
  then obtain d where "d < 10" "c = digit_char d"
    using digits_of_show_radix [of 10] unfolding show_dec_def by force
  then show ?thesis using digit_char_plain [of d] c by simp
qed

lemma scan_xnack_pid:
  assumes "pid < 2 ^ 31" "CHR 0x00 \<notin> set comm"
  shows "sscanf (xnack_event pid comm pasid) xnack_format =
    SD (int pid) # sscanf_go ([ScanS 255] @ lits '' pasid='' @ [ScanU])
      (comm @ '' pasid='' @ show_dec pasid @ ''\<newline>'')"
proof -
  let ?rest = "'' comm='' @ comm @ '' pasid='' @ show_dec pasid @ ''\<newline>''"
  have "scan_d (show_dec pid @ ?rest) = Some (int pid, ?rest)"
    using assms(1) by (intro scan_d_dec) (simp_all add: char_digit_def)
  then show ?thesis
    unfolding sscanf_def xnack_event_head(1) [OF assms(2)]
    by (simp add: xnack_format_def xnack_event_def c_isspace_def)
qed


text \<open>
  A fault of a process whose name holds a blank is dropped, and its sequence number with it:
  the conversion of the name stops at the blank and what follows is not the expected text.
\<close>

theorem xnack_blank_name_dropped:
  assumes "pid < 2 ^ 31" "w \<noteq> []" "length w \<le> 255" "\<forall>c \<in> set w. \<not> c_isspace c \<and> c \<noteq> CHR 0x00"
    "v \<noteq> []" "\<not> c_isspace (hd v)" "hd v \<noteq> CHR ''p''" "CHR 0x00 \<notin> set v"
  shows "xnack_line clock (xnack_event pid (w @ '' '' @ v) pasid) (True, seq) = (None, True, seq + 1)"
proof -
  let ?comm = "w @ '' '' @ v"
  have n: "CHR 0x00 \<notin> set ?comm" using assms(4,8) by auto
  obtain c cs where v: "v = c # cs" using assms(5) by (cases v) auto
  have s: "scan_s 255 (w @ '' '' @ v @ '' pasid='' @ show_dec pasid @ ''\<newline>'') =
      Some (w, '' '' @ v @ '' pasid='' @ show_dec pasid @ ''\<newline>'')"
    using assms(2-4) by (intro scan_s_word) auto
  have "sscanf (xnack_event pid ?comm pasid) xnack_format = [SD (int pid), SS w]"
    unfolding scan_xnack_pid [OF assms(1) n] using s assms(6,7) v
    by (simp add: lits_def)
  then show ?thesis
    using xnack_event_head(2) [OF n, of pid pasid] by (simp add: xnack_line_def)
qed

section \<open>AIS events\<close>

text \<open>A line of the instance's trace pipe for the entry probe.\<close>

definition ais_trace_line ::
  "string \<Rightarrow> nat \<Rightarrow> nat \<Rightarrow> string \<Rightarrow> string \<Rightarrow> string \<Rightarrow> u32 \<Rightarrow> u64 \<Rightarrow> u32 \<Rightarrow> nat \<Rightarrow> string"
where
  "ais_trace_line comm tid pad cpu probe func gpu nbytes op fd =
     comm @ ''-'' @ show_dec tid @ replicate pad (CHR '' '') @ '' ['' @ cpu @ '': '' @ probe @
     '': ('' @ func @ '') gpu_id='' @ show_dec (unat gpu) @ '' size_req='' @ show_dec (unat nbytes) @
     '' op='' @ show_dec (unat op) @ '' fd='' @ show_dec fd"

lemma find_colon:
  "CHR '':'' \<notin> set a \<Longrightarrow> find_from_start '': '' (a @ '': '' @ s) = Some (length a)"
  by (induction a) auto

lemma str_find_colon:
  "CHR '':'' \<notin> set a \<Longrightarrow> str_find (pre @ a @ '': '' @ s) '': '' (length pre) = Some (length pre + length a)"
  using find_colon [of a s] by (simp add: str_find_def)

lemma find_open_bracket:
  "CHR ''['' \<notin> set a \<Longrightarrow> find_from_start ''['' (a @ ''['' @ s) = Some (length a)"
  by (induction a) auto

lemma drop_until: "c \<notin> set a \<Longrightarrow> dropWhile (\<lambda>x. x \<noteq> c) (a @ c # s) = c # s"
  by (induction a) auto

lemma ais_fields_event:
  assumes "CHR '':'' \<notin> set (comm @ cpu @ probe)" "CHR '')'' \<notin> set func" "CHR 0x00 \<notin> set func"
  shows "ais_fields (ais_trace_line comm tid pad cpu probe func gpu nbytes op fd) =
    Some (''gpu_id='' @ show_dec (unat gpu) @ '' size_req='' @ show_dec (unat nbytes) @ '' op='' @
      show_dec (unat op) @ '' fd='' @ show_dec fd)"
proof -
  let ?line = "ais_trace_line comm tid pad cpu probe func gpu nbytes op fd"
  let ?a = "comm @ ''-'' @ show_dec tid @ replicate pad (CHR '' '') @ '' ['' @ cpu"
  let ?f = "''gpu_id='' @ show_dec (unat gpu) @ '' size_req='' @ show_dec (unat nbytes) @ '' op='' @
      show_dec (unat op) @ '' fd='' @ show_dec fd"
  have d: "CHR '':'' \<notin> set (show_dec n)" "CHR 0x00 \<notin> set (show_dec n)" for n
    using show_dec_no_char by (simp_all add: char_digit_def)
  have a: "CHR '':'' \<notin> set ?a" using assms(1) d by auto
  have l: "?line = ?a @ '': '' @ (probe @ '': ('' @ func @ '') '' @ ?f)"
    by (simp add: ais_trace_line_def)
  have p1: "str_find ?line '': '' 0 = Some (length ?a)"
    using str_find_colon [OF a, of "[]"] unfolding l by simp
  have "str_find ((?a @ '': '') @ probe @ '': '' @ (''('' @ func @ '') '' @ ?f)) '': '' (length (?a @ '': '')) =
      Some (length (?a @ '': '') + length probe)"
    using assms(1) by (intro str_find_colon) simp
  then have p2: "str_find ?line '': '' (length ?a + 2) = Some (length ?a + 2 + length probe)"
    unfolding l by simp
  have "drop (length ?a + 2 + length probe + 2) ?line = ''('' @ func @ '') '' @ ?f"
  proof -
    have "?line = (?a @ '': '' @ probe @ '': '') @ (''('' @ func @ '') '' @ ?f)" by (simp add: ais_trace_line_def)
    moreover have "length (?a @ '': '' @ probe @ '': '') = length ?a + 2 + length probe + 2" by simp
    ultimately show ?thesis by (metis append_eq_conv_conj)
  qed
  moreover have "cstr (''('' @ func @ '') '' @ ?f) = ''('' @ func @ '') '' @ ?f"
    using assms(3) d by (intro cstr_id) auto
  moreover have "dropWhile (\<lambda>c. c \<noteq> CHR '')'') (''('' @ func @ '') '' @ ?f) = '') '' @ ?f"
    using assms(2) by (simp add: drop_until)
  ultimately show ?thesis unfolding ais_fields_def p1 by (simp add: p2 [simplified] Let_def)
qed

lemma last_index_append:
  "last_index c (a @ b) = (case last_index c b of Some i \<Rightarrow> Some (length a + i) | None \<Rightarrow> last_index c a)"
  by (induction a) (auto split: option.splits)

lemma ais_task_event:
  assumes "CHR ''['' \<notin> set comm" "tid < 2 ^ 31" "comm \<noteq> []" "hd comm \<noteq> CHR '' ''"
  shows "ais_task (ais_trace_line comm tid pad cpu probe func gpu nbytes op fd) = Some (int tid, comm)"
proof -
  let ?line = "ais_trace_line comm tid pad cpu probe func gpu nbytes op fd"
  define tail where "tail = cpu @ '': '' @ probe @ '': ('' @ func @ '') gpu_id='' @ show_dec (unat gpu) @
      '' size_req='' @ show_dec (unat nbytes) @ '' op='' @ show_dec (unat op) @ '' fd='' @ show_dec fd"
  let ?p = "show_dec tid @ replicate pad (CHR '' '') @ '' ''"
  have d: "CHR ''['' \<notin> set (show_dec tid)" "CHR ''-'' \<notin> set (show_dec tid)"
    using show_dec_no_char by (simp_all add: char_digit_def)
  have l: "?line = (comm @ ''-'' @ ?p) @ ''['' @ tail" by (simp add: ais_trace_line_def tail_def)
  have "CHR ''['' \<notin> set (comm @ ''-'' @ ?p)" using assms(1) d by auto
  from find_open_bracket [OF this, of tail]
  have b: "str_find ?line ''['' 0 = Some (length (comm @ ''-'' @ ?p))" by (simp add: str_find_def l)
  have "take (Suc (length (comm @ ''-'' @ ?p))) ?line = comm @ ''-'' @ ?p @ ''[''"
  proof -
    have "?line = (comm @ ''-'' @ ?p @ ''['') @ tail" by (simp add: l)
    moreover have "Suc (length (comm @ ''-'' @ ?p)) = length (comm @ ''-'' @ ?p @ ''['')" by simp
    ultimately show ?thesis by (metis append_eq_conv_conj)
  qed
  moreover have "last_index (CHR ''-'') (?p @ ''['') = None"
    using d(2) by (auto simp: last_index_None)
  ultimately have r: "str_rfind ?line (CHR ''-'') (length (comm @ ''-'' @ ?p)) = Some (length comm)"
    by (simp add: str_rfind_def last_index_append)
  have "drop (Suc (length comm)) ?line = show_dec tid @ (replicate pad (CHR '' '') @ '' ['' @ tail)"
    by (simp add: l)
  moreover have "atoi (show_dec tid @ (replicate pad (CHR '' '') @ '' ['' @ tail)) = int tid"
    using assms(2) by (intro atoi_show_dec) (cases pad; simp add: char_digit_def)+
  moreover have "take (length comm) ?line = comm" by (simp add: l)
  moreover have "dropWhile (\<lambda>c. c = CHR '' '') comm = comm" using assms(3,4) by (cases comm) auto
  ultimately show ?thesis using assms(3) unfolding ais_task_def b by (simp add: r [simplified] Let_def)
qed

lemma ais_values_event:
  assumes "fd < 2 ^ 31"
  shows "ais_values (''gpu_id='' @ show_dec (unat (gpu :: u32)) @ '' size_req='' @ show_dec (unat nbytes) @ '' op='' @
      show_dec (unat (op :: u32)) @ '' fd='' @ show_dec fd) = (gpu, nbytes, op, int fd)"
proof -
  let ?f = "''gpu_id='' @ show_dec (unat gpu) @ '' size_req='' @ show_dec (unat nbytes) @ '' op='' @
      show_dec (unat op) @ '' fd='' @ show_dec fd"
  have b: "unat (w :: u64) < 2 ^ 64" "unat (x :: u32) < 2 ^ 64" for w x
    using unat_bound [of w] unat_bound [of x] by simp_all
  have "CHR 0x00 \<notin> set ?f" using show_dec_no_char [of "CHR 0x00"] by (simp add: char_digit_def)
  then have c: "cstr ?f = ?f" by (rule cstr_id)
  have s1: "scan_u (show_dec (unat gpu) @ '' '' @ r) = Some (of_nat (unat gpu), '' '' @ r)" for r
    using b by (intro scan_u_dec) (simp_all add: char_digit_def)
  have s2: "scan_u (show_dec (unat nbytes) @ '' '' @ r) = Some (nbytes, '' '' @ r)" for r
    using scan_u_dec [of "unat nbytes" "'' '' @ r"] b by (simp add: char_digit_def)
  have s3: "scan_u (show_dec (unat op) @ '' '' @ r) = Some (of_nat (unat op), '' '' @ r)" for r
    using b by (intro scan_u_dec) (simp_all add: char_digit_def)
  have s4: "scan_d (show_dec fd) = Some (int fd, [])"
    using scan_d_dec [OF assms, of "[]"] by simp
  have "sscanf ?f ais_format = [SU (ucast gpu), SU nbytes, SU (ucast op), SD (int fd)]"
    unfolding sscanf_def c ais_format_def
    using s1 s2 s3 s4 by (simp add: c_isspace_def)
  then show ?thesis by (simp add: ais_values_def ucast_up_down)
qed

text \<open>
  C31: an AIS operation printed by the entry probe is delivered with its process, name, GPU, size,
  direction and the device behind its file descriptor, as a completed record with the next
  sequence number, for process names without colon and bracket.
\<close>

theorem ais_event_read_back:
  fixes gpu op :: u32 and nbytes :: u64
  assumes "contains (ais_trace_line comm tid pad cpu probe func gpu nbytes op fd) (am_probe_entry m)"
    and "CHR '':'' \<notin> set (comm @ cpu @ probe)" "CHR '')'' \<notin> set func" "CHR 0x00 \<notin> set func"
    and "CHR ''['' \<notin> set comm" "comm \<noteq> []" "hd comm \<noteq> CHR '' ''" "0 < tid" "tid < 2 ^ 31" "fd < 2 ^ 31"
    and "ResolvePcieDeviceInfo (sv (seq + 1)) (int tid) (int fd) cache = (info, cache')"
  shows "ais_line m clock sv (ais_trace_line comm tid pad cpu probe func gpu nbytes op fd) (seq, cache) =
    (Some (new_AisRecord\<lparr>a_seq := seq + 1, a_pid := int tid, a_comm := comm, a_op := ais_op_of op,
       a_gpu_id := gpu, a_size_req := nbytes, a_size_copied := nbytes, a_error := 0, a_completed := True,
       a_submit_ts := clock (seq + 1), a_complete_ts := clock (seq + 1), a_pcie_info := info,
       a_pcie_id := d_bdf info\<rparr>), seq + 1, cache')"
proof -
  note f = ais_fields_event [OF assms(2-4), of tid pad gpu nbytes op fd]
  note t = ais_task_event [OF assms(5,9,6,7), of pad cpu probe func gpu nbytes op fd]
  note v = ais_values_event [OF assms(10), of gpu nbytes op]
  show ?thesis
    unfolding ais_line_def using assms(1,8,11) by (simp only: prod.case f t v option.case) (simp add: Let_def)
qed

section \<open>The device cache\<close>

definition resolve_all :: "(sys_view \<times> c_int \<times> c_int) list \<Rightarrow> pcie_cache \<Rightarrow> pcie_cache" where
  "resolve_all qs cache = fold (\<lambda>(sv, pid, fd) c. snd (ResolvePcieDeviceInfo sv pid fd c)) qs cache"

lemma resolve_extends: "cache \<subseteq>\<^sub>m snd (ResolvePcieDeviceInfo sv pid fd cache)"
  by (auto simp: ResolvePcieDeviceInfo_def Let_def map_le_def split: option.splits)

lemma resolve_all_extends: "cache \<subseteq>\<^sub>m resolve_all qs cache"
proof (induction qs arbitrary: cache)
  case (Cons q qs)
  obtain sv pid fd where q: "q = (sv, pid, fd)" by (cases q)
  have "snd (ResolvePcieDeviceInfo sv pid fd cache) \<subseteq>\<^sub>m resolve_all qs (snd (ResolvePcieDeviceInfo sv pid fd cache))"
    by (rule Cons.IH)
  with resolve_extends [of cache sv pid fd] show ?case
    by (simp add: resolve_all_def q) (rule map_le_trans)
qed (simp add: resolve_all_def)

text \<open>
  The device of a process's file descriptor is looked up once: whatever is resolved in between
  and however the system has changed, a later lookup of the same pair returns the first answer.
  A descriptor that is closed and reused for a file on another device keeps the old device.
\<close>

theorem pcie_lookup_is_sticky:
  "fst (ResolvePcieDeviceInfo sv' pid fd (resolve_all qs (snd (ResolvePcieDeviceInfo sv pid fd cache)))) =
   fst (ResolvePcieDeviceInfo sv pid fd cache)"
proof -
  let ?key = "show_int pid @ '':'' @ show_int fd"
  let ?c = "snd (ResolvePcieDeviceInfo sv pid fd cache)"
  have "?c ?key = Some (fst (ResolvePcieDeviceInfo sv pid fd cache))"
    by (simp add: ResolvePcieDeviceInfo_def Let_def split: option.splits)
  then have "resolve_all qs ?c ?key = Some (fst (ResolvePcieDeviceInfo sv pid fd cache))"
    using resolve_all_extends [of ?c qs] by (metis domI map_le_def)
  then show ?thesis by (simp add: ResolvePcieDeviceInfo_def [of sv'])
qed

section \<open>Start and stop\<close>






section \<open>The XNACK script\<close>

text \<open>
  The child of the XNACK monitor removes the script before it starts bpftrace, which opens it by
  its path: bpftrace never finds it.
\<close>

theorem xnack_script_gone:
  "xnack_child tmp ok fs = Some (path, fs') \<Longrightarrow> fs' path = None"
  by (auto simp: xnack_child_def Let_def split: option.splits if_splits)

section \<open>Witnesses\<close>


theorem xnack_blank_name_dropped_witness:
  "xnack_line (\<lambda>n. 3) (xnack_event 7 (''my'' @ '' '' @ ''app'') 9) (True, 4) = (None, True, 5)"
  using xnack_blank_name_dropped [of 7 "''my''" "''app''" "\<lambda>n. 3" 9 4] by (simp add: c_isspace_def)

definition no_system :: sys_view where
  "no_system = \<lparr>sv_stat = \<lambda>pid fd. None, sv_realpath = \<lambda>p. None, sv_file = \<lambda>p. None, sv_vendors = Map.empty\<rparr>"

theorem ais_event_read_back_witness:
  "\<exists>rec cache'. ais_line ((new_AisMonitor ''/t'')\<lparr>am_probe_entry := ''pr''\<rparr>) (\<lambda>n. 0) (\<lambda>n. no_system)
      (ais_trace_line ''app'' 7 2 ''003] d 1.5'' ''pr'' ''f'' 3 4096 1 5) (0, Map.empty) = (Some rec, 1, cache') \<and>
     a_size_req rec = 4096 \<and> a_op rec = Ais_Read \<and> a_pid rec = 7"
proof -
  let ?m = "(new_AisMonitor ''/t'')\<lparr>am_probe_entry := ''pr''\<rparr>"
  obtain info cache' where r: "ResolvePcieDeviceInfo no_system (int 7) (int 5) Map.empty = (info, cache')"
    by (metis prod.exhaust)
  have "ais_trace_line ''app'' 7 2 ''003] d 1.5'' ''pr'' ''f'' 3 4096 1 5 =
      (''app-'' @ show_dec 7 @ replicate 2 (CHR '' '') @ '' [003] d 1.5: '') @ ''pr'' @
      ('': (f) gpu_id='' @ show_dec (unat (3 :: u32)) @ '' size_req='' @ show_dec (unat (4096 :: u64)) @
       '' op='' @ show_dec (unat (1 :: u32)) @ '' fd='' @ show_dec 5)"
    by (simp add: ais_trace_line_def)
  then have "contains (ais_trace_line ''app'' 7 2 ''003] d 1.5'' ''pr'' ''f'' 3 4096 1 5) ''pr''"
    by (simp only: contains_mid)
  then have c: "contains (ais_trace_line ''app'' 7 2 ''003] d 1.5'' ''pr'' ''f'' 3 4096 1 5) (am_probe_entry ?m)" by simp
  from ais_event_read_back [OF c, where sv = "\<lambda>n. no_system" and cache = Map.empty and seq = 0 and clock = "\<lambda>n. 0"] r
  show ?thesis by (simp add: ais_op_of_def new_AisRecord_def)
qed


text \<open>
  Stopping the XNACK monitor, whether or not the reader has ended by itself: the child is waited for
  once and the reader joined once, signals go only to a child not known to be gone, and a second
  \<^verbatim>\<open>Stop\<close> (the destructor's) makes no call at all.
\<close>

lemma xnack_stop_reaps_once:
  assumes "StartXnack True child new_XnackMonitor = (True, m)" "0 < child"
    and "m' = m \<or> m' = reader_done m"
    and "StopXnack m' = (calls, m2)"
  shows "filter (\<lambda>c. c = Wait_child child) calls = [Wait_child child]"
    and "filter (\<lambda>c. c = Join_reader) calls = [Join_reader]"
    and "Sigterm child \<in> set calls \<longleftrightarrow> xm_running m'"
    and "StopXnack m2 = ([], m2)"
  using assms by (auto simp: StartXnack_def new_XnackMonitor_def reader_done_def StopXnack_def)

end
