(* ===== verification/Exporter.thy ===== *)
theory Exporter
  imports Monitors Sdma
begin

text \<open>
  \<^verbatim>\<open>src/prometheus_exporter.cpp\<close>. The metrics library (prometheus-cpp) is not part of the program:
  the exporter's own state is modelled together with the calls it makes on the library, in order.
  \<^verbatim>\<open>Family::Add\<close> returns the child with the given labels, the same one each time, so a child is
  named by its family and labels, and a cached \<^verbatim>\<open>Gauge*\<close> is the labels it was made with.
\<close>

section \<open>Metric families\<close>

datatype family =
    Up | Kernel_launches | Errors | Barriers | Active_queues | Launch_rate | Last_launch_ts
  | Last_kernel_info | Duration | Triggered | Sdma_copies | Sdma_bytes | Sdma_packets
  | Active_sdma_queues | Sdma_present | Ais_rx_ops | Ais_tx_ops | Ais_rx_bytes | Ais_tx_bytes
  | Ais_rx_errors | Ais_tx_errors | Ais_rx_latency | Ais_tx_latency | Ais_rx_io_size
  | Ais_tx_io_size | Ais_active | Ais_snoop_armed | Ais_pcie_info | Xnack_total
  | Xnack_snoop_armed | Queue_info | Mem_lds | Mem_scratch | Mem_mapped_vram
  | Mem_mapped_vram_total

fun family_name :: "family \<Rightarrow> string" where
  "family_name Up = ''hsa_snoop_up''"
| "family_name Kernel_launches = ''hsa_kernel_launches_total''"
| "family_name Errors = ''hsa_errors_total''"
| "family_name Barriers = ''hsa_barrier_packets_total''"
| "family_name Active_queues = ''hsa_active_queues''"
| "family_name Launch_rate = ''hsa_kernel_launches_per_second''"
| "family_name Last_launch_ts = ''hsa_last_kernel_launch_timestamp_seconds''"
| "family_name Last_kernel_info = ''hsa_last_kernel_launch_info''"
| "family_name Duration = ''hsa_kernel_duration_seconds''"
| "family_name Triggered = ''hsa_triggered''"
| "family_name Sdma_copies = ''hsa_sdma_copies_total''"
| "family_name Sdma_bytes = ''hsa_sdma_bytes_total''"
| "family_name Sdma_packets = ''hsa_sdma_packets_total''"
| "family_name Active_sdma_queues = ''hsa_active_sdma_queues''"
| "family_name Sdma_present = ''hsa_sdma_present''"
| "family_name Ais_rx_ops = ''ais_rx_ops_total''"
| "family_name Ais_tx_ops = ''ais_tx_ops_total''"
| "family_name Ais_rx_bytes = ''ais_rx_bytes_total''"
| "family_name Ais_tx_bytes = ''ais_tx_bytes_total''"
| "family_name Ais_rx_errors = ''ais_rx_errors_total''"
| "family_name Ais_tx_errors = ''ais_tx_errors_total''"
| "family_name Ais_rx_latency = ''ais_rx_latency_seconds''"
| "family_name Ais_tx_latency = ''ais_tx_latency_seconds''"
| "family_name Ais_rx_io_size = ''ais_rx_io_size_bytes''"
| "family_name Ais_tx_io_size = ''ais_tx_io_size_bytes''"
| "family_name Ais_active = ''ais_active''"
| "family_name Ais_snoop_armed = ''ais_snoop_armed''"
| "family_name Ais_pcie_info = ''ais_pcie_device_info''"
| "family_name Xnack_total = ''hsa_xnack_total''"
| "family_name Xnack_snoop_armed = ''hsa_xnack_snoop_armed''"
| "family_name Queue_info = ''hsa_queue_info''"
| "family_name Mem_lds = ''hsa_kernel_lds_bytes''"
| "family_name Mem_scratch = ''hsa_kernel_scratch_bytes_total''"
| "family_name Mem_mapped_vram = ''hsa_kernel_mapped_vram_bytes''"
| "family_name Mem_mapped_vram_total = ''hsa_kernel_mapped_vram_bytes_total''"

datatype metric_kind = Counter | Gauge | Histogram

definition family_kind :: "family \<Rightarrow> metric_kind" where
  "family_kind f =
     (if f \<in> {Kernel_launches, Errors, Barriers, Sdma_copies, Sdma_bytes, Sdma_packets, Ais_rx_ops,
        Ais_tx_ops, Ais_rx_bytes, Ais_tx_bytes, Ais_rx_errors, Ais_tx_errors, Xnack_total,
        Mem_mapped_vram_total} then Counter
      else if f \<in> {Duration, Ais_rx_latency, Ais_tx_latency, Ais_rx_io_size, Ais_tx_io_size} then Histogram
      else Gauge)"

type_synonym labels = "(string \<times> string) list"

datatype metric_op = Inc rat | SetTo rat | Observe "rat list" rat
datatype metric_call = On family labels metric_op | Removed family labels

section \<open>Detection helpers\<close>

text \<open>
  What the helpers read: first lines of two files (\<open>None\<close>: not opened), the lines of the version
  header, the topology nodes in directory order, and what \<^verbatim>\<open>fgets\<close> returned from rocminfo
  (\<open>None\<close>: \<^verbatim>\<open>popen\<close> failed).
\<close>

record kfd_node =
  kn_dir :: string
  kn_gpu_id :: "string option"
  kn_name :: "string option"

record host_view =
  hv_proc_version :: "string option"
  hv_rocm_info :: "string option"
  hv_rocm_header :: "string list option"
  hv_nodes :: "kfd_node list option"
  hv_rocminfo :: "string list option"
  hv_hostname :: string

definition DetectPlatform :: "host_view \<Rightarrow> string" where
  "DetectPlatform hv =
     (case hv_proc_version hv of
        Some line \<Rightarrow> if contains (map c_tolower line) ''microsoft'' then ''wsl2'' else ''linux''
      | None \<Rightarrow> ''linux'')"

definition define_of :: "string \<Rightarrow> string \<Rightarrow> c_int option" where
  "define_of part line =
     (case sscanf line (lits (''#define ROCM_VERSION_'' @ part @ '' '') @ [ScanD]) of
        [SD v] \<Rightarrow> Some v
      | _ \<Rightarrow> None)"

fun version_line :: "string \<Rightarrow> c_int \<times> c_int \<times> c_int \<Rightarrow> c_int \<times> c_int \<times> c_int" where
  "version_line line (major, minor, patch) =
     (case define_of ''MAJOR'' line of
        Some v \<Rightarrow> (v, minor, patch)
      | None \<Rightarrow>
          (case define_of ''MINOR'' line of
             Some v \<Rightarrow> (major, v, patch)
           | None \<Rightarrow>
               (case define_of ''PATCH'' line of
                  Some v \<Rightarrow> (major, minor, v)
                | None \<Rightarrow> (major, minor, patch))))"

text \<open>The text is written into a \<^verbatim>\<open>char[32]\<close>, which cuts it to 31 characters.\<close>

definition version_text :: "c_int \<times> c_int \<times> c_int \<Rightarrow> string" where
  "version_text v =
     (case v of (major, minor, patch) \<Rightarrow>
        if 0 \<le> major \<and> 0 \<le> minor \<and> 0 \<le> patch
        then take 31 (show_int major @ ''.'' @ show_int minor @ ''.'' @ show_int patch)
        else ''unknown'')"

definition DetectRocmVersion :: "host_view \<Rightarrow> string" where
  "DetectRocmVersion hv =
     (case hv_rocm_info hv of
        Some v \<Rightarrow>
          if v \<noteq> [] then v
          else (case hv_rocm_header hv of
                  Some ls \<Rightarrow> version_text (fold version_line ls (- 1, - 1, - 1)) | None \<Rightarrow> ''unknown'')
      | None \<Rightarrow>
          (case hv_rocm_header hv of
             Some ls \<Rightarrow> version_text (fold version_line ls (- 1, - 1, - 1)) | None \<Rightarrow> ''unknown''))"

text \<open>One buffer of rocminfo's output: the target name when the line carries one.\<close>

definition gfx_name :: "string \<Rightarrow> string option" where
  "gfx_name buf =
     (let blank = (\<lambda>c. c = CHR '' '' \<or> c = CHR 0x09);
          p = dropWhile blank (cstr buf)
      in if \<not> starts_with p ''Name:'' then None
         else
           let r = dropWhile blank (drop 5 p) in
           if starts_with r ''gfx''
           then Some (rev (dropWhile (\<lambda>c. c = CHR 0x0A \<or> c = CHR 0x0D \<or> c = CHR '' '') (rev r)))
           else None)"

text \<open>The static cache: \<open>None\<close> before the first call, then the name found, empty when none was.\<close>

type_synonym rocminfo_cache = "string option"

definition DetectGpuTypeFromRocminfo ::
  "host_view \<Rightarrow> rocminfo_cache \<Rightarrow> string \<times> rocminfo_cache"
where
  "DetectGpuTypeFromRocminfo hv cache =
     (case cache of
        Some c \<Rightarrow> (if c = [] then ''unknown'' else c, cache)
      | None \<Rightarrow>
          (case hv_rocminfo hv of
             None \<Rightarrow> (''unknown'', Some [])
           | Some bufs \<Rightarrow>
               (case List.map_filter gfx_name bufs of
                  [] \<Rightarrow> (''unknown'', Some [])
                | name # _ \<Rightarrow> (name, Some name))))"

text \<open>
  \<^verbatim>\<open>id_f >> node_gpu_id\<close> into a variable that holds 0: a text without a number stores 0, a number
  too large stores the maximum.
\<close>

definition node_id :: "string \<Rightarrow> u32" where
  "node_id text =
     (case extract_unsigned 32 text of
        Some (v, _) \<Rightarrow> of_nat v
      | None \<Rightarrow>
          (case take_sign (dropWhile c_isspace text) of (_, ds) \<Rightarrow>
             if snd (read_digits 10 0 ds) = ds then 0 else - 1))"

text \<open>\<open>Some (Some n)\<close>: the matching node's name; \<open>Some None\<close>: its name file did not open.\<close>

fun find_node_name :: "u32 \<Rightarrow> kfd_node list \<Rightarrow> string option option" where
  "find_node_name gpu [] = None"
| "find_node_name gpu (n # ns) =
     (if starts_with (kn_dir n) ''.'' then find_node_name gpu ns
      else case kn_gpu_id n of
        None \<Rightarrow> find_node_name gpu ns
      | Some text \<Rightarrow> if node_id text \<noteq> gpu then find_node_name gpu ns else Some (kn_name n))"

definition DetectGpuType :: "host_view \<Rightarrow> u32 \<Rightarrow> rocminfo_cache \<Rightarrow> string \<times> rocminfo_cache" where
  "DetectGpuType hv gpu cache =
     (case Option.bind (hv_nodes hv) (find_node_name gpu) of
        Some (Some name) \<Rightarrow> (if name = [] then ''unknown'' else name, cache)
      | _ \<Rightarrow> DetectGpuTypeFromRocminfo hv cache)"

definition MakeConstLabels :: "host_view \<Rightarrow> string \<Rightarrow> labels" where
  "MakeConstLabels hv mode =
     [(''host'', cstr (take 255 (hv_hostname hv))), (''platform'', DetectPlatform hv),
      (''rocm_version'', DetectRocmVersion hv), (''discovery_mode'', mode)]"

section \<open>State\<close>

record QueueMeta =
  qm_gpu_id :: u32
  qm_pid :: c_int
  qm_comm :: string
  qm_gpu_type :: string

record LastKernelState =
  lk_kernel_name :: string
  lk_gauge :: "labels option"

record LaunchEvent =
  le_ts :: seconds
  le_gpu_id :: u32

text \<open>
  The gauge caches map the decimal GPU id to the child's labels; \<open>pe_rate_gauges\<close> is iterated and
  keeps the entries in the order they were made (the order the hash table visits them is not
  specified, and each child is set once per visit). \<open>pe_calls\<close> are the calls made on the library.
\<close>

record PrometheusExporter =
  pe_const_labels :: labels
  pe_rate_window_sec :: seconds
  pe_rocminfo :: rocminfo_cache
  pe_queue_meta :: "u32 \<rightharpoonup> QueueMeta"
  pe_active_queue_gauges :: "string \<rightharpoonup> labels"
  pe_active_sdma_queue_gauges :: "string \<rightharpoonup> labels"
  pe_last_launch_ts_gauges :: "string \<rightharpoonup> labels"
  pe_last_kernel_state :: "string \<Rightarrow> LastKernelState"
  pe_triggered_gauges :: "string \<rightharpoonup> labels"
  pe_launch_events :: "LaunchEvent list"
  pe_rate_gauges :: "(string \<times> labels) list"
  pe_calls :: "metric_call list"

definition call_metric :: "family \<Rightarrow> labels \<Rightarrow> metric_op \<Rightarrow> PrometheusExporter \<Rightarrow> PrometheusExporter" where
  "call_metric f l oper s = s\<lparr>pe_calls := pe_calls s @ [On f l oper]\<rparr>"

definition remove_metric :: "family \<Rightarrow> labels \<Rightarrow> PrometheusExporter \<Rightarrow> PrometheusExporter" where
  "remove_metric f l s = s\<lparr>pe_calls := pe_calls s @ [Removed f l]\<rparr>"

definition gpu_str :: "u32 \<Rightarrow> string" where
  "gpu_str gpu = show_dec (unat gpu)"

definition gpu_labels :: "string \<Rightarrow> string \<Rightarrow> labels" where
  "gpu_labels gpu gpu_type = [(''gpu_id'', gpu), (''gpu_type'', gpu_type)]"

text \<open>The pointer found in a gauge cache, or the child made for an empty entry.\<close>

definition cached_gauge :: "(string \<rightharpoonup> labels) \<Rightarrow> string \<Rightarrow> labels \<Rightarrow> labels" where
  "cached_gauge m k fresh = (case m k of Some l \<Rightarrow> l | None \<Rightarrow> fresh)"

definition new_PrometheusExporter :: "host_view \<Rightarrow> seconds \<Rightarrow> string \<Rightarrow> PrometheusExporter" where
  "new_PrometheusExporter hv rate_window mode =
     \<lparr>pe_const_labels = MakeConstLabels hv mode, pe_rate_window_sec = rate_window,
      pe_rocminfo = snd (DetectGpuType hv 0 None), pe_queue_meta = Map.empty,
      pe_active_queue_gauges = Map.empty, pe_active_sdma_queue_gauges = Map.empty,
      pe_last_launch_ts_gauges = Map.empty,
      pe_last_kernel_state = (\<lambda>_. \<lparr>lk_kernel_name = [], lk_gauge = None\<rparr>),
      pe_triggered_gauges = Map.empty, pe_launch_events = [], pe_rate_gauges = [],
      pe_calls = [On Up [] (SetTo 1), On Sdma_present [] (SetTo 0), On Ais_active [] (SetTo 0)]\<rparr>"

section \<open>Operations\<close>

definition queue_info_labels :: "QueueInfo \<Rightarrow> string \<Rightarrow> labels" where
  "queue_info_labels q gpu_type =
     [(''gpu_id'', gpu_str (q_gpu_id q)), (''gpu_type'', gpu_type), (''pid'', show_int (q_pid q)),
      (''comm'', q_comm q), (''ring_base'', ''0x'' @ show_hex (unat (q_ring_base q))),
      (''ring_phys'', ''0x'' @ show_hex (unat (q_ring_phys q))),
      (''ring_size'', show_dec (unat (q_ring_size q)))]"

text \<open>\<^verbatim>\<open>queue_meta_\<close> is keyed by \<^verbatim>\<open>uint32_t\<close>: the 64-bit identifier is narrowed.\<close>

definition ExporterRegisterQueue :: "host_view \<Rightarrow> QueueInfo \<Rightarrow> PrometheusExporter \<Rightarrow> PrometheusExporter" where
  "ExporterRegisterQueue hv q s =
     (let gpu = gpu_str (q_gpu_id q);
          (gpu_type, cache) = DetectGpuType hv (q_gpu_id q) (pe_rocminfo s);
          meta = \<lparr>qm_gpu_id = q_gpu_id q, qm_pid = q_pid q, qm_comm = q_comm q, qm_gpu_type = gpu_type\<rparr>;
          s1 = s\<lparr>pe_rocminfo := cache, pe_queue_meta := (pe_queue_meta s)(ucast (q_uid q) \<mapsto> meta)\<rparr>;
          s2 = call_metric Queue_info (queue_info_labels q gpu_type) (SetTo 1) s1
      in if is_sdma q then
           let s3 = call_metric Sdma_present [] (SetTo 1) s2;
               g = cached_gauge (pe_active_sdma_queue_gauges s3) gpu (gpu_labels gpu gpu_type)
           in call_metric Active_sdma_queues g (Inc 1)
                (s3\<lparr>pe_active_sdma_queue_gauges := (pe_active_sdma_queue_gauges s3)(gpu \<mapsto> g)\<rparr>)
         else
           let g = cached_gauge (pe_active_queue_gauges s2) gpu (gpu_labels gpu gpu_type)
           in call_metric Active_queues g (Inc 1)
                (s2\<lparr>pe_active_queue_gauges := (pe_active_queue_gauges s2)(gpu \<mapsto> g)\<rparr>))"

definition unknown_labels :: labels where
  "unknown_labels = [(''gpu_id'', ''unknown''), (''pid'', ''unknown'')]"

definition is_dispatch :: "PacketRecord \<Rightarrow> bool" where
  "is_dispatch r = (p_type r = KernelDispatch \<or> p_type r = VendorSpecific)"

definition launch_labels :: "PacketRecord \<Rightarrow> QueueMeta \<Rightarrow> labels" where
  "launch_labels r m =
     [(''kernel_name'', p_kernel_name r), (''gpu_id'', gpu_str (qm_gpu_id m)),
      (''gpu_type'', qm_gpu_type m), (''pid'', show_int (qm_pid m)), (''comm'', qm_comm m)]"

definition kernel_labels :: "string \<Rightarrow> string \<Rightarrow> string \<Rightarrow> labels" where
  "kernel_labels kname gpu gpu_type =
     [(''kernel_name'', kname), (''gpu_id'', gpu), (''gpu_type'', gpu_type)]"

definition task_labels :: "QueueMeta \<Rightarrow> labels" where
  "task_labels m =
     [(''gpu_id'', gpu_str (qm_gpu_id m)), (''gpu_type'', qm_gpu_type m),
      (''pid'', show_int (qm_pid m)), (''comm'', qm_comm m)]"

definition last_kernel_labels :: "string \<Rightarrow> string \<Rightarrow> string \<Rightarrow> labels" where
  "last_kernel_labels gpu gpu_type kname =
     [(''gpu_id'', gpu), (''gpu_type'', gpu_type), (''kernel_name'', kname)]"

definition kBuckets :: "rat list" where
  "kBuckets = map (\<lambda>n. of_nat n / 1000000)
     [50, 100, 250, 500, 1000, 2500, 5000, 10000, 25000, 50000, 100000, 250000, 500000, 1000000, 5000000]"

definition observe_duration :: "PacketRecord \<Rightarrow> QueueMeta \<Rightarrow> PrometheusExporter \<Rightarrow> PrometheusExporter" where
  "observe_duration r m s =
     (if p_completed r \<and> p_submit_ts r < p_complete_ts r
      then call_metric Duration (kernel_labels (p_kernel_name r) (gpu_str (qm_gpu_id m)) (qm_gpu_type m))
             (Observe kBuckets (p_complete_ts r - p_submit_ts r)) s
      else s)"

definition set_last_launch :: "seconds \<Rightarrow> QueueMeta \<Rightarrow> PrometheusExporter \<Rightarrow> PrometheusExporter" where
  "set_last_launch wall m s =
     (let gpu = gpu_str (qm_gpu_id m);
          g = cached_gauge (pe_last_launch_ts_gauges s) gpu (gpu_labels gpu (qm_gpu_type m))
      in call_metric Last_launch_ts g (SetTo wall)
           (s\<lparr>pe_last_launch_ts_gauges := (pe_last_launch_ts_gauges s)(gpu \<mapsto> g)\<rparr>))"

definition set_last_kernel :: "string \<Rightarrow> QueueMeta \<Rightarrow> PrometheusExporter \<Rightarrow> PrometheusExporter" where
  "set_last_kernel kname m s =
     (let gpu = gpu_str (qm_gpu_id m); lks = pe_last_kernel_state s gpu in
      if lk_kernel_name lks \<noteq> kname then
        let s1 = (case lk_gauge lks of Some g \<Rightarrow> remove_metric Last_kernel_info g s | None \<Rightarrow> s);
            g = last_kernel_labels gpu (qm_gpu_type m) kname
        in (call_metric Last_kernel_info g (SetTo 1) s1)
             \<lparr>pe_last_kernel_state := (pe_last_kernel_state s)(gpu := \<lparr>lk_kernel_name = kname, lk_gauge = Some g\<rparr>)\<rparr>
      else s)"

definition latch_triggered :: "QueueMeta \<Rightarrow> PrometheusExporter \<Rightarrow> PrometheusExporter" where
  "latch_triggered m s =
     (let gpu = gpu_str (qm_gpu_id m) in
      case pe_triggered_gauges s gpu of
        Some _ \<Rightarrow> s
      | None \<Rightarrow>
          let g = gpu_labels gpu (qm_gpu_type m)
          in call_metric Triggered g (SetTo 1) (s\<lparr>pe_triggered_gauges := (pe_triggered_gauges s)(gpu \<mapsto> g)\<rparr>))"

text \<open>\<open>wall\<close> and \<open>now\<close> are the readings of the real-time and of the steady clock.\<close>

definition add_dispatch ::
  "seconds \<Rightarrow> seconds \<Rightarrow> PacketRecord \<Rightarrow> QueueMeta \<Rightarrow> PrometheusExporter \<Rightarrow> PrometheusExporter"
where
  "add_dispatch wall now r m s =
     (let s1 = call_metric Kernel_launches (launch_labels r m) (Inc 1) s;
          s2 = observe_duration r m s1;
          s3 = set_last_launch wall m s2;
          s4 = set_last_kernel (p_kernel_name r) m s3;
          s5 = latch_triggered m s4
      in s5\<lparr>pe_launch_events := pe_launch_events s5 @ [\<lparr>le_ts = now, le_gpu_id = qm_gpu_id m\<rparr>]\<rparr>)"

definition ExporterAddPacket ::
  "seconds \<Rightarrow> seconds \<Rightarrow> PacketRecord \<Rightarrow> PrometheusExporter \<Rightarrow> PrometheusExporter"
where
  "ExporterAddPacket wall now r s =
     (case pe_queue_meta s (ucast (p_queue_uid r)) of
        None \<Rightarrow> call_metric Errors unknown_labels (Inc 1) s
      | Some m \<Rightarrow>
          let s1 = (if is_dispatch r then add_dispatch wall now r m s else s)
          in if p_barrier r then call_metric Barriers (task_labels m) (Inc 1) s1 else s1)"

definition ExporterAddSdma :: "SdmaRecord \<Rightarrow> PrometheusExporter \<Rightarrow> PrometheusExporter" where
  "ExporterAddSdma r s =
     (case pe_queue_meta s (ucast (s_queue_uid r)) of
        None \<Rightarrow> call_metric Errors unknown_labels (Inc 1) s
      | Some m \<Rightarrow>
          let s1 = call_metric Sdma_packets
                     (task_labels m @ [(''opcode'', OpName (s_sdma_version r) (s_opcode r))]) (Inc 1) s
          in if is_copy r then
               let l = task_labels m @ [(''direction'', CopyDirName (s_dir r))]
               in call_metric Sdma_bytes l (Inc (of_nat (unat (s_bytes r))))
                    (call_metric Sdma_copies l (Inc 1) s1)
             else s1)"

definition or_unknown :: "string \<Rightarrow> string" where
  "or_unknown s = (if s = [] then ''unknown'' else s)"

definition kLatBuckets :: "rat list" where
  "kLatBuckets = map (\<lambda>n. of_nat n / 1000000)
     [1, 5, 10, 50, 100, 500, 1000, 5000, 10000, 50000, 100000, 500000, 1000000, 5000000, 10000000]"

definition kSizeBuckets :: "rat list" where
  "kSizeBuckets = map of_nat
     [4096, 8192, 16384, 32768, 65536, 131072, 262144, 524288, 1048576, 4194304, 16777216, 67108864,
      268435456, 1073741824, 4294967296]"

definition device_labels :: "AisRecord \<Rightarrow> string \<Rightarrow> labels" where
  "device_labels r gpu_type =
     [(''gpu_id'', gpu_str (a_gpu_id r)), (''gpu_type'', gpu_type), (''pcie_id'', or_unknown (a_pcie_id r)),
      (''device_type'', or_unknown (d_device_type (a_pcie_info r))),
      (''vendor'', or_unknown (d_vendor (a_pcie_info r)))]"

definition pcie_info_labels :: "AisRecord \<Rightarrow> labels" where
  "pcie_info_labels r =
     [(''pcie_id'', or_unknown (a_pcie_id r)), (''device_type'', or_unknown (d_device_type (a_pcie_info r))),
      (''vendor'', or_unknown (d_vendor (a_pcie_info r))),
      (''vendor_id'', or_unknown (d_vendor_id (a_pcie_info r))),
      (''device_id'', or_unknown (d_device_id (a_pcie_info r))),
      (''class_code'', or_unknown (d_class_code (a_pcie_info r)))]"

text \<open>Every operation that is not a read is counted with the writes.\<close>

definition by_direction :: "AisRecord \<Rightarrow> family \<Rightarrow> family \<Rightarrow> family" where
  "by_direction r rx tx = (if a_op r = Ais_Read then rx else tx)"

definition ais_calls :: "AisRecord \<Rightarrow> string \<Rightarrow> metric_call list" where
  "ais_calls r gpu_type =
     (let l = device_labels r gpu_type in
      [On Ais_active [] (SetTo 1)] @
      (if or_unknown (a_pcie_id r) \<noteq> [] \<and> or_unknown (a_pcie_id r) \<noteq> ''unknown''
       then [On Ais_pcie_info (pcie_info_labels r) (SetTo 1)] else []) @
      [On (by_direction r Ais_rx_ops Ais_tx_ops)
         (l @ [(''pid'', show_int (a_pid r)), (''comm'', a_comm r)]) (Inc 1)] @
      (if \<not> is_error r \<and> 0 < a_size_copied r
       then [On (by_direction r Ais_rx_bytes Ais_tx_bytes) l (Inc (of_nat (unat (a_size_copied r))))] else []) @
      (if is_error r
       then [On (by_direction r Ais_rx_errors Ais_tx_errors) (l @ [(''errno'', show_int (a_error r))]) (Inc 1)]
       else []) @
      (if a_completed r
       then [On (by_direction r Ais_rx_latency Ais_tx_latency) l (Observe kLatBuckets (latency_sec r))] else []) @
      (if 0 < a_size_req r
       then [On (by_direction r Ais_rx_io_size Ais_tx_io_size) l
               (Observe kSizeBuckets (of_nat (unat (a_size_req r))))] else []))"

definition ExporterAddAis :: "host_view \<Rightarrow> AisRecord \<Rightarrow> PrometheusExporter \<Rightarrow> PrometheusExporter" where
  "ExporterAddAis hv r s =
     (case DetectGpuType hv (a_gpu_id r) (pe_rocminfo s) of (gpu_type, cache) \<Rightarrow>
        s\<lparr>pe_rocminfo := cache, pe_calls := pe_calls s @ ais_calls r gpu_type\<rparr>)"

definition ExporterAddXnack :: "XnackRecord \<Rightarrow> PrometheusExporter \<Rightarrow> PrometheusExporter" where
  "ExporterAddXnack r =
     call_metric Xnack_total [(''pasid'', show_dec (unat (x_pasid r))), (''comm'', x_comm r)] (Inc 1)"

text \<open>The scratch size is a product of \<^verbatim>\<open>uint64_t\<close> and wraps.\<close>

definition mem_calls :: "MemRecord \<Rightarrow> string \<Rightarrow> metric_call list" where
  "mem_calls r gpu_type =
     (let l = kernel_labels (m_kernel_name r) (gpu_str (m_gpu_id r)) gpu_type;
          total_scratch = ucast (m_private_seg_bytes r) * m_grid_size r :: u64
      in [On Mem_lds l (SetTo (of_nat (unat (m_group_seg_bytes r)))),
          On Mem_scratch l (SetTo (of_nat (unat total_scratch)))] @
         (if m_footprint_valid r
          then [On Mem_mapped_vram l (SetTo (of_nat (unat (m_mapped_vram_bytes r)))),
                On Mem_mapped_vram_total l (Inc (of_nat (unat (m_mapped_vram_bytes r))))]
          else []))"

definition ExporterAddMem :: "host_view \<Rightarrow> MemRecord \<Rightarrow> PrometheusExporter \<Rightarrow> PrometheusExporter" where
  "ExporterAddMem hv r s =
     (case DetectGpuType hv (m_gpu_id r) (pe_rocminfo s) of (gpu_type, cache) \<Rightarrow>
        s\<lparr>pe_rocminfo := cache, pe_calls := pe_calls s @ mem_calls r gpu_type\<rparr>)"

text \<open>
  \<^verbatim>\<open>UpdateRateGauges\<close> prunes from the front of the deque, counts per GPU, sets all known gauges to
  zero and then each counted one. \<^verbatim>\<open>counts\<close> is visited in order of first appearance. Between its two
  critical sections other operations may run; none of them reads or writes the rate gauges, so the
  update is one step.
\<close>

definition prune_events :: "seconds \<Rightarrow> LaunchEvent list \<Rightarrow> LaunchEvent list" where
  "prune_events cutoff evs = dropWhile (\<lambda>e. le_ts e < cutoff) evs"

definition counted_gpus :: "LaunchEvent list \<Rightarrow> u32 list" where
  "counted_gpus evs = rev (remdups (rev (map le_gpu_id evs)))"

definition launch_count :: "LaunchEvent list \<Rightarrow> u32 \<Rightarrow> nat" where
  "launch_count evs gpu = length (filter (\<lambda>e. le_gpu_id e = gpu) evs)"

definition set_rate :: "host_view \<Rightarrow> LaunchEvent list \<Rightarrow> u32 \<Rightarrow> PrometheusExporter \<Rightarrow> PrometheusExporter" where
  "set_rate hv evs gpu s =
     (let rate = SetTo (of_nat (launch_count evs gpu) / pe_rate_window_sec s) in
      case map_of (pe_rate_gauges s) (gpu_str gpu) of
        Some g \<Rightarrow> call_metric Launch_rate g rate s
      | None \<Rightarrow>
          (case DetectGpuType hv gpu (pe_rocminfo s) of (gpu_type, cache) \<Rightarrow>
             let g = gpu_labels (gpu_str gpu) gpu_type
             in call_metric Launch_rate g rate
                  (s\<lparr>pe_rocminfo := cache, pe_rate_gauges := pe_rate_gauges s @ [(gpu_str gpu, g)]\<rparr>)))"

definition zero_rates :: "PrometheusExporter \<Rightarrow> PrometheusExporter" where
  "zero_rates s = s\<lparr>pe_calls := pe_calls s @ map (\<lambda>(_, g). On Launch_rate g (SetTo 0)) (pe_rate_gauges s)\<rparr>"

definition UpdateRateGauges :: "host_view \<Rightarrow> seconds \<Rightarrow> PrometheusExporter \<Rightarrow> PrometheusExporter" where
  "UpdateRateGauges hv now s =
     (let evs = prune_events (now - pe_rate_window_sec s) (pe_launch_events s);
          s1 = zero_rates (s\<lparr>pe_launch_events := evs\<rparr>)
      in fold (set_rate hv evs) (counted_gpus evs) s1)"

definition SetAisArmed :: "bool \<Rightarrow> PrometheusExporter \<Rightarrow> PrometheusExporter" where
  "SetAisArmed armed = call_metric Ais_snoop_armed [] (SetTo (if armed then 1 else 0))"

definition SetXnackArmed :: "bool \<Rightarrow> PrometheusExporter \<Rightarrow> PrometheusExporter" where
  "SetXnackArmed armed = call_metric Xnack_snoop_armed [] (SetTo (if armed then 1 else 0))"

section \<open>Runs\<close>

text \<open>The operations, as the threads of the tool issue them; each is one atomic step (the code holds
  the exporter's mutex, the two armed setters run once on the main thread).\<close>

datatype exporter_op =
    Op_queue host_view QueueInfo
  | Op_packet seconds seconds PacketRecord
  | Op_sdma SdmaRecord
  | Op_ais host_view AisRecord
  | Op_xnack XnackRecord
  | Op_mem host_view MemRecord
  | Op_rates host_view seconds
  | Op_ais_armed bool
  | Op_xnack_armed bool

fun exporter_step :: "exporter_op \<Rightarrow> PrometheusExporter \<Rightarrow> PrometheusExporter" where
  "exporter_step (Op_queue hv q) s = ExporterRegisterQueue hv q s"
| "exporter_step (Op_packet wall now r) s = ExporterAddPacket wall now r s"
| "exporter_step (Op_sdma r) s = ExporterAddSdma r s"
| "exporter_step (Op_ais hv r) s = ExporterAddAis hv r s"
| "exporter_step (Op_xnack r) s = ExporterAddXnack r s"
| "exporter_step (Op_mem hv r) s = ExporterAddMem hv r s"
| "exporter_step (Op_rates hv now) s = UpdateRateGauges hv now s"
| "exporter_step (Op_ais_armed b) s = SetAisArmed b s"
| "exporter_step (Op_xnack_armed b) s = SetXnackArmed b s"

definition exporter_run :: "exporter_op list \<Rightarrow> PrometheusExporter \<Rightarrow> PrometheusExporter" where
  "exporter_run ops s = fold exporter_step ops s"

text \<open>All calls an exporter has made on the library, its constructor's included.\<close>

definition calls_of :: "host_view \<Rightarrow> seconds \<Rightarrow> string \<Rightarrow> exporter_op list \<Rightarrow> metric_call list" where
  "calls_of hv rate_window mode ops =
     pe_calls (exporter_run ops (new_PrometheusExporter hv rate_window mode))"

end
