(* ===== verification/Snoop_Main.thy ===== *)
theory Snoop_Main
  imports Exporter Dispatch_Log Trace_Writer Parser_Run
begin

text \<open>
  \<^verbatim>\<open>src/main.cpp\<close>: the command line, the checks before tracing starts, the sinks that route the
  parser's and the monitors' records to the dispatch log, the exporter or the trace writers, the
  handler of discovered queues, and the writing of the traces at the end.
\<close>

section \<open>Command line\<close>

record Options =
  opt_pid_filter :: c_int
  opt_poll_us :: c_int
  opt_duration :: c_int
  opt_all_mode :: bool
  opt_prometheus_mode :: bool
  opt_ais_mode :: bool
  opt_xnack_mode :: bool
  opt_mem_mode :: bool
  opt_prometheus_port :: u16
  opt_prometheus_snapshot_path :: string
  opt_out :: string
  opt_out_dir :: string
  opt_tracefs :: string
  opt_mode_str :: string
  opt_librocdxg_path :: string
  opt_libhsa_path :: string
  opt_dispatch_log_path :: string
  opt_fmt :: Format
  opt_child_cmd :: "string list"

definition default_Options :: Options where
  "default_Options =
     \<lparr>opt_pid_filter = 0, opt_poll_us = 20, opt_duration = 0, opt_all_mode = False,
      opt_prometheus_mode = False, opt_ais_mode = False, opt_xnack_mode = False, opt_mem_mode = False,
      opt_prometheus_port = 9488, opt_prometheus_snapshot_path = [], opt_out = [], opt_out_dir = [],
      opt_tracefs = ''/sys/kernel/tracing'', opt_mode_str = [], opt_librocdxg_path = [],
      opt_libhsa_path = [], opt_dispatch_log_path = [], opt_fmt = kPerfetto, opt_child_cmd = []\<rparr>"

text \<open>
  The branches of the argument loop: those that stand alone, and those that need a next argument.
  \<open>prom_build\<close> is \<^verbatim>\<open>HSA_SNOOP_PROMETHEUS_ENABLED\<close>. The names are all different, so the order of the
  tests does not matter.
\<close>

definition flag_option :: "string \<Rightarrow> Options \<Rightarrow> Options option" where
  "flag_option a opts =
     (if a = ''--all'' then Some (opts\<lparr>opt_all_mode := True\<rparr>)
      else if a = ''--prometheus'' then Some (opts\<lparr>opt_prometheus_mode := True\<rparr>)
      else if a = ''--ais-snoop'' then Some (opts\<lparr>opt_ais_mode := True\<rparr>)
      else if a = ''--xnack-snoop'' then Some (opts\<lparr>opt_xnack_mode := True\<rparr>)
      else if a = ''--mem-snoop'' then Some (opts\<lparr>opt_mem_mode := True\<rparr>)
      else None)"

definition value_option :: "bool \<Rightarrow> string \<Rightarrow> string \<Rightarrow> Options \<Rightarrow> Options option" where
  "value_option prom_build a v opts =
     (if a = ''--pid'' then Some (opts\<lparr>opt_pid_filter := atoi v\<rparr>)
      else if a = ''--out'' then Some (opts\<lparr>opt_out := v\<rparr>)
      else if a = ''--out-dir'' then Some (opts\<lparr>opt_out_dir := v\<rparr>)
      else if a = ''--poll-us'' then Some (opts\<lparr>opt_poll_us := atoi v\<rparr>)
      else if a = ''--duration'' then Some (opts\<lparr>opt_duration := atoi v\<rparr>)
      else if a = ''--tracefs'' then Some (opts\<lparr>opt_tracefs := v\<rparr>)
      else if a = ''--mode'' then Some (opts\<lparr>opt_mode_str := v\<rparr>)
      else if a = ''--librocdxg'' then Some (opts\<lparr>opt_librocdxg_path := v\<rparr>)
      else if a = ''--libhsa'' then Some (opts\<lparr>opt_libhsa_path := v\<rparr>)
      else if a = ''--log-dispatches'' then Some (opts\<lparr>opt_dispatch_log_path := v\<rparr>)
      else if prom_build \<and> a = ''--prometheus-port'' then Some (opts\<lparr>opt_prometheus_port := word_of_int (atoi v)\<rparr>)
      else if prom_build \<and> a = ''--prometheus-snapshot'' then Some (opts\<lparr>opt_prometheus_snapshot_path := v\<rparr>)
      else if a = ''--format'' then Some (opts\<lparr>opt_fmt := (if v = ''json'' then kJson else kPerfetto)\<rparr>)
      else None)"

text \<open>\<open>Inl\<close> carries the exit status of an early return.\<close>

definition last_branches :: "string \<Rightarrow> string list \<Rightarrow> Options \<Rightarrow> c_int + Options" where
  "last_branches a rest opts =
     (if a = ''--'' then Inr (opts\<lparr>opt_child_cmd := opt_child_cmd opts @ rest\<rparr>)
      else if a = ''-h'' \<or> a = ''--help'' then Inl 0
      else Inl 2)"

fun parse_args :: "bool \<Rightarrow> string list \<Rightarrow> Options \<Rightarrow> c_int + Options" where
  "parse_args prom_build [] opts = Inr opts"
| "parse_args prom_build [a] opts =
     (case flag_option a opts of
        Some opts1 \<Rightarrow> Inr opts1
      | None \<Rightarrow> last_branches a [] opts)"
| "parse_args prom_build (a # v # rest) opts =
     (case flag_option a opts of
        Some opts1 \<Rightarrow> parse_args prom_build (v # rest) opts1
      | None \<Rightarrow>
          (case value_option prom_build a v opts of
             Some opts1 \<Rightarrow> parse_args prom_build rest opts1
           | None \<Rightarrow> last_branches a (v # rest) opts))"

section \<open>Checks before tracing\<close>

definition choose_mode :: "string \<Rightarrow> bool \<Rightarrow> DiscoveryMode option" where
  "choose_mode mode_str wsl =
     (if mode_str = ''kfd-uprobe'' then Some kKfdUprobe
      else if mode_str = ''bpftrace'' then Some kBpftrace
      else if mode_str = [] \<and> wsl then Some kBpftrace
      else if mode_str \<noteq> [] \<and> mode_str \<noteq> ''kprobe'' then None
      else Some kKprobe)"

text \<open>What the checks look up: WSL2, the two libraries (empty when not found), the effective user.\<close>

record start_view =
  sw_wsl2 :: bool
  sw_libhsa :: string
  sw_librocdxg :: string
  sw_euid :: nat

definition find_libraries :: "start_view \<Rightarrow> DiscoveryMode \<Rightarrow> Options \<Rightarrow> c_int + Options" where
  "find_libraries sw mode opts =
     (if mode = kKfdUprobe \<and> opt_libhsa_path opts = [] then
        (if sw_libhsa sw = [] then Inl 1 else Inr (opts\<lparr>opt_libhsa_path := sw_libhsa sw\<rparr>))
      else if mode = kBpftrace \<and> opt_librocdxg_path opts = [] then
        (if sw_librocdxg sw = [] then Inl 1 else Inr (opts\<lparr>opt_librocdxg_path := sw_librocdxg sw\<rparr>))
      else Inr opts)"

definition scope_error :: "Options \<Rightarrow> bool" where
  "scope_error opts =
     (let pid = opt_pid_filter opts \<noteq> 0; cmd = opt_child_cmd opts \<noteq> [] in
      (\<not> opt_all_mode opts \<and> \<not> pid \<and> \<not> cmd) \<or> (opt_all_mode opts \<and> (pid \<or> cmd)) \<or> (pid \<and> cmd))"

definition default_output :: "Options \<Rightarrow> Options" where
  "default_output opts =
     (if opt_all_mode opts \<and> \<not> opt_prometheus_mode opts then
        (if opt_out_dir opts = [] then opts\<lparr>opt_out_dir := ''/var/log/hsa-snoop''\<rparr> else opts)
      else if \<not> opt_prometheus_mode opts \<and> opt_out opts = [] then
        opts\<lparr>opt_out := (if opt_fmt opts = kJson then ''hsa-snoop.json'' else ''hsa-snoop.pftrace'')\<rparr>
      else opts)"

definition configure :: "bool \<Rightarrow> start_view \<Rightarrow> Options \<Rightarrow> c_int + DiscoveryMode \<times> Options" where
  "configure prom_build sw opts =
     (case choose_mode (opt_mode_str opts) (sw_wsl2 sw) of
        None \<Rightarrow> Inl 2
      | Some mode \<Rightarrow>
          (case find_libraries sw mode opts of
             Inl e \<Rightarrow> Inl e
           | Inr opts1 \<Rightarrow>
               if \<not> prom_build \<and> opt_prometheus_mode opts1 then Inl 2
               else if sw_euid sw \<noteq> 0 then Inl 1
               else if scope_error opts1 then Inl 2
               else Inr (mode, default_output opts1)))"

definition disc_label :: "DiscoveryMode \<Rightarrow> string" where
  "disc_label mode = (case mode of kBpftrace \<Rightarrow> ''dxg'' | kKfdUprobe \<Rightarrow> ''kfd-uprobe'' | kKprobe \<Rightarrow> ''kprobe'')"

section \<open>State shared by the sinks\<close>

text \<open>
  The pointers that may be null are options. \<open>ap_pending\<close> are the records of the poll in progress that
  the parser has not yet handed to a sink; \<open>ap_stderr\<close> are the lines for the terminal that carry
  observations: announced traces, footprints, faults.
\<close>

record App =
  ap_all_mode :: bool
  ap_mem_mode :: bool
  ap_fmt :: Format
  ap_out_dir :: string
  ap_dispatch_log :: "DispatchLog option"
  ap_exporter :: "PrometheusExporter option"
  ap_single_writer :: "TraceWriter option"
  ap_per_queue_writers :: "(u64, TraceWriter) odict"
  ap_queue_ids :: "u64 \<rightharpoonup> LogCtx"
  ap_parser :: RingParser
  ap_queue_count :: nat
  ap_pending :: "parser_event list"
  ap_stderr :: "string list"

text \<open>
  The state once the options are settled: the log and the exporter as opened (\<open>dlog\<close> is the clock
  offset of the log when there is one), one writer unless every queue has its own.
\<close>

definition new_App :: "Options \<Rightarrow> seconds option \<Rightarrow> host_view \<Rightarrow> DiscoveryMode \<Rightarrow> App" where
  "new_App opts dlog hv mode =
     \<lparr>ap_all_mode = opt_all_mode opts, ap_mem_mode = opt_mem_mode opts, ap_fmt = opt_fmt opts,
      ap_out_dir = opt_out_dir opts, ap_dispatch_log = map_option (\<lambda>offset. \<lparr>dl_mono_to_unix_offset = offset, dl_lines = []\<rparr>) dlog,
      ap_exporter = (if opt_prometheus_mode opts then Some (new_PrometheusExporter hv 10 (disc_label mode)) else None),
      ap_single_writer = (if \<not> opt_all_mode opts \<and> \<not> opt_prometheus_mode opts then Some (new_TraceWriter (opt_fmt opts)) else None),
      ap_per_queue_writers = [], ap_queue_ids = Map.empty, ap_parser = new_RingParser True True,
      ap_queue_count = 0, ap_pending = [], ap_stderr = []\<rparr>"

text \<open>
  From the settled options to that state. Two things can still fail: opening the log and binding the
  metrics endpoint; both end the program with status 1.
\<close>

record start_outcome =
  so_can_append :: "string \<Rightarrow> bool"
  so_realtime :: seconds
  so_monotonic :: seconds
  so_endpoint :: bool
  so_host :: host_view

definition start_up :: "start_outcome \<Rightarrow> DiscoveryMode \<Rightarrow> Options \<Rightarrow> c_int + App" where
  "start_up so mode opts =
     (let dlog = OpenLog (so_can_append so) (so_realtime so) (so_monotonic so) (opt_dispatch_log_path opts) in
      if opt_dispatch_log_path opts \<noteq> [] \<and> dlog = None then Inl 1
      else if opt_prometheus_mode opts \<and> \<not> so_endpoint so then Inl 1
      else Inr (new_App opts
             (if opt_dispatch_log_path opts = [] then None else map_option dl_mono_to_unix_offset dlog)
             (so_host so) mode))"

definition trace_ext :: "Format \<Rightarrow> string" where
  "trace_ext fmt = (if fmt = kJson then ''.json'' else ''.pftrace'')"

text \<open>\<^verbatim>\<open>get_writer\<close> in \<^verbatim>\<open>--all\<close> mode: the queue's writer, made and announced when there is none.\<close>

definition announced_path :: "App \<Rightarrow> QueueInfo \<Rightarrow> string" where
  "announced_path ap q = ap_out_dir ap @ ''/'' @ q_comm q @ ''-'' @ show_dec (unat (q_uid q)) @ trace_ext (ap_fmt ap)"

definition get_writer :: "QueueInfo \<Rightarrow> App \<Rightarrow> App" where
  "get_writer q ap =
     (if \<not> ap_all_mode ap then ap
      else if map_of (ap_per_queue_writers ap) (q_uid q) \<noteq> None then ap
      else ap\<lparr>ap_per_queue_writers :=
                od_assign (q_uid q) (Trace_Writer.RegisterQueue q (new_TraceWriter (ap_fmt ap))) (ap_per_queue_writers ap),
              ap_stderr := ap_stderr ap @ [''hsa-snoop: new trace '' @ [CHR 0xE2, CHR 0x86, CHR 0x92] @ '' '' @ announced_path ap q @ ''\<newline>'']\<rparr>)"

definition queue_ctx :: "App \<Rightarrow> u64 \<Rightarrow> LogCtx" where
  "queue_ctx ap uid =
     (case ap_queue_ids ap uid of Some c \<Rightarrow> c\<lparr>cx_comm := cstr (cx_comm c)\<rparr> | None \<Rightarrow> \<lparr>cx_gpu_id = 0, cx_pid = 0, cx_comm = []\<rparr>)"

section \<open>Sinks\<close>

text \<open>
  What a sink sees of the outside: the target's memory, the host files the exporter reads, the
  real-time and the steady clock.
\<close>

record sink_env =
  se_os :: os_view
  se_host :: host_view
  se_wall :: seconds
  se_now :: seconds

text \<open>The footprint record of a dispatch. It reads with the parser thread's descriptor cache \<open>c\<close>.\<close>

definition grid_size :: "PacketRecord \<Rightarrow> u64" where
  "grid_size r = (case p_grid r of (x, y, z) \<Rightarrow> ucast x * ucast y * ucast z)"

definition mem_record :: "sink_env \<Rightarrow> App \<Rightarrow> PacketRecord \<Rightarrow> fd_cache \<Rightarrow> fd_cache \<times> MemRecord" where
  "mem_record se ap r c =
     (let mr = new_MemRecord\<lparr>m_queue_uid := p_queue_uid r, m_dispatch_id := p_dispatch_id r,
            m_kernel_name := p_kernel_name r, m_group_seg_bytes := p_group_seg r,
            m_private_seg_bytes := p_private_seg r, m_grid_size := grid_size r, m_submit_ts := p_submit_ts r\<rparr>
      in case ap_queue_ids ap (p_queue_uid r) of
           None \<Rightarrow> (c, mr)
         | Some q \<Rightarrow>
             (case ReadKernargSize (se_os se) c (cx_pid q) (p_kernel_object r) of (c1, ksize) \<Rightarrow>
                let scan_bytes = (if ksize \<noteq> 0 then ksize else 256);
                    mr1 = mr\<lparr>m_gpu_id := cx_gpu_id q, m_kernarg_size_bytes := ksize\<rparr>
                in (case ScanKernargFootprint (se_os se) c1 (cx_pid q) (p_kernarg_address r) scan_bytes of
                      (c2, None) \<Rightarrow> (c2, mr1\<lparr>m_footprint_valid := False\<rparr>)
                    | (c2, Some (mapped, ptrs)) \<Rightarrow>
                        (c2, mr1\<lparr>m_footprint_valid := True, m_mapped_vram_bytes := mapped, m_ptr_count := ptrs\<rparr>))))"

definition mem_line :: "MemRecord \<Rightarrow> string" where
  "mem_line mr =
     ''[mem] kernel='' @ cstr (m_kernel_name mr) @ '' gpu='' @ show_dec (unat (m_gpu_id mr)) @
     '' grid='' @ show_dec (unat (m_grid_size mr)) @ '' lds='' @ show_dec (unat (m_group_seg_bytes mr)) @
     ''B scratch='' @ show_dec (unat (m_private_seg_bytes mr)) @ ''B '' @
     take 63 (if m_footprint_valid mr
              then ''mapped_vram='' @ show_dec (unat (m_mapped_vram_bytes mr)) @ ''B ptrs='' @
                   show_dec (unat (m_ptr_count mr))
              else ''mapped_vram=unavailable ptrs=unavailable'') @ ''\<newline>''"

definition emit_mem :: "sink_env \<Rightarrow> MemRecord \<Rightarrow> App \<Rightarrow> App" where
  "emit_mem se mr ap =
     (case ap_exporter ap of
        Some e \<Rightarrow> ap\<lparr>ap_exporter := Some (ExporterAddMem (se_host se) mr e)\<rparr>
      | None \<Rightarrow> ap\<lparr>ap_stderr := ap_stderr ap @ [mem_line mr]\<rparr>)"

definition mem_snoop :: "sink_env \<Rightarrow> PacketRecord \<Rightarrow> fd_cache \<Rightarrow> App \<Rightarrow> fd_cache \<times> App" where
  "mem_snoop se r c ap =
     (if ap_mem_mode ap \<and> is_dispatch r \<and> p_kernarg_address r \<noteq> 0
      then (case mem_record se ap r c of (c1, mr) \<Rightarrow> (c1, emit_mem se mr ap))
      else (c, ap))"

text \<open>Where a record goes when there is no exporter: the queue's writer, or the only writer.\<close>

definition to_writer :: "u64 \<Rightarrow> (TraceWriter \<Rightarrow> TraceWriter) \<Rightarrow> App \<Rightarrow> App" where
  "to_writer uid add ap =
     (if ap_all_mode ap then
        (case map_of (ap_per_queue_writers ap) uid of
           Some w \<Rightarrow> ap\<lparr>ap_per_queue_writers := od_assign uid (add w) (ap_per_queue_writers ap)\<rparr>
         | None \<Rightarrow> ap)
      else ap\<lparr>ap_single_writer := map_option add (ap_single_writer ap)\<rparr>)"

definition log_dispatch :: "PacketRecord \<Rightarrow> App \<Rightarrow> App" where
  "log_dispatch r ap =
     (if is_dispatch r
      then ap\<lparr>ap_dispatch_log := map_option (LogDispatch r (queue_ctx ap (p_queue_uid r))) (ap_dispatch_log ap)\<rparr>
      else ap)"

definition route_packet :: "sink_env \<Rightarrow> PacketRecord \<Rightarrow> App \<Rightarrow> App" where
  "route_packet se r ap =
     (case ap_exporter ap of
        Some e \<Rightarrow> ap\<lparr>ap_exporter := Some (ExporterAddPacket (se_wall se) (se_now se) r e)\<rparr>
      | None \<Rightarrow> to_writer (p_queue_uid r) (Add_packet r) ap)"

definition packet_sink :: "sink_env \<Rightarrow> PacketRecord \<Rightarrow> fd_cache \<Rightarrow> App \<Rightarrow> fd_cache \<times> App" where
  "packet_sink se r c ap =
     (case mem_snoop se r c ap of (c1, ap1) \<Rightarrow> (c1, route_packet se r (log_dispatch r ap1)))"

definition log_sdma :: "SdmaRecord \<Rightarrow> App \<Rightarrow> App" where
  "log_sdma r ap =
     ap\<lparr>ap_dispatch_log := map_option (LogSdma r (queue_ctx ap (s_queue_uid r))) (ap_dispatch_log ap)\<rparr>"

definition route_sdma :: "SdmaRecord \<Rightarrow> App \<Rightarrow> App" where
  "route_sdma r ap =
     (case ap_exporter ap of
        Some e \<Rightarrow> ap\<lparr>ap_exporter := Some (ExporterAddSdma r e)\<rparr>
      | None \<Rightarrow> to_writer (s_queue_uid r) (Add_sdma r) ap)"

definition sdma_sink :: "SdmaRecord \<Rightarrow> App \<Rightarrow> App" where
  "sdma_sink r ap = route_sdma r (log_sdma r ap)"

definition ais_sink :: "sink_env \<Rightarrow> AisRecord \<Rightarrow> App \<Rightarrow> App" where
  "ais_sink se r ap =
     (case ap_exporter ap of
        Some e \<Rightarrow> ap\<lparr>ap_exporter := Some (ExporterAddAis (se_host se) r e)\<rparr>
      | None \<Rightarrow>
          if \<not> ap_all_mode ap then ap\<lparr>ap_single_writer := map_option (Add_ais r) (ap_single_writer ap)\<rparr>
          else ap)"

definition xnack_sink :: "XnackRecord \<Rightarrow> App \<Rightarrow> App" where
  "xnack_sink r ap =
     (case ap_exporter ap of
        Some e \<Rightarrow> ap\<lparr>ap_exporter := Some (ExporterAddXnack r e)\<rparr>
      | None \<Rightarrow>
          ap\<lparr>ap_stderr := ap_stderr ap @ [''hsa-snoop: XNACK fault pid='' @ show_int (x_pid r) @ '' comm='' @
              cstr (x_comm r) @ '' pasid='' @ show_dec (unat (x_pasid r)) @ ''\<newline>'']\<rparr>)"

section \<open>Discovered queues\<close>

definition accepted_queue :: "topology_node list option \<Rightarrow> os_view \<Rightarrow> QueueInfo \<Rightarrow> QueueInfo option" where
  "accepted_queue topology os q_in =
     (if \<not> is_traced q_in then None
      else
        let q = (if is_sdma q_in then q_in\<lparr>q_sdma_version := DetectVersion topology (q_gpu_id q_in)\<rparr> else q_in)
        in if is_sdma q \<and> \<not> IsSupportedVersion (q_sdma_version q) then None
           else Some (q\<lparr>q_ring_phys := VirtToPhys os (q_pid q) (q_ring_base q)\<rparr>))"

text \<open>\<^verbatim>\<open>emplace\<close> keeps an entry that is already there.\<close>

definition remember_queue :: "QueueInfo \<Rightarrow> App \<Rightarrow> App" where
  "remember_queue q ap =
     (case ap_queue_ids ap (q_uid q) of
        Some _ \<Rightarrow> ap
      | None \<Rightarrow> ap\<lparr>ap_queue_ids :=
          (ap_queue_ids ap)(q_uid q \<mapsto> \<lparr>cx_gpu_id = q_gpu_id q, cx_pid = q_pid q, cx_comm = q_comm q\<rparr>)\<rparr>)"

definition register_queue :: "host_view \<Rightarrow> QueueInfo \<Rightarrow> App \<Rightarrow> App" where
  "register_queue hv q ap =
     (case ap_exporter ap of
        Some e \<Rightarrow> ap\<lparr>ap_exporter := Some (ExporterRegisterQueue hv q e)\<rparr>
      | None \<Rightarrow>
          let ap1 = get_writer q ap
          in if \<not> ap_all_mode ap1
             then ap1\<lparr>ap_single_writer := map_option (Trace_Writer.RegisterQueue q) (ap_single_writer ap1)\<rparr>
             else ap1)"

definition on_queue :: "topology_node list option \<Rightarrow> os_view \<Rightarrow> host_view \<Rightarrow> QueueInfo \<Rightarrow> App \<Rightarrow> App" where
  "on_queue topology os hv q_in ap =
     (case accepted_queue topology os q_in of
        None \<Rightarrow> ap
      | Some q \<Rightarrow>
          let kind = (if is_sdma q then ''sdma'' else ''aql'');
              ap1 = remember_queue q ap;
              ap2 = ap1\<lparr>ap_dispatch_log := map_option (LogQueue q kind) (ap_dispatch_log ap1)\<rparr>;
              ap3 = register_queue hv q ap2
          in ap3\<lparr>ap_parser := AddQueue q (ap_parser ap3), ap_queue_count := Suc (ap_queue_count ap3)\<rparr>)"

section \<open>Steps of the running tool\<close>

text \<open>
  A poll calls the sinks once per record, in order; each call takes the locks of its output by itself,
  and the other threads run between two calls. So a poll leaves its records pending, and a further
  step hands over one of them. The sinks run on the parser thread, and use its descriptor cache.
\<close>

fun deliver :: "sink_env \<Rightarrow> parser_event \<Rightarrow> fd_cache \<Rightarrow> App \<Rightarrow> fd_cache \<times> App" where
  "deliver se (Dispatch r) c ap = packet_sink se r c ap"
| "deliver se (Copy r) c ap = (c, sdma_sink r ap)"

definition deliver_next :: "sink_env \<Rightarrow> parser_event \<Rightarrow> parser_event list \<Rightarrow> App \<Rightarrow> App" where
  "deliver_next se ev rest ap =
     (case deliver se ev (rp_fd (ap_parser ap)) ap of
        (c, ap1) \<Rightarrow> ap1\<lparr>ap_parser := (ap_parser ap1)\<lparr>rp_fd := c\<rparr>, ap_pending := rest\<rparr>)"

definition poll_step ::
  "(string \<Rightarrow> string option) \<Rightarrow> moments \<Rightarrow> nat \<Rightarrow> nat list \<Rightarrow> App \<Rightarrow> App option"
where
  "poll_step dm os i rest ap =
     (case PollAt dm os i rest (ap_parser ap) of
        None \<Rightarrow> None
      | Some rp \<Rightarrow>
          Some (ap\<lparr>ap_parser := rp, ap_pending := drop (length (rp_out (ap_parser ap))) (rp_out rp)\<rparr>))"

text \<open>
  Any interleaving of the discovery thread, the parser thread, the monitors, the rate thread and the
  main thread, which tells the exporter whether the monitors could be started.
\<close>

inductive app_step :: "(string \<Rightarrow> string option) \<Rightarrow> App \<Rightarrow> App \<Rightarrow> bool" for dm where
  app_queue: "app_step dm ap (on_queue topology os hv q ap)"
| app_snapshot: "rp_todo (ap_parser ap) = None \<Longrightarrow> ap_pending ap = [] \<Longrightarrow>
    app_step dm ap (ap\<lparr>ap_parser := TakeSnapshot now (ap_parser ap)\<rparr>)"
| app_poll: "rp_todo (ap_parser ap) = Some (i # rest) \<Longrightarrow> ap_pending ap = [] \<Longrightarrow>
    poll_step dm os i rest ap = Some ap' \<Longrightarrow> app_step dm ap ap'"
| app_deliver: "ap_pending ap = ev # rest \<Longrightarrow> app_step dm ap (deliver_next se ev rest ap)"
| app_erase: "rp_todo (ap_parser ap) = Some [] \<Longrightarrow> ap_pending ap = [] \<Longrightarrow>
    app_step dm ap (ap\<lparr>ap_parser := EraseEvicted (ap_parser ap)\<rparr>)"
| app_ais: "app_step dm ap (ais_sink e r ap)"
| app_xnack: "app_step dm ap (xnack_sink x ap)"
| app_rates: "app_step dm ap (ap\<lparr>ap_exporter := map_option (UpdateRateGauges hv now) (ap_exporter ap)\<rparr>)"
| app_ais_armed: "app_step dm ap (ap\<lparr>ap_exporter := map_option (SetAisArmed armed) (ap_exporter ap)\<rparr>)"
| app_xnack_armed: "app_step dm ap (ap\<lparr>ap_exporter := map_option (SetXnackArmed armed) (ap_exporter ap)\<rparr>)"

inductive app_reachable :: "(string \<Rightarrow> string option) \<Rightarrow> App \<Rightarrow> bool" for dm where
  app_start: "app_reachable dm (new_App opts dlog hv mode)"
| app_next: "app_reachable dm ap \<Longrightarrow> app_step dm ap ap' \<Longrightarrow> app_reachable dm ap'"

section \<open>Writing the traces\<close>

text \<open>
  \<open>opened\<close> says which paths can be opened for writing; \<open>snapshot\<close> is the metrics library's text for the
  calls made on it. The result is the exit status and the files written, with their contents. A
  snapshot that cannot be written does not change the status.
\<close>

definition queue_path :: "App \<Rightarrow> u64 \<Rightarrow> string" where
  "queue_path ap uid = ap_out_dir ap @ ''/queue-'' @ show_dec (unat uid) @ trace_ext (ap_fmt ap)"

definition write_all :: "(string \<Rightarrow> u64) \<Rightarrow> (string \<Rightarrow> bool) \<Rightarrow> App \<Rightarrow> (string \<times> string option) list" where
  "write_all hash opened ap =
     map (\<lambda>(uid, w). let path = queue_path ap uid in (path, fst (Write hash (opened path) w)))
       (ap_per_queue_writers ap)"

definition write_snapshot ::
  "(metric_call list \<Rightarrow> string) \<Rightarrow> (string \<Rightarrow> bool) \<Rightarrow> string \<Rightarrow> PrometheusExporter \<Rightarrow> (string \<times> string) list"
where
  "write_snapshot snapshot opened path e =
     (if path \<noteq> [] \<and> opened path then [(path, snapshot (pe_calls e))] else [])"

record out_view =
  ov_hash :: "string \<Rightarrow> u64"
  ov_opened :: "string \<Rightarrow> bool"
  ov_snapshot :: "metric_call list \<Rightarrow> string"

definition finish :: "out_view \<Rightarrow> string \<Rightarrow> string \<Rightarrow> App \<Rightarrow> c_int \<times> (string \<times> string) list" where
  "finish ov snapshot_path out ap =
     (let hash = ov_hash ov; opened = ov_opened ov in
      if ap_exporter ap \<noteq> None
      then (0, write_snapshot (ov_snapshot ov) opened snapshot_path (the (ap_exporter ap)))
      else if ap_all_mode ap then
        (let results = write_all hash opened ap in
         (if list_ex (\<lambda>(_, content). content = None) results then 1 else 0,
          List.map_filter (\<lambda>(path, content). map_option (Pair path) content) results))
      else
        (case ap_single_writer ap of
           None \<Rightarrow> (1, [])
         | Some w \<Rightarrow>
             (case fst (Write hash (opened out) w) of
                None \<Rightarrow> (1, [])
              | Some content \<Rightarrow> (0, [(out, content)]))))"

end
