(* ===== verification/Exporter_Properties.thy ===== *)
theory Exporter_Properties
  imports Exporter
begin

text \<open>
  What the exporter's calls on the metrics library add up to: a typing of the calls, the counters
  against the records observed, the gauge of the last kernel, and the launch rate.
\<close>

named_theorems exporter_simps \<open>the effect of the exporter's helpers on the state\<close>

section \<open>Runs\<close>

lemma exporter_run_simps [simp]:
  "exporter_run [] s = s"
  "exporter_run (x # xs) s = exporter_run xs (exporter_step x s)"
  "exporter_run (xs @ ys) s = exporter_run ys (exporter_run xs s)"
  by (simp_all add: exporter_run_def)

text \<open>A property of the state every operation keeps holds after any run.\<close>

locale exporter_invariant =
  fixes I :: "PrometheusExporter \<Rightarrow> bool"
  assumes step: "I s \<Longrightarrow> I (exporter_step x s)"
begin

lemma run: "I s \<Longrightarrow> I (exporter_run ops s)"
  by (induction ops arbitrary: s) (simp_all add: step)

end

lemma call_metric_simps [simp, exporter_simps]:
  "pe_calls (call_metric f l oper s) = pe_calls s @ [On f l oper]"
  "pe_queue_meta (call_metric f l oper s) = pe_queue_meta s"
  "pe_active_queue_gauges (call_metric f l oper s) = pe_active_queue_gauges s"
  "pe_active_sdma_queue_gauges (call_metric f l oper s) = pe_active_sdma_queue_gauges s"
  "pe_last_launch_ts_gauges (call_metric f l oper s) = pe_last_launch_ts_gauges s"
  "pe_last_kernel_state (call_metric f l oper s) = pe_last_kernel_state s"
  "pe_triggered_gauges (call_metric f l oper s) = pe_triggered_gauges s"
  "pe_launch_events (call_metric f l oper s) = pe_launch_events s"
  "pe_rate_gauges (call_metric f l oper s) = pe_rate_gauges s"
  "pe_rate_window_sec (call_metric f l oper s) = pe_rate_window_sec s"
  by (simp_all add: call_metric_def)

lemma remove_metric_simps [simp, exporter_simps]:
  "pe_calls (remove_metric f l s) = pe_calls s @ [Removed f l]"
  "pe_queue_meta (remove_metric f l s) = pe_queue_meta s"
  "pe_active_queue_gauges (remove_metric f l s) = pe_active_queue_gauges s"
  "pe_active_sdma_queue_gauges (remove_metric f l s) = pe_active_sdma_queue_gauges s"
  "pe_last_launch_ts_gauges (remove_metric f l s) = pe_last_launch_ts_gauges s"
  "pe_last_kernel_state (remove_metric f l s) = pe_last_kernel_state s"
  "pe_triggered_gauges (remove_metric f l s) = pe_triggered_gauges s"
  "pe_launch_events (remove_metric f l s) = pe_launch_events s"
  "pe_rate_gauges (remove_metric f l s) = pe_rate_gauges s"
  "pe_rate_window_sec (remove_metric f l s) = pe_rate_window_sec s"
  by (simp_all add: remove_metric_def)

text \<open>The helpers of \<^verbatim>\<open>Add(const PacketRecord&)\<close> and of the rate update, as far as other parts of the state go.\<close>

lemma add_dispatch_other [simp]:
  "pe_queue_meta (add_dispatch wall now r m s) = pe_queue_meta s"
  "pe_active_queue_gauges (add_dispatch wall now r m s) = pe_active_queue_gauges s"
  "pe_active_sdma_queue_gauges (add_dispatch wall now r m s) = pe_active_sdma_queue_gauges s"
  "pe_rate_gauges (add_dispatch wall now r m s) = pe_rate_gauges s"
  "pe_rate_window_sec (add_dispatch wall now r m s) = pe_rate_window_sec s"
  "pe_launch_events (add_dispatch wall now r m s) =
     pe_launch_events s @ [\<lparr>le_ts = now, le_gpu_id = qm_gpu_id m\<rparr>]"
  by (simp_all add: add_dispatch_def observe_duration_def set_last_launch_def set_last_kernel_def
      latch_triggered_def Let_def split: option.split)

lemma set_rate_other [simp]:
  "pe_queue_meta (set_rate hv evs gpu s) = pe_queue_meta s"
  "pe_active_queue_gauges (set_rate hv evs gpu s) = pe_active_queue_gauges s"
  "pe_active_sdma_queue_gauges (set_rate hv evs gpu s) = pe_active_sdma_queue_gauges s"
  "pe_last_launch_ts_gauges (set_rate hv evs gpu s) = pe_last_launch_ts_gauges s"
  "pe_last_kernel_state (set_rate hv evs gpu s) = pe_last_kernel_state s"
  "pe_triggered_gauges (set_rate hv evs gpu s) = pe_triggered_gauges s"
  "pe_launch_events (set_rate hv evs gpu s) = pe_launch_events s"
  "pe_rate_window_sec (set_rate hv evs gpu s) = pe_rate_window_sec s"
  by (simp_all add: set_rate_def Let_def split: option.split prod.split)

lemma set_rates_other [simp]:
  "pe_queue_meta (fold (set_rate hv evs) gpus s) = pe_queue_meta s"
  "pe_active_queue_gauges (fold (set_rate hv evs) gpus s) = pe_active_queue_gauges s"
  "pe_active_sdma_queue_gauges (fold (set_rate hv evs) gpus s) = pe_active_sdma_queue_gauges s"
  "pe_last_launch_ts_gauges (fold (set_rate hv evs) gpus s) = pe_last_launch_ts_gauges s"
  "pe_last_kernel_state (fold (set_rate hv evs) gpus s) = pe_last_kernel_state s"
  "pe_triggered_gauges (fold (set_rate hv evs) gpus s) = pe_triggered_gauges s"
  "pe_launch_events (fold (set_rate hv evs) gpus s) = pe_launch_events s"
  "pe_rate_window_sec (fold (set_rate hv evs) gpus s) = pe_rate_window_sec s"
  by (induction gpus arbitrary: s) simp_all

lemma zero_rates_simps [simp]:
  "pe_queue_meta (zero_rates s) = pe_queue_meta s"
  "pe_active_queue_gauges (zero_rates s) = pe_active_queue_gauges s"
  "pe_active_sdma_queue_gauges (zero_rates s) = pe_active_sdma_queue_gauges s"
  "pe_last_launch_ts_gauges (zero_rates s) = pe_last_launch_ts_gauges s"
  "pe_last_kernel_state (zero_rates s) = pe_last_kernel_state s"
  "pe_triggered_gauges (zero_rates s) = pe_triggered_gauges s"
  "pe_launch_events (zero_rates s) = pe_launch_events s"
  "pe_rate_gauges (zero_rates s) = pe_rate_gauges s"
  "pe_rate_window_sec (zero_rates s) = pe_rate_window_sec s"
  by (simp_all add: zero_rates_def)

text \<open>The calls of a rate update go to the rate family alone.\<close>

lemma rate_calls_only:
  "\<exists>cs. pe_calls (fold (set_rate hv evs) gpus s) = pe_calls s @ cs \<and>
     (\<forall>c \<in> set cs. \<exists>l x. c = On Launch_rate l (SetTo x))"
proof (induction gpus arbitrary: s)
  case (Cons g gs)
  from Cons [of "set_rate hv evs g s"] obtain cs where cs:
    "pe_calls (fold (set_rate hv evs) gs (set_rate hv evs g s)) = pe_calls (set_rate hv evs g s) @ cs"
    "\<forall>c \<in> set cs. \<exists>l x. c = On Launch_rate l (SetTo x)" by blast
  have "\<exists>l x. pe_calls (set_rate hv evs g s) = pe_calls s @ [On Launch_rate l (SetTo x)]"
    by (simp add: set_rate_def Let_def split: option.split prod.split)
  then obtain l x where "pe_calls (set_rate hv evs g s) = pe_calls s @ [On Launch_rate l (SetTo x)]" by blast
  with cs show ?case by (intro exI [of _ "On Launch_rate l (SetTo x) # cs"]) auto
qed simp

lemma update_rates_calls:
  obtains cs where "pe_calls (UpdateRateGauges hv now s) = pe_calls s @ cs"
    and "\<And>c. c \<in> set cs \<Longrightarrow> \<exists>l x. c = On Launch_rate l (SetTo x)"
proof -
  let ?evs = "prune_events (now - pe_rate_window_sec s) (pe_launch_events s)"
  let ?z = "map (\<lambda>(_, g). On Launch_rate g (SetTo 0)) (pe_rate_gauges s)"
  from rate_calls_only [of hv ?evs "counted_gpus ?evs" "zero_rates (s\<lparr>pe_launch_events := ?evs\<rparr>)"]
  obtain cs where cs: "pe_calls (UpdateRateGauges hv now s) = pe_calls s @ ?z @ cs"
    and only: "\<forall>c \<in> set cs. \<exists>l x. c = On Launch_rate l (SetTo x)"
    by (auto simp: UpdateRateGauges_def Let_def zero_rates_def)
  show ?thesis by (rule that [OF cs]) (use only in auto)
qed

lemmas op_defs = ExporterRegisterQueue_def ExporterAddPacket_def ExporterAddSdma_def ExporterAddAis_def
  ExporterAddXnack_def ExporterAddMem_def SetAisArmed_def SetXnackArmed_def

section \<open>Counters\<close>

text \<open>The sum of the increments of a family's children with given labels.\<close>

fun increment :: "family \<Rightarrow> (labels \<Rightarrow> bool) \<Rightarrow> metric_call \<Rightarrow> rat" where
  "increment f P (On f' l (Inc x)) = (if f' = f \<and> P l then x else 0)"
| "increment f P _ = 0"

definition counted :: "family \<Rightarrow> (labels \<Rightarrow> bool) \<Rightarrow> metric_call list \<Rightarrow> rat" where
  "counted f P cs = sum_list (map (increment f P) cs)"

lemma counted_simps [simp]:
  "counted f P [] = 0" "counted f P (c # cs) = increment f P c + counted f P cs"
  "counted f P (cs @ ds) = counted f P cs + counted f P ds"
  by (simp_all add: counted_def)

lemma counted_update_rates [simp]: "counted f P (pe_calls (UpdateRateGauges hv now s)) = counted f P (pe_calls s)"
proof -
  obtain cs where cs: "pe_calls (UpdateRateGauges hv now s) = pe_calls s @ cs"
    and only: "\<And>c. c \<in> set cs \<Longrightarrow> \<exists>l x. c = On Launch_rate l (SetTo x)"
    using update_rates_calls [of hv now s] by metis
  have "increment f P c = 0" if "c \<in> set cs" for c using only [OF that] by auto
  then have "counted f P cs = 0" by (induction cs) simp_all
  with cs show ?thesis by simp
qed

text \<open>The specification: what one record is worth depends on the record and on which queues are registered.\<close>

fun registers :: "exporter_op \<Rightarrow> u32 set \<Rightarrow> u32 set" where
  "registers (Op_queue hv q) R = insert (ucast (q_uid q)) R"
| "registers _ R = R"

fun tally :: "(u32 set \<Rightarrow> exporter_op \<Rightarrow> nat) \<Rightarrow> u32 set \<Rightarrow> exporter_op list \<Rightarrow> nat" where
  "tally w R [] = 0"
| "tally w R (x # xs) = w R x + tally w (registers x R) xs"

lemma dom_queue_meta: "dom (pe_queue_meta (exporter_step x s)) = registers x (dom (pe_queue_meta s))"
  by (cases x) (auto simp: op_defs UpdateRateGauges_def Let_def split: prod.splits option.splits)

locale counter_spec =
  fixes f :: family and P :: "labels \<Rightarrow> bool" and w :: "u32 set \<Rightarrow> exporter_op \<Rightarrow> nat"
  assumes step: "counted f P (pe_calls (exporter_step x s)) =
    counted f P (pe_calls s) + of_nat (w (dom (pe_queue_meta s)) x)"
begin

lemma run:
  "counted f P (pe_calls (exporter_run ops s)) =
     counted f P (pe_calls s) + of_nat (tally w (dom (pe_queue_meta s)) ops)"
  by (induction ops arbitrary: s) (simp_all add: step dom_queue_meta)

lemma from_start:
  "counted f P (calls_of hv window mode ops) = of_nat (tally w {} ops)"
  by (simp add: calls_of_def run) (simp add: new_PrometheusExporter_def)

end

definition has_label :: "string \<Rightarrow> string \<Rightarrow> labels \<Rightarrow> bool" where
  "has_label k v l = (map_of l k = Some v)"

definition known :: "u64 \<Rightarrow> u32 set \<Rightarrow> bool" where
  "known uid R = ((ucast uid :: u32) \<in> R)"

fun worth_error :: "u32 set \<Rightarrow> exporter_op \<Rightarrow> nat" where
  "worth_error R (Op_packet wall now r) = of_bool (\<not> known (p_queue_uid r) R)"
| "worth_error R (Op_sdma r) = of_bool (\<not> known (s_queue_uid r) R)"
| "worth_error R _ = 0"

fun worth_launch :: "string \<Rightarrow> u32 set \<Rightarrow> exporter_op \<Rightarrow> nat" where
  "worth_launch k R (Op_packet wall now r) =
     of_bool (known (p_queue_uid r) R \<and> is_dispatch r \<and> p_kernel_name r = k)"
| "worth_launch k R _ = 0"

fun worth_barrier :: "u32 set \<Rightarrow> exporter_op \<Rightarrow> nat" where
  "worth_barrier R (Op_packet wall now r) = of_bool (known (p_queue_uid r) R \<and> p_barrier r)"
| "worth_barrier R _ = 0"

fun worth_sdma :: "u32 set \<Rightarrow> exporter_op \<Rightarrow> nat" where
  "worth_sdma R (Op_sdma r) = of_bool (known (s_queue_uid r) R)"
| "worth_sdma R _ = 0"

fun worth_copied :: "CopyDir \<Rightarrow> u32 set \<Rightarrow> exporter_op \<Rightarrow> nat" where
  "worth_copied d R (Op_sdma r) =
     (if known (s_queue_uid r) R \<and> is_copy r \<and> s_dir r = d then unat (s_bytes r) else 0)"
| "worth_copied d R _ = 0"

fun worth_queue :: "bool \<Rightarrow> u32 set \<Rightarrow> exporter_op \<Rightarrow> nat" where
  "worth_queue sdma R (Op_queue hv q) = of_bool (is_sdma q = sdma)"
| "worth_queue sdma R _ = 0"

fun worth_ais :: "bool \<Rightarrow> u32 set \<Rightarrow> exporter_op \<Rightarrow> nat" where
  "worth_ais reading R (Op_ais hv r) = of_bool ((a_op r = Ais_Read) = reading)"
| "worth_ais reading R _ = 0"

lemma counted_add_dispatch:
  "counted f P (pe_calls (add_dispatch wall now r m s)) =
     counted f P (pe_calls s) + of_bool (f = Kernel_launches \<and> P (launch_labels r m))"
  by (simp add: add_dispatch_def observe_duration_def set_last_launch_def set_last_kernel_def
      latch_triggered_def Let_def split: option.split)

lemma counted_ais_other:
  assumes "f \<notin> {Ais_rx_ops, Ais_tx_ops, Ais_rx_bytes, Ais_tx_bytes, Ais_rx_errors, Ais_tx_errors}"
  shows "counted f P (ais_calls r gpu_type) = 0"
  using assms by (auto simp: ais_calls_def Let_def by_direction_def)

lemma counted_mem_other:
  assumes "f \<noteq> Mem_mapped_vram_total"
  shows "counted f P (mem_calls r gpu_type) = 0"
  using assms by (auto simp: mem_calls_def Let_def)

lemma CopyDirName_inj: "CopyDirName d = CopyDirName e \<longleftrightarrow> d = e"
  by (cases d; cases e; simp)

lemma label_of_task [simp]:
  "has_label ''direction'' v (task_labels m @ [(''direction'', x)]) \<longleftrightarrow> x = v"
  "has_label ''kernel_name'' v (launch_labels r m) \<longleftrightarrow> p_kernel_name r = v"
  by (simp_all add: has_label_def task_labels_def launch_labels_def)

lemmas counted_step_simps = op_defs Let_def counted_add_dispatch counted_ais_other counted_mem_other known_def

interpretation errors: counter_spec Errors "\<lambda>_. True" worth_error
proof
  fix x s
  show "counted Errors (\<lambda>_. True) (pe_calls (exporter_step x s)) =
    counted Errors (\<lambda>_. True) (pe_calls s) + of_nat (worth_error (dom (pe_queue_meta s)) x)"
    by (cases x) (auto simp: counted_step_simps split: prod.split option.split)
qed

interpretation launches: counter_spec Kernel_launches "has_label ''kernel_name'' k" "worth_launch k" for k
proof
  fix x s
  show "counted Kernel_launches (has_label ''kernel_name'' k) (pe_calls (exporter_step x s)) =
    counted Kernel_launches (has_label ''kernel_name'' k) (pe_calls s) +
    of_nat (worth_launch k (dom (pe_queue_meta s)) x)"
    by (cases x) (auto simp: counted_step_simps split: prod.split option.split)
qed

interpretation barriers: counter_spec Barriers "\<lambda>_. True" worth_barrier
proof
  fix x s
  show "counted Barriers (\<lambda>_. True) (pe_calls (exporter_step x s)) =
    counted Barriers (\<lambda>_. True) (pe_calls s) + of_nat (worth_barrier (dom (pe_queue_meta s)) x)"
    by (cases x) (auto simp: counted_step_simps split: prod.split option.split)
qed

interpretation sdma_packets: counter_spec Sdma_packets "\<lambda>_. True" worth_sdma
proof
  fix x s
  show "counted Sdma_packets (\<lambda>_. True) (pe_calls (exporter_step x s)) =
    counted Sdma_packets (\<lambda>_. True) (pe_calls s) + of_nat (worth_sdma (dom (pe_queue_meta s)) x)"
    by (cases x) (auto simp: counted_step_simps split: prod.split option.split)
qed

interpretation sdma_bytes: counter_spec Sdma_bytes "has_label ''direction'' (CopyDirName d)" "worth_copied d" for d
proof
  fix x s
  show "counted Sdma_bytes (has_label ''direction'' (CopyDirName d)) (pe_calls (exporter_step x s)) =
    counted Sdma_bytes (has_label ''direction'' (CopyDirName d)) (pe_calls s) +
    of_nat (worth_copied d (dom (pe_queue_meta s)) x)"
    by (cases x) (auto simp: counted_step_simps CopyDirName_inj split: prod.split option.split)
qed

interpretation aql_queues: counter_spec Active_queues "\<lambda>_. True" "worth_queue False"
proof
  fix x s
  show "counted Active_queues (\<lambda>_. True) (pe_calls (exporter_step x s)) =
    counted Active_queues (\<lambda>_. True) (pe_calls s) + of_nat (worth_queue False (dom (pe_queue_meta s)) x)"
    by (cases x) (auto simp: counted_step_simps split: prod.split option.split)
qed

interpretation ais_reads: counter_spec Ais_rx_ops "\<lambda>_. True" "worth_ais True"
proof
  fix x s
  show "counted Ais_rx_ops (\<lambda>_. True) (pe_calls (exporter_step x s)) =
    counted Ais_rx_ops (\<lambda>_. True) (pe_calls s) + of_nat (worth_ais True (dom (pe_queue_meta s)) x)"
    by (cases x) (auto simp: counted_step_simps ais_calls_def by_direction_def split: prod.split option.split)
qed

interpretation ais_writes: counter_spec Ais_tx_ops "\<lambda>_. True" "worth_ais False"
proof
  fix x s
  show "counted Ais_tx_ops (\<lambda>_. True) (pe_calls (exporter_step x s)) =
    counted Ais_tx_ops (\<lambda>_. True) (pe_calls s) + of_nat (worth_ais False (dom (pe_queue_meta s)) x)"
    by (cases x) (auto simp: counted_step_simps ais_calls_def by_direction_def split: prod.split option.split)
qed

text \<open>
  \<^bold>\<open>C6.\<close> The exported counters agree with the records observed, in any order of operations: a packet
  or SDMA record of a queue not registered yet is an error and nothing else; of a registered queue,
  every dispatch is one launch of its kernel, every barrier bit one barrier, every SDMA packet one
  packet, and the bytes of copies add up per direction.
\<close>

theorem exporter_counts_records:
  "counted Errors (\<lambda>_. True) (calls_of hv window mode ops) = of_nat (tally worth_error {} ops) \<and>
   counted Kernel_launches (has_label ''kernel_name'' k) (calls_of hv window mode ops) =
     of_nat (tally (worth_launch k) {} ops) \<and>
   counted Barriers (\<lambda>_. True) (calls_of hv window mode ops) = of_nat (tally worth_barrier {} ops) \<and>
   counted Sdma_packets (\<lambda>_. True) (calls_of hv window mode ops) = of_nat (tally worth_sdma {} ops) \<and>
   counted Sdma_bytes (has_label ''direction'' (CopyDirName d)) (calls_of hv window mode ops) =
     of_nat (tally (worth_copied d) {} ops)"
  by (simp only: errors.from_start launches.from_start barriers.from_start sdma_packets.from_start
      sdma_bytes.from_start simp_thms)

text \<open>
  Two divergences from what the exporter says of itself. The number of \<^emph>\<open>currently tracked\<close> queues
  is the number ever registered, whatever became of them. An AIS operation that is neither a read nor
  a write is counted as a write.
\<close>

theorem active_queues_counts_registrations:
  "counted Active_queues (\<lambda>_. True) (calls_of hv window mode ops) = of_nat (tally (worth_queue False) {} ops)"
  by (rule aql_queues.from_start)

theorem ais_unknown_counted_as_write:
  "counted Ais_tx_ops (\<lambda>_. True) (calls_of hv window mode ops) = of_nat (tally (worth_ais False) {} ops) \<and>
   counted Ais_rx_ops (\<lambda>_. True) (calls_of hv window mode ops) = of_nat (tally (worth_ais True) {} ops) \<and>
   worth_ais False R (Op_ais hv' (new_AisRecord\<lparr>a_op := AisOp_Unknown\<rparr>)) = 1"
  by (simp add: ais_reads.from_start ais_writes.from_start)

section \<open>Typing of the calls\<close>

text \<open>
  The label names each family is used with, and the calls its kind of metric admits: a counter is
  only incremented, by no negative amount; a histogram only observed, with ascending bucket bounds.
\<close>

fun label_names :: "family \<Rightarrow> string list" where
  "label_names Kernel_launches = [''kernel_name'', ''gpu_id'', ''gpu_type'', ''pid'', ''comm'']"
| "label_names Errors = [''gpu_id'', ''pid'']"
| "label_names Barriers = [''gpu_id'', ''gpu_type'', ''pid'', ''comm'']"
| "label_names Active_queues = [''gpu_id'', ''gpu_type'']"
| "label_names Launch_rate = [''gpu_id'', ''gpu_type'']"
| "label_names Last_launch_ts = [''gpu_id'', ''gpu_type'']"
| "label_names Last_kernel_info = [''gpu_id'', ''gpu_type'', ''kernel_name'']"
| "label_names Duration = [''kernel_name'', ''gpu_id'', ''gpu_type'']"
| "label_names Triggered = [''gpu_id'', ''gpu_type'']"
| "label_names Sdma_copies = [''gpu_id'', ''gpu_type'', ''pid'', ''comm'', ''direction'']"
| "label_names Sdma_bytes = [''gpu_id'', ''gpu_type'', ''pid'', ''comm'', ''direction'']"
| "label_names Sdma_packets = [''gpu_id'', ''gpu_type'', ''pid'', ''comm'', ''opcode'']"
| "label_names Active_sdma_queues = [''gpu_id'', ''gpu_type'']"
| "label_names Ais_rx_ops = [''gpu_id'', ''gpu_type'', ''pcie_id'', ''device_type'', ''vendor'', ''pid'', ''comm'']"
| "label_names Ais_tx_ops = [''gpu_id'', ''gpu_type'', ''pcie_id'', ''device_type'', ''vendor'', ''pid'', ''comm'']"
| "label_names Ais_rx_errors = [''gpu_id'', ''gpu_type'', ''pcie_id'', ''device_type'', ''vendor'', ''errno'']"
| "label_names Ais_tx_errors = [''gpu_id'', ''gpu_type'', ''pcie_id'', ''device_type'', ''vendor'', ''errno'']"
| "label_names Ais_rx_bytes = [''gpu_id'', ''gpu_type'', ''pcie_id'', ''device_type'', ''vendor'']"
| "label_names Ais_tx_bytes = [''gpu_id'', ''gpu_type'', ''pcie_id'', ''device_type'', ''vendor'']"
| "label_names Ais_rx_latency = [''gpu_id'', ''gpu_type'', ''pcie_id'', ''device_type'', ''vendor'']"
| "label_names Ais_tx_latency = [''gpu_id'', ''gpu_type'', ''pcie_id'', ''device_type'', ''vendor'']"
| "label_names Ais_rx_io_size = [''gpu_id'', ''gpu_type'', ''pcie_id'', ''device_type'', ''vendor'']"
| "label_names Ais_tx_io_size = [''gpu_id'', ''gpu_type'', ''pcie_id'', ''device_type'', ''vendor'']"
| "label_names Ais_pcie_info = [''pcie_id'', ''device_type'', ''vendor'', ''vendor_id'', ''device_id'', ''class_code'']"
| "label_names Xnack_total = [''pasid'', ''comm'']"
| "label_names Queue_info = [''gpu_id'', ''gpu_type'', ''pid'', ''comm'', ''ring_base'', ''ring_phys'', ''ring_size'']"
| "label_names Mem_lds = [''kernel_name'', ''gpu_id'', ''gpu_type'']"
| "label_names Mem_scratch = [''kernel_name'', ''gpu_id'', ''gpu_type'']"
| "label_names Mem_mapped_vram = [''kernel_name'', ''gpu_id'', ''gpu_type'']"
| "label_names Mem_mapped_vram_total = [''kernel_name'', ''gpu_id'', ''gpu_type'']"
| "label_names _ = []"

fun admits :: "metric_kind \<Rightarrow> metric_op \<Rightarrow> bool" where
  "admits Counter (Inc x) = (0 \<le> x)"
| "admits Gauge (Inc x) = True"
| "admits Gauge (SetTo x) = True"
| "admits Histogram (Observe bounds x) = sorted_wrt (<) bounds"
| "admits _ _ = False"

fun well_typed :: "metric_call \<Rightarrow> bool" where
  "well_typed (On f l oper) = (map fst l = label_names f \<and> admits (family_kind f) oper)"
| "well_typed (Removed f l) = (map fst l = label_names f)"

definition gpu_cache_ok :: "(string \<rightharpoonup> labels) \<Rightarrow> bool" where
  "gpu_cache_ok m = (\<forall>k l. m k = Some l \<longrightarrow> map fst l = [''gpu_id'', ''gpu_type''])"

definition typed :: "PrometheusExporter \<Rightarrow> bool" where
  "typed s = (list_all well_typed (pe_calls s) \<and> gpu_cache_ok (pe_active_queue_gauges s) \<and>
     gpu_cache_ok (pe_active_sdma_queue_gauges s) \<and> gpu_cache_ok (pe_last_launch_ts_gauges s) \<and>
     (\<forall>k l. lk_gauge (pe_last_kernel_state s k) = Some l \<longrightarrow> map fst l = label_names Last_kernel_info) \<and>
     (\<forall>(k, l) \<in> set (pe_rate_gauges s). map fst l = [''gpu_id'', ''gpu_type'']))"

lemma buckets_ascend: "sorted_wrt (<) kBuckets" "sorted_wrt (<) kLatBuckets" "sorted_wrt (<) kSizeBuckets"
  by (simp_all add: kBuckets_def kLatBuckets_def kSizeBuckets_def)

lemma label_shapes [simp]:
  "map fst (gpu_labels g ty) = [''gpu_id'', ''gpu_type'']"
  "map fst (launch_labels r m) = label_names Kernel_launches"
  "map fst (kernel_labels k g ty) = [''kernel_name'', ''gpu_id'', ''gpu_type'']"
  "map fst (task_labels m) = [''gpu_id'', ''gpu_type'', ''pid'', ''comm'']"
  "map fst (last_kernel_labels g ty k) = label_names Last_kernel_info"
  "map fst unknown_labels = label_names Errors"
  "map fst (queue_info_labels q ty) = label_names Queue_info"
  "map fst (device_labels ar ty) = [''gpu_id'', ''gpu_type'', ''pcie_id'', ''device_type'', ''vendor'']"
  "map fst (pcie_info_labels ar) = label_names Ais_pcie_info"
  by (simp_all add: gpu_labels_def launch_labels_def kernel_labels_def task_labels_def last_kernel_labels_def
      unknown_labels_def queue_info_labels_def device_labels_def pcie_info_labels_def)

lemma gpu_cache_ok_upd [simp]:
  "gpu_cache_ok m \<Longrightarrow> gpu_cache_ok (m(k \<mapsto> cached_gauge m k (gpu_labels g ty)))"
  "gpu_cache_ok m \<Longrightarrow> map fst (cached_gauge m k (gpu_labels g ty)) = [''gpu_id'', ''gpu_type'']"
  by (auto simp: gpu_cache_ok_def cached_gauge_def split: option.splits)

lemma typed_call: "typed s \<Longrightarrow> well_typed (On f l oper) \<Longrightarrow> typed (call_metric f l oper s)"
  by (simp add: typed_def)

lemma typed_dispatch: "typed s \<Longrightarrow> typed (add_dispatch wall now r m s)"
proof -
  assume t: "typed s"
  let ?s1 = "call_metric Kernel_launches (launch_labels r m) (Inc 1) s"
  have 1: "typed ?s1" using t by (simp add: typed_call family_kind_def)
  have 2: "typed (observe_duration r m ?s1)"
    using 1 by (simp add: observe_duration_def typed_call family_kind_def buckets_ascend)
  have 3: "typed (set_last_launch wall m x)" if "typed x" for x
    using that by (simp add: set_last_launch_def Let_def typed_def family_kind_def)
  have 4: "typed (set_last_kernel k m x)" if "typed x" for x k
    using that by (auto simp: set_last_kernel_def Let_def typed_def family_kind_def split: option.split)
  have 5: "typed (latch_triggered m x)" if "typed x" for x
    using that by (auto simp: latch_triggered_def Let_def typed_def family_kind_def split: option.split)
  have "typed (latch_triggered m (set_last_kernel (p_kernel_name r) m (set_last_launch wall m (observe_duration r m ?s1))))"
    using 2 3 4 5 by blast
  then show ?thesis by (simp add: add_dispatch_def Let_def typed_def)
qed

lemma typed_set_rate: "typed s \<Longrightarrow> typed (set_rate hv evs gpu s)"
  by (auto simp: set_rate_def Let_def typed_def family_kind_def dest: map_of_SomeD split: option.splits prod.splits)

lemma typed_set_rates: "typed s \<Longrightarrow> typed (fold (set_rate hv evs) gpus s)"
  by (induction gpus arbitrary: s) (simp_all add: typed_set_rate)

lemma typed_update_rates: "typed s \<Longrightarrow> typed (UpdateRateGauges hv now s)"
  unfolding UpdateRateGauges_def Let_def
  by (rule typed_set_rates) (auto simp: zero_rates_def typed_def family_kind_def list_all_iff)

lemma unsigned_rat_nonneg [simp]: "0 \<le> (unsigned (w :: 'a::len word) :: rat)"
  by (metis of_nat_0_le_iff of_nat_unat)

lemma typed_ais_calls: "list_all well_typed (ais_calls r ty)"
  by (simp add: ais_calls_def Let_def by_direction_def family_kind_def buckets_ascend)

lemma typed_mem_calls: "list_all well_typed (mem_calls r ty)"
  by (simp add: mem_calls_def Let_def family_kind_def)

lemma typed_register: "typed s \<Longrightarrow> typed (ExporterRegisterQueue hv q s)"
  by (auto simp: ExporterRegisterQueue_def Let_def typed_def family_kind_def split: prod.split)

lemma typed_packet: "typed s \<Longrightarrow> typed (ExporterAddPacket wall now r s)"
  by (auto simp: ExporterAddPacket_def Let_def typed_call typed_dispatch family_kind_def split: option.split)

lemma typed_sdma: "typed s \<Longrightarrow> typed (ExporterAddSdma r s)"
  by (auto simp: ExporterAddSdma_def Let_def family_kind_def split: option.split intro!: typed_call)

lemma typed_ais: "typed s \<Longrightarrow> typed (ExporterAddAis hv r s)"
  using typed_ais_calls by (auto simp: ExporterAddAis_def typed_def split: prod.split)

lemma typed_mem: "typed s \<Longrightarrow> typed (ExporterAddMem hv r s)"
  using typed_mem_calls by (auto simp: ExporterAddMem_def typed_def split: prod.split)

lemma typed_simple_ops:
  assumes "typed s"
  shows "typed (ExporterAddXnack r s)" and "typed (SetAisArmed b s)" and "typed (SetXnackArmed b s)"
  using assms by (simp_all add: ExporterAddXnack_def SetAisArmed_def SetXnackArmed_def typed_call family_kind_def)

interpretation typing: exporter_invariant typed
proof
  fix s x
  assume "typed s"
  then show "typed (exporter_step x s)"
    by (cases x) (simp_all add: typed_register typed_packet typed_sdma typed_ais typed_mem
        typed_simple_ops typed_update_rates)
qed

lemma typed_new: "typed (new_PrometheusExporter hv window mode)"
  by (simp add: new_PrometheusExporter_def typed_def gpu_cache_ok_def family_kind_def)

definition all_families :: "family list" where
  "all_families = [Up, Kernel_launches, Errors, Barriers, Active_queues, Launch_rate, Last_launch_ts,
     Last_kernel_info, Duration, Triggered, Sdma_copies, Sdma_bytes, Sdma_packets, Active_sdma_queues,
     Sdma_present, Ais_rx_ops, Ais_tx_ops, Ais_rx_bytes, Ais_tx_bytes, Ais_rx_errors, Ais_tx_errors,
     Ais_rx_latency, Ais_tx_latency, Ais_rx_io_size, Ais_tx_io_size, Ais_active, Ais_snoop_armed,
     Ais_pcie_info, Xnack_total, Xnack_snoop_armed, Queue_info, Mem_lds, Mem_scratch, Mem_mapped_vram,
     Mem_mapped_vram_total]"

lemma family_name_distinct: "distinct (map family_name all_families)"
  by code_simp

lemma all_families_complete: "f \<in> set all_families"
  by (cases f) (simp_all add: all_families_def)

lemma family_name_inj: "inj family_name"
proof (rule injI)
  fix f g
  assume "family_name f = family_name g"
  moreover have "inj_on family_name (set all_families)"
    using family_name_distinct by (simp add: distinct_map)
  ultimately show "f = g" by (simp add: inj_on_def all_families_complete)
qed

lemma label_names_separate:
  "distinct (label_names f @ [''host'', ''platform'', ''rocm_version'', ''discovery_mode''])"
  by (cases f) simp_all

text \<open>
  \<^bold>\<open>C14.\<close> The exposition is well typed: every call on the library, in any run, uses its family with that
  family's own label names, admits the kind of metric it is, and those names neither repeat nor
  clash with the constant labels; no two families share a metric name.
\<close>

theorem exporter_calls_well_typed:
  "list_all well_typed (calls_of hv window mode ops) \<and> inj family_name \<and>
   distinct (label_names f @ map fst (MakeConstLabels hv mode))"
  using typing.run [OF typed_new, where ops = ops] label_names_separate [of f]
  by (simp add: calls_of_def typed_def family_name_inj MakeConstLabels_def)

section \<open>Gauges\<close>

text \<open>The value of a child after a sequence of calls; \<open>None\<close>: there is no such child.\<close>

fun apply_call :: "family \<Rightarrow> labels \<Rightarrow> metric_call \<Rightarrow> rat option \<Rightarrow> rat option" where
  "apply_call f l (On f' l' oper) v =
     (if f' = f \<and> l' = l then
        (case oper of SetTo x \<Rightarrow> Some x
         | Inc x \<Rightarrow> Some (case v of Some y \<Rightarrow> y + x | None \<Rightarrow> x)
         | Observe bounds x \<Rightarrow> v)
      else v)"
| "apply_call f l (Removed f' l') v = (if f' = f \<and> l' = l then None else v)"

definition gauge_of :: "family \<Rightarrow> labels \<Rightarrow> metric_call list \<Rightarrow> rat option" where
  "gauge_of f l cs = fold (apply_call f l) cs None"

fun call_family :: "metric_call \<Rightarrow> family" where
  "call_family (On f l oper) = f"
| "call_family (Removed f l) = f"

lemma apply_call_other: "call_family c \<noteq> f \<Longrightarrow> apply_call f l c v = v"
  by (cases c) auto

lemma gauge_of_append1 [simp]: "gauge_of f l (cs @ [c]) = apply_call f l c (gauge_of f l cs)"
  by (simp add: gauge_of_def)

lemma gauge_of_append_other:
  "(\<And>c. c \<in> set ds \<Longrightarrow> call_family c \<noteq> f) \<Longrightarrow> gauge_of f l (cs @ ds) = gauge_of f l cs"
  by (induction ds rule: rev_induct) (simp_all add: apply_call_other flip: append_assoc)

subsection \<open>The last kernel\<close>

text \<open>
  The invariant: the live children of the family are exactly the recorded ones, with value 1, the
  record of a GPU carries that GPU's id and the recorded name, and a GPU without a child has no name.
\<close>

definition last_kernel_ok :: "PrometheusExporter \<Rightarrow> bool" where
  "last_kernel_ok s =
     ((\<forall>l. gauge_of Last_kernel_info l (pe_calls s) =
         (if \<exists>g. lk_gauge (pe_last_kernel_state s g) = Some l then Some 1 else None)) \<and>
      (\<forall>g l. lk_gauge (pe_last_kernel_state s g) = Some l \<longrightarrow>
         (\<exists>ty. l = last_kernel_labels g ty (lk_kernel_name (pe_last_kernel_state s g)))) \<and>
      (\<forall>g. lk_gauge (pe_last_kernel_state s g) = None \<longrightarrow> lk_kernel_name (pe_last_kernel_state s g) = []))"

lemma last_kernel_ok_other:
  assumes "last_kernel_ok s" "pe_last_kernel_state s' = pe_last_kernel_state s"
    and "pe_calls s' = pe_calls s @ cs" "\<And>c. c \<in> set cs \<Longrightarrow> call_family c \<noteq> Last_kernel_info"
  shows "last_kernel_ok s'"
  using assms by (simp add: last_kernel_ok_def gauge_of_append_other)

lemma last_kernel_labels_inj: "last_kernel_labels g ty k = last_kernel_labels g' ty' k' \<longleftrightarrow> g = g' \<and> ty = ty' \<and> k = k'"
  by (auto simp: last_kernel_labels_def)

lemma last_kernel_ok_set: "last_kernel_ok s \<Longrightarrow> last_kernel_ok (set_last_kernel k m s)"
proof (cases "lk_kernel_name (pe_last_kernel_state s (gpu_str (qm_gpu_id m))) = k")
  case False
  assume ok: "last_kernel_ok s"
  define g where "g = gpu_str (qm_gpu_id m)"
  define new where "new = last_kernel_labels g (qm_gpu_type m) k"
  define s' where "s' = set_last_kernel k m s"
  have st: "pe_last_kernel_state s' =
      (pe_last_kernel_state s)(g := \<lparr>lk_kernel_name = k, lk_gauge = Some new\<rparr>)"
    using False by (simp add: s'_def set_last_kernel_def g_def new_def Let_def)
  have shape: "\<exists>ty. l = last_kernel_labels h ty (lk_kernel_name (pe_last_kernel_state s h))"
    if "lk_gauge (pe_last_kernel_state s h) = Some l" for h l
    using ok that by (simp add: last_kernel_ok_def)
  have val: "gauge_of Last_kernel_info l (pe_calls s) =
      (if \<exists>h. lk_gauge (pe_last_kernel_state s h) = Some l then Some 1 else None)" for l
    using ok by (simp add: last_kernel_ok_def)
  have "gauge_of Last_kernel_info l (pe_calls s') =
      (if l = new then Some 1
       else if lk_gauge (pe_last_kernel_state s g) = Some l then None
       else gauge_of Last_kernel_info l (pe_calls s))" for l
    using False
    by (auto simp: s'_def set_last_kernel_def g_def new_def Let_def simp flip: append_assoc split: option.splits)
  moreover have "h = g" if "lk_gauge (pe_last_kernel_state s h) = Some l"
      "lk_gauge (pe_last_kernel_state s g) = Some l" for h l
    using shape [OF that(1)] shape [OF that(2)] by (auto simp: last_kernel_labels_inj)
  moreover have "h = g" if "lk_gauge (pe_last_kernel_state s h) = Some new" for h
    using shape [OF that] by (auto simp: new_def last_kernel_labels_inj)
  ultimately have "gauge_of Last_kernel_info l (pe_calls s') =
      (if \<exists>h. lk_gauge (pe_last_kernel_state s' h) = Some l then Some 1 else None)" for l
    unfolding st by (auto simp: val) metis
  moreover have "\<exists>ty. l = last_kernel_labels h ty (lk_kernel_name (pe_last_kernel_state s' h))"
    if "lk_gauge (pe_last_kernel_state s' h) = Some l" for h l
    using that shape by (cases "h = g") (auto simp: st new_def)
  moreover have "lk_kernel_name (pe_last_kernel_state s' h) = []"
    if "lk_gauge (pe_last_kernel_state s' h) = None" for h
    using that ok by (cases "h = g") (auto simp: st last_kernel_ok_def)
  ultimately show ?thesis by (simp add: last_kernel_ok_def flip: s'_def)
qed (simp add: set_last_kernel_def Let_def)

lemma last_kernel_ok_dispatch:
  assumes "last_kernel_ok s"
  shows "last_kernel_ok (add_dispatch wall now r m s)"
proof -
  let ?s3 = "set_last_launch wall m (observe_duration r m (call_metric Kernel_launches (launch_labels r m) (Inc 1) s))"
  have "\<exists>cs. pe_calls ?s3 = pe_calls s @ cs \<and> (\<forall>c \<in> set cs. call_family c \<noteq> Last_kernel_info)"
    by (simp add: set_last_launch_def observe_duration_def Let_def)
  moreover have "pe_last_kernel_state ?s3 = pe_last_kernel_state s"
    by (simp add: set_last_launch_def observe_duration_def Let_def)
  ultimately have "last_kernel_ok ?s3" using assms last_kernel_ok_other by blast
  then have 4: "last_kernel_ok (set_last_kernel (p_kernel_name r) m ?s3)" by (rule last_kernel_ok_set)
  have "last_kernel_ok (latch_triggered m x)" if "last_kernel_ok x" for x
    by (rule last_kernel_ok_other [OF that, where cs = "case pe_triggered_gauges x (gpu_str (qm_gpu_id m)) of
          Some _ \<Rightarrow> [] | None \<Rightarrow> [On Triggered (gpu_labels (gpu_str (qm_gpu_id m)) (qm_gpu_type m)) (SetTo 1)]"])
      (auto simp: latch_triggered_def Let_def split: option.splits)
  from this [OF 4] show ?thesis by (simp add: add_dispatch_def Let_def last_kernel_ok_def)
qed

interpretation last_kernel: exporter_invariant last_kernel_ok
proof
  fix s x
  assume ok: "last_kernel_ok s"
  note other = last_kernel_ok_other [OF ok]
  show "last_kernel_ok (exporter_step x s)"
  proof (cases x)
    case (Op_queue hv q)
    have "\<exists>cs. pe_calls (exporter_step x s) = pe_calls s @ cs \<and> (\<forall>c \<in> set cs. call_family c \<noteq> Last_kernel_info)"
      by (simp add: Op_queue ExporterRegisterQueue_def Let_def split: prod.split)
    moreover have "pe_last_kernel_state (exporter_step x s) = pe_last_kernel_state s"
      by (simp add: Op_queue ExporterRegisterQueue_def Let_def split: prod.split)
    ultimately show ?thesis using other by blast
  next
    case (Op_packet wall now r)
    have call: "last_kernel_ok (call_metric f l oper z)" if "last_kernel_ok z" "f \<noteq> Last_kernel_info" for f l oper z
      by (rule last_kernel_ok_other [OF that(1), where cs = "[On f l oper]"]) (use that in auto)
    show ?thesis
      by (auto simp: Op_packet ExporterAddPacket_def Let_def last_kernel_ok_dispatch call ok split: option.split)
  next
    case (Op_sdma r)
    have "\<exists>cs. pe_calls (exporter_step x s) = pe_calls s @ cs \<and> (\<forall>c \<in> set cs. call_family c \<noteq> Last_kernel_info)"
      by (simp add: Op_sdma ExporterAddSdma_def Let_def split: option.split)
    moreover have "pe_last_kernel_state (exporter_step x s) = pe_last_kernel_state s"
      by (simp add: Op_sdma ExporterAddSdma_def Let_def split: option.split)
    ultimately show ?thesis using other by blast
  next
    case (Op_rates hv now)
    obtain cs where cs: "pe_calls (UpdateRateGauges hv now s) = pe_calls s @ cs"
      and only: "\<And>c. c \<in> set cs \<Longrightarrow> \<exists>l x. c = On Launch_rate l (SetTo x)"
      using update_rates_calls [of hv now s] by metis
    have "call_family c \<noteq> Last_kernel_info" if "c \<in> set cs" for c using only [OF that] by auto
    with cs show ?thesis
      by (intro other [of _ cs]) (simp_all add: Op_rates, simp add: UpdateRateGauges_def Let_def)
  qed (auto simp: op_defs ais_calls_def mem_calls_def by_direction_def Let_def split: prod.split
      intro!: other)
qed

lemma last_kernel_ok_new: "last_kernel_ok (new_PrometheusExporter hv window mode)"
  by (simp add: last_kernel_ok_def new_PrometheusExporter_def gauge_of_def)

lemma last_kernel_one_per_gpu:
  assumes "last_kernel_ok s" "gauge_of Last_kernel_info l (pe_calls s) = Some v"
    and "gauge_of Last_kernel_info l' (pe_calls s) = Some v'"
    and "map_of l ''gpu_id'' = map_of l' ''gpu_id''"
  shows "v = 1 \<and> l = l'"
proof -
  have live: "\<exists>g ty. lk_gauge (pe_last_kernel_state s g) = Some x \<and> y = 1 \<and>
      x = last_kernel_labels g ty (lk_kernel_name (pe_last_kernel_state s g))"
    if "gauge_of Last_kernel_info x (pe_calls s) = Some y" for x y
    using that assms(1) by (auto simp: last_kernel_ok_def split: if_splits)
  from live [OF assms(2)] live [OF assms(3)] assms(4) show ?thesis
    by (auto simp: last_kernel_labels_def)
qed

lemma add_packet_last_kernel:
  assumes "pe_queue_meta s (ucast (p_queue_uid r)) = Some m" "is_dispatch r"
  shows "lk_kernel_name (pe_last_kernel_state (ExporterAddPacket wall now r s) (gpu_str (qm_gpu_id m))) =
    p_kernel_name r"
  using assms
  by (simp add: ExporterAddPacket_def add_dispatch_def set_last_launch_def observe_duration_def
      set_last_kernel_def latch_triggered_def Let_def split: option.split)

text \<open>
  \<^bold>\<open>C13.\<close> At most one child of \<^verbatim>\<open>hsa_last_kernel_launch_info\<close> is live per GPU, with value 1; right after
  a dispatch with a kernel name, of a registered queue, there is one for its GPU and it names that
  kernel.
\<close>

theorem last_kernel_series:
  assumes "pe_queue_meta (exporter_run ops (new_PrometheusExporter hv window mode)) (ucast (p_queue_uid r)) = Some m"
    and "is_dispatch r" "p_kernel_name r \<noteq> []"
  shows "\<exists>ty. \<forall>l. map_of l ''gpu_id'' = Some (gpu_str (qm_gpu_id m)) \<longrightarrow>
    gauge_of Last_kernel_info l (calls_of hv window mode (ops @ [Op_packet wall now r])) =
      (if l = last_kernel_labels (gpu_str (qm_gpu_id m)) ty (p_kernel_name r) then Some 1 else None)"
proof -
  let ?g = "gpu_str (qm_gpu_id m)"
  define s where "s = ExporterAddPacket wall now r (exporter_run ops (new_PrometheusExporter hv window mode))"
  have c: "calls_of hv window mode (ops @ [Op_packet wall now r]) = pe_calls s"
    by (simp add: calls_of_def s_def)
  have ok: "last_kernel_ok s"
    using last_kernel.run [OF last_kernel_ok_new, where ops = "ops @ [Op_packet wall now r]"] by (simp add: s_def)
  have name: "lk_kernel_name (pe_last_kernel_state s ?g) = p_kernel_name r"
    unfolding s_def by (rule add_packet_last_kernel [OF assms(1,2)])
  with assms(3) ok have "lk_gauge (pe_last_kernel_state s ?g) \<noteq> None"
    by (auto simp: last_kernel_ok_def)
  then obtain x where x: "lk_gauge (pe_last_kernel_state s ?g) = Some x" by blast
  with ok have "\<exists>ty. x = last_kernel_labels ?g ty (lk_kernel_name (pe_last_kernel_state s ?g))"
    by (simp add: last_kernel_ok_def)
  with x name obtain ty where g: "lk_gauge (pe_last_kernel_state s ?g) =
      Some (last_kernel_labels ?g ty (p_kernel_name r))" by auto
  with ok have one: "gauge_of Last_kernel_info (last_kernel_labels ?g ty (p_kernel_name r)) (pe_calls s) = Some 1"
    by (auto simp: last_kernel_ok_def)
  have "gauge_of Last_kernel_info l (pe_calls s) =
      (if l = last_kernel_labels ?g ty (p_kernel_name r) then Some 1 else None)"
    if "map_of l ''gpu_id'' = Some ?g" for l
    using one last_kernel_one_per_gpu [OF ok _ one, of l] that
    by (cases "gauge_of Last_kernel_info l (pe_calls s)") (auto simp: last_kernel_labels_def)
  then show ?thesis unfolding c by blast
qed

definition bare_host :: host_view where
  "bare_host = \<lparr>hv_proc_version = None, hv_rocm_info = None, hv_rocm_header = None, hv_nodes = None,
     hv_rocminfo = None, hv_hostname = ''h''\<rparr>"

definition sample_queue :: QueueInfo where
  "sample_queue = new_QueueInfo\<lparr>q_uid := 1, q_gpu_id := 7, q_qtype := 2\<rparr>"

definition sample_packet :: PacketRecord where
  "sample_packet = new_PacketRecord\<lparr>p_queue_uid := 1, p_type := KernelDispatch, p_kernel_name := ''k''\<rparr>"

lemma sample_registered:
  "pe_queue_meta (exporter_run [Op_queue bare_host sample_queue] (new_PrometheusExporter bare_host 10 ''kprobe''))
     (ucast (p_queue_uid sample_packet)) =
   Some \<lparr>qm_gpu_id = 7, qm_pid = 0, qm_comm = [], qm_gpu_type = ''unknown''\<rparr>"
  by (simp add: sample_queue_def sample_packet_def ExporterRegisterQueue_def Let_def DetectGpuType_def
      DetectGpuTypeFromRocminfo_def bare_host_def new_PrometheusExporter_def new_QueueInfo_def
      new_PacketRecord_def is_sdma_def)

theorem last_kernel_series_witness:
  "\<exists>ty. \<forall>l. map_of l ''gpu_id'' = Some (gpu_str 7) \<longrightarrow>
    gauge_of Last_kernel_info l
      (calls_of bare_host 10 ''kprobe'' ([Op_queue bare_host sample_queue] @ [Op_packet 5 5 sample_packet])) =
      (if l = last_kernel_labels (gpu_str 7) ty ''k'' then Some 1 else None)"
  using last_kernel_series [OF sample_registered, of 5 5]
  by (simp add: sample_packet_def is_dispatch_def)

subsection \<open>The launch rate\<close>

text \<open>All launches a run has recorded, whether or not they have been pruned since, and the steady-clock readings of a run.\<close>

fun launches_of :: "PrometheusExporter \<Rightarrow> exporter_op list \<Rightarrow> LaunchEvent list" where
  "launches_of s [] = []"
| "launches_of s (x # xs) =
     (case x of
        Op_packet wall now r \<Rightarrow>
          (case pe_queue_meta s (ucast (p_queue_uid r)) of
             Some m \<Rightarrow> if is_dispatch r then [\<lparr>le_ts = now, le_gpu_id = qm_gpu_id m\<rparr>] else []
           | None \<Rightarrow> [])
      | _ \<Rightarrow> []) @ launches_of (exporter_step x s) xs"

fun op_time :: "exporter_op \<Rightarrow> seconds list" where
  "op_time (Op_packet wall now r) = [now]"
| "op_time (Op_rates hv now) = [now]"
| "op_time _ = []"

abbreviation op_times :: "exporter_op list \<Rightarrow> seconds list" where
  "op_times ops \<equiv> concat (map op_time ops)"

lemma launches_of_append: "launches_of s (xs @ ys) = launches_of s xs @ launches_of (exporter_run xs s) ys"
  by (induction xs arbitrary: s) simp_all

lemma events_other:
  assumes "op_time x = []"
  shows "pe_launch_events (exporter_step x s) = pe_launch_events s"
  using assms by (cases x) (auto simp: op_defs Let_def split: prod.split option.split)

lemma launches_other: "op_time x = [] \<Longrightarrow> launches_of s [x] = []"
  by (cases x) simp_all

lemma window_same: "pe_rate_window_sec (exporter_step x s) = pe_rate_window_sec s"
  by (cases x) (auto simp: op_defs UpdateRateGauges_def Let_def split: prod.split option.split)

lemma window_run [simp]: "pe_rate_window_sec (exporter_run ops s) = pe_rate_window_sec s"
  by (induction ops arbitrary: s) (simp_all add: window_same)

text \<open>What the deque holds: the launches not older than a window before some earlier reading.\<close>

definition history_ok :: "seconds \<Rightarrow> seconds list \<Rightarrow> LaunchEvent list \<Rightarrow> LaunchEvent list \<Rightarrow> bool" where
  "history_ok w ts evs h =
     (sorted (map le_ts h) \<and> (\<forall>e \<in> set h. le_ts e \<in> set ts) \<and>
      (\<exists>old. h = old @ evs \<and> (\<forall>e \<in> set old. \<exists>t \<in> set ts. le_ts e < t - w)))"

lemma history_ok_prune:
  assumes "history_ok w ts evs h"
  shows "history_ok w (ts @ [now]) (prune_events (now - w) evs) h"
proof -
  from assms obtain old where h: "h = old @ evs" and o: "\<forall>e \<in> set old. \<exists>t \<in> set ts. le_ts e < t - w"
    by (auto simp: history_ok_def)
  let ?d = "takeWhile (\<lambda>e. le_ts e < now - w) evs"
  have "h = (old @ ?d) @ prune_events (now - w) evs" by (simp add: h prune_events_def)
  moreover have "\<exists>t \<in> set (ts @ [now]). le_ts e < t - w" if "e \<in> set (old @ ?d)" for e
    using that o by (auto dest: set_takeWhileD)
  ultimately show ?thesis using assms by (fastforce simp: history_ok_def)
qed

lemma history_ok_launch:
  assumes "history_ok w ts evs h" "\<forall>t \<in> set ts. t \<le> now"
  shows "history_ok w (ts @ [now]) (evs @ [\<lparr>le_ts = now, le_gpu_id = g\<rparr>]) (h @ [\<lparr>le_ts = now, le_gpu_id = g\<rparr>])"
  using assms by (fastforce simp: history_ok_def sorted_append)

lemma history_ok_more_times: "history_ok w ts evs h \<Longrightarrow> history_ok w (ts @ us) evs h"
  by (fastforce simp: history_ok_def)

lemma history_of_run:
  assumes "sorted (op_times ops)" "pe_launch_events s = []" "pe_rate_window_sec s = w"
  shows "history_ok w (op_times ops) (pe_launch_events (exporter_run ops s)) (launches_of s ops)"
  using assms(1)
proof (induction ops rule: rev_induct)
  case Nil
  then show ?case by (simp add: history_ok_def assms(2))
next
  case (snoc x ops)
  let ?s = "exporter_run ops s"
  from snoc have IH: "history_ok w (op_times ops) (pe_launch_events ?s) (launches_of s ops)"
    and le: "\<forall>t \<in> set (op_times ops). \<forall>u \<in> set (op_time x). t \<le> u"
    by (simp_all add: sorted_append)
  have w: "pe_rate_window_sec ?s = w" using assms(3) by simp
  show ?case
  proof (cases "op_time x = []")
    case True
    with IH show ?thesis
      by (simp add: launches_of_append events_other launches_other del: launches_of.simps)
  next
    case False
    then consider wall now r where "x = Op_packet wall now r" | hv now where "x = Op_rates hv now"
      by (cases x) auto
    then show ?thesis
    proof cases
      case 1
      then show ?thesis
        using history_ok_launch [OF IH] history_ok_more_times [OF IH, of "op_time x"] le
        by (auto simp: launches_of_append ExporterAddPacket_def Let_def split: option.split)
    next
      case 2
      then show ?thesis using w history_ok_prune [OF IH, of now]
        by (simp add: launches_of_append UpdateRateGauges_def Let_def)
    qed
  qed
qed

text \<open>The rate shown for a GPU.\<close>

definition rate_at :: "PrometheusExporter \<Rightarrow> string \<Rightarrow> rat option" where
  "rate_at s k = Option.bind (map_of (pe_rate_gauges s) k) (\<lambda>l. gauge_of Launch_rate l (pe_calls s))"

definition rates_keyed :: "PrometheusExporter \<Rightarrow> bool" where
  "rates_keyed s = (\<forall>(k, l) \<in> set (pe_rate_gauges s). map_of l ''gpu_id'' = Some k)"

lemma gpu_id_of_gpu_labels [simp]: "map_of (gpu_labels k ty) ''gpu_id'' = Some k"
  by (simp add: gpu_labels_def)

lemma rates_keyedD: "rates_keyed s \<Longrightarrow> map_of (pe_rate_gauges s) k = Some l \<Longrightarrow> map_of l ''gpu_id'' = Some k"
  by (auto simp: rates_keyed_def dest: map_of_SomeD)

lemma gauge_of_set_rate:
  "gauge_of f l (cs @ [On f l' (SetTo x)]) = (if l = l' then Some x else gauge_of f l cs)"
  by simp

lemma set_rate_value:
  assumes "rates_keyed s"
  shows "rates_keyed (set_rate hv evs gpu s)"
    and "rate_at (set_rate hv evs gpu s) k =
      (if k = gpu_str gpu then Some (of_nat (launch_count evs gpu) / pe_rate_window_sec s) else rate_at s k)"
proof -
  have other: "l \<noteq> l'" if "map_of (pe_rate_gauges s) k = Some l" "map_of l' ''gpu_id'' = Some (gpu_str gpu)"
    "k \<noteq> gpu_str gpu" for l l'
    using rates_keyedD [OF assms that(1)] that(2,3) by auto
  show "rates_keyed (set_rate hv evs gpu s)"
    using assms by (auto simp: set_rate_def Let_def rates_keyed_def split: option.split prod.split)
  show "rate_at (set_rate hv evs gpu s) k =
      (if k = gpu_str gpu then Some (of_nat (launch_count evs gpu) / pe_rate_window_sec s) else rate_at s k)"
    using other rates_keyedD [OF assms, of "gpu_str gpu"]
    by (cases "map_of (pe_rate_gauges s) k")
      (auto simp: set_rate_def rate_at_def Let_def map_add_def split: option.split prod.split
        intro: gpu_id_of_gpu_labels)
qed

lemma gpu_str_inj [simp]: "gpu_str g = gpu_str h \<longleftrightarrow> g = h"
proof
  assume "gpu_str g = gpu_str h"
  then have "read_digits 10 0 (show_radix 10 (unat g) @ []) = read_digits 10 0 (show_radix 10 (unat h) @ [])"
    by (simp add: gpu_str_def show_dec_def)
  then have "unat g = unat h"
    using read_show_radix [of 10 "unat g" "[]"] read_show_radix [of 10 "unat h" "[]"] by simp
  then show "g = h" by (simp add: word_unat_eq_iff)
qed simp

lemma set_rates_value:
  assumes "rates_keyed s"
  shows "rates_keyed (fold (set_rate hv evs) gpus s) \<and>
    rate_at (fold (set_rate hv evs) gpus s) (gpu_str gpu) =
      (if gpu \<in> set gpus then Some (of_nat (launch_count evs gpu) / pe_rate_window_sec s)
       else rate_at s (gpu_str gpu))"
  using assms(1)
proof (induction gpus arbitrary: s)
  case (Cons g gs)
  from Cons.IH [OF set_rate_value(1) [OF Cons.prems, of hv evs g]] show ?case
    using set_rate_value(2) [OF Cons.prems, of hv evs g "gpu_str gpu"] by auto
qed simp

lemma gauge_of_zeroed:
  "gauge_of f l (cs @ map (\<lambda>(_, g). On f g (SetTo 0)) gs) =
     (if l \<in> snd ` set gs then Some 0 else gauge_of f l cs)"
  by (induction gs rule: rev_induct) (auto simp flip: append_assoc)

lemma rate_at_zeroed:
  "rate_at (zero_rates s) k = (if map_of (pe_rate_gauges s) k = None then None else Some 0)"
proof (cases "map_of (pe_rate_gauges s) k")
  case (Some l)
  then have "l \<in> snd ` set (pe_rate_gauges s)" by (force dest: map_of_SomeD)
  with Some show ?thesis by (simp add: rate_at_def zero_rates_def gauge_of_zeroed)
qed (simp add: rate_at_def)

lemma rates_keyed_zeroed: "rates_keyed s \<Longrightarrow> rates_keyed (zero_rates (s\<lparr>pe_launch_events := evs\<rparr>))"
  by (simp add: rates_keyed_def)

interpretation rate_keys: exporter_invariant rates_keyed
proof
  fix s x
  assume "rates_keyed s"
  then show "rates_keyed (exporter_step x s)"
    using set_rates_value [OF rates_keyed_zeroed]
    by (cases x) (auto simp: op_defs UpdateRateGauges_def Let_def rates_keyed_def [of "ExporterRegisterQueue _ _ _"]
        rates_keyed_def split: prod.split option.split)
qed

lemma set_counted_gpus: "set (counted_gpus evs) = le_gpu_id ` set evs"
  by (simp add: counted_gpus_def)

lemma launch_count_zero: "launch_count evs gpu = 0 \<longleftrightarrow> gpu \<notin> le_gpu_id ` set evs"
  by (auto simp: launch_count_def filter_empty_conv)

text \<open>Pruning from the front loses nothing of the window, since the launches were recorded in time order.\<close>

lemma prune_is_filter:
  assumes "history_ok w ts evs h" "\<forall>t \<in> set ts. t \<le> now"
  shows "prune_events (now - w) evs = filter (\<lambda>e. now - w \<le> le_ts e) h"
proof -
  from assms(1) obtain old where h: "h = old @ evs" and old: "\<forall>e \<in> set old. \<exists>t \<in> set ts. le_ts e < t - w"
    and s: "sorted (map le_ts evs)"
    by (auto simp: history_ok_def sorted_append)
  have "\<not> now - w \<le> le_ts e" if "e \<in> set old" for e
  proof -
    from old that obtain t where "t \<in> set ts" "le_ts e < t - w" by blast
    with assms(2) show ?thesis by force
  qed
  then have o: "filter (\<lambda>e. now - w \<le> le_ts e) old = []" by (simp add: filter_empty_conv)
  have "dropWhile (\<lambda>e. le_ts e < now - w) xs = filter (\<lambda>e. now - w \<le> le_ts e) xs"
    if "sorted (map le_ts xs)" for xs :: "LaunchEvent list"
    using that
  proof (induction xs)
    case (Cons a xs)
    have "filter (\<lambda>e. now - w \<le> le_ts e) xs = xs" if "now - w \<le> le_ts a"
      using that Cons.prems by (fastforce simp: filter_id_conv)
    with Cons show ?case by auto
  qed simp
  from this [OF s] show ?thesis by (simp add: h o prune_events_def)
qed

text \<open>
  \<^bold>\<open>C12.\<close> After every rate update the gauge of a GPU is the number of launches ever recorded for it that
  are at most a window old, divided by the window, however the deque was pruned before; a GPU without
  a gauge has no such launch.
\<close>

theorem launch_rate_exact:
  assumes "sorted (op_times ops @ [now])" "0 < window" "s0 = new_PrometheusExporter hv window mode"
  shows "rate_at (exporter_run (ops @ [Op_rates hv' now]) s0) (gpu_str gpu) =
    (let n = launch_count (filter (\<lambda>e. now - window \<le> le_ts e) (launches_of s0 ops)) gpu in
     if n = 0 \<and> map_of (pe_rate_gauges (exporter_run ops s0)) (gpu_str gpu) = None then None
     else Some (of_nat n / window))"
proof -
  let ?s = "exporter_run ops s0"
  have new: "pe_launch_events s0 = []" "pe_rate_window_sec s0 = window" "rates_keyed s0"
    by (simp_all add: assms(3) new_PrometheusExporter_def rates_keyed_def)
  have "history_ok window (op_times ops) (pe_launch_events ?s) (launches_of s0 ops)"
    by (rule history_of_run) (use assms(1) new in \<open>simp_all add: sorted_append\<close>)
  then have evs: "prune_events (now - window) (pe_launch_events ?s) =
      filter (\<lambda>e. now - window \<le> le_ts e) (launches_of s0 ops)" (is "?e = ?f")
    by (rule prune_is_filter) (use assms(1) in \<open>simp add: sorted_append\<close>)
  have "rates_keyed ?s" using new(3) by (rule rate_keys.run)
  from set_rates_value [OF rates_keyed_zeroed [OF this], of hv' ?f "counted_gpus ?f" ?f gpu]
  show ?thesis
    using new(2) evs launch_count_zero [of ?f gpu]
    by (simp add: UpdateRateGauges_def Let_def set_counted_gpus rate_at_zeroed)
qed

theorem launch_rate_exact_witness:
  "rate_at (exporter_run ([Op_queue bare_host sample_queue, Op_packet 5 5 sample_packet, Op_packet 19 19 sample_packet] @
      [Op_rates bare_host 20]) (new_PrometheusExporter bare_host 10 ''kprobe'')) (gpu_str 7) = Some (1 / 10)"
proof -
  let ?s0 = "new_PrometheusExporter bare_host 10 ''kprobe''"
  let ?ops = "[Op_queue bare_host sample_queue, Op_packet 5 5 sample_packet, Op_packet 19 19 sample_packet]"
  let ?m = "\<lparr>qm_gpu_id = 7, qm_pid = 0, qm_comm = [], qm_gpu_type = ''unknown''\<rparr>"
  have reg: "pe_queue_meta (ExporterRegisterQueue bare_host sample_queue ?s0) (ucast (p_queue_uid sample_packet)) = Some ?m"
    using sample_registered by simp
  have d: "is_dispatch sample_packet" by (simp add: sample_packet_def is_dispatch_def)
  have "pe_queue_meta (ExporterAddPacket 5 5 sample_packet z) = pe_queue_meta z" for z
    by (simp add: ExporterAddPacket_def Let_def split: option.split)
  then have "launches_of ?s0 ?ops = [\<lparr>le_ts = 5, le_gpu_id = 7\<rparr>, \<lparr>le_ts = 19, le_gpu_id = 7\<rparr>]"
    using reg d by simp
  then show ?thesis
    using launch_rate_exact [of ?ops 20 10 ?s0 bare_host "''kprobe''" bare_host 7]
    by (simp add: launch_count_def)
qed

end
