(* ===== verification/Delivery.thy ===== *)
theory Delivery
  imports Snoop_Main Exporter_Properties
begin

text \<open>
  From the ring to the output: what the parser reports reaches the log, the exporter or the trace of
  its queue, whatever the interleaving of the threads.
\<close>

section \<open>Records carry the identifier of their queue\<close>

fun event_uid :: "parser_event \<Rightarrow> u64" where
  "event_uid (Dispatch r) = p_queue_uid r"
| "event_uid (Copy r) = s_queue_uid r"

definition own_packets :: "QueueState \<Rightarrow> bool" where
  "own_packets qs = (\<forall>k r. (k, r) \<in> set (qs_inflight qs) \<longrightarrow> p_queue_uid r = q_uid (qs_info qs))"

lemma set_od_emplace: "kr \<in> set (od_emplace k v m) \<Longrightarrow> kr = (k, v) \<or> kr \<in> set m"
  by (induction k v m rule: od_emplace.induct) (auto split: if_splits)

lemma decode_step_own:
  assumes "decode_step dm os now rptr qs = Advance qs1 out" "own_packets qs"
  shows "own_packets qs1 \<and> (\<forall>r \<in> set out. p_queue_uid r = q_uid (qs_info qs)) \<and> qs_info qs1 = qs_info qs"
proof -
  obtain qs2 d where d: "DecodeSlot dm os qs (qs_next_id qs) rptr = Some (qs2, d)"
    using assms(1) by (cases "DecodeSlot dm os qs (qs_next_id qs) rptr") (auto simp: decode_step_def)
  note frame = DecodeSlot_frame [OF d]
  show ?thesis
  proof (cases d)
    case None
    then show ?thesis using assms d frame
      by (auto simp: decode_step_def Let_def own_packets_def split: if_splits)
  next
    case (Some r)
    have "p_queue_uid r = q_uid (qs_info qs)"
      using DecodeSlot_record [of dm os qs "qs_next_id qs" rptr qs2 r] d Some by (simp add: fresh_record_def)
    then show ?thesis using assms d frame Some
      by (auto simp: decode_step_def Let_def own_packets_def complete_packet_def split: if_splits
          dest!: set_od_emplace)
  qed
qed

lemma decode_loop_own:
  "decode_loop dm os now wptr rptr k qs = Some (qs', out) \<Longrightarrow> own_packets qs \<Longrightarrow>
     own_packets qs' \<and> (\<forall>r \<in> set out. p_queue_uid r = q_uid (qs_info qs)) \<and> qs_info qs' = qs_info qs"
proof (induction dm os now wptr rptr k qs arbitrary: out rule: decode_loop.induct)
  case (1 dm os now wptr rptr k qs)
  show ?case
  proof (cases "qs_next_id qs < wptr \<and> (\<exists>qs1 out1. decode_step dm (os k) now rptr qs = Advance qs1 out1)")
    case False
    then have "out = []" "qs' = qs \<or> decode_step dm (os k) now rptr qs = Pending qs'"
      using decode_loop_stop [OF "1.prems"(1)] by auto
    moreover have "qs_inflight qs' = qs_inflight qs \<and> qs_info qs' = qs_info qs"
      if "decode_step dm (os k) now rptr qs = Pending qs'"
      using that by (auto simp: decode_step_def Let_def split: option.splits prod.splits if_splits
          dest: DecodeSlot_frame)
    ultimately show ?thesis using "1.prems"(2) by (auto simp: own_packets_def)
  next
    case True
    then obtain qs1 out1 where lt: "qs_next_id qs < wptr"
      and d: "decode_step dm (os k) now rptr qs = Advance qs1 out1" by blast
    obtain out2 where rest: "decode_loop dm os now wptr rptr (Suc k) qs1 = Some (qs', out2)" "out = out1 @ out2"
      using decode_loop_unfold [of qs wptr dm os k now rptr, OF lt d "1.prems"(1)] by blast
    show ?thesis
      using "1.IH" [OF lt d rest(1)] decode_step_own [OF d "1.prems"(2)] rest(2) by auto
  qed
qed

lemma PollQueue_own:
  assumes "PollQueue dm os c qs now = Some (c', qs', out)" "own_packets qs"
  shows "own_packets qs'" and "r \<in> set out \<Longrightarrow> p_queue_uid r = q_uid (qs_info qs)"
proof -
  obtain c1 ptrs where rp: "read_pointers os c (qs_info qs) = (c1, ptrs)" by force
  let ?q = "qs\<lparr>qs_read_fail_count := 0\<rparr>"
  have main: "own_packets qs' \<and> (\<forall>r \<in> set out. p_queue_uid r = q_uid (qs_info qs))"
    if "poll_aql dm os now w rd ?q = Some (qs', out)" for w rd
    using that
  proof (rule poll_aql_parts)
    fix qs1 out1
    assume l: "decode_loop dm os now w rd 2 (skip_lapped (ucast (num_slots (qs_info ?q))) w ?q) = Some (qs1, out1)"
      and q: "qs' = qs1\<lparr>qs_inflight := dropWhile (\<lambda>kr. fst kr < rd) (qs_inflight qs1), qs_last_rptr := rd\<rparr>"
      and o: "out = out1 @ map (complete_packet now \<circ> snd) (takeWhile (\<lambda>kr. fst kr < rd) (qs_inflight qs1))"
    have "own_packets (skip_lapped (ucast (num_slots (qs_info ?q))) w ?q)"
      using assms(2) by (simp add: own_packets_def)
    from decode_loop_own [OF l this] show ?thesis
      unfolding q o by (auto simp: own_packets_def complete_packet_def dest: set_dropWhileD set_takeWhileD)
  qed
  have "own_packets qs' \<and> (\<forall>r \<in> set out. p_queue_uid r = q_uid (qs_info qs))"
  proof (cases ptrs)
    case None
    then show ?thesis using assms rp by (auto simp: PollQueue_def own_packets_def)
  next
    case (Some wr)
    then show ?thesis using assms rp main
      by (cases wr) (auto simp: PollQueue_def Let_def own_packets_def split: if_splits)
  qed
  then show "own_packets qs'" and "r \<in> set out \<Longrightarrow> p_queue_uid r = q_uid (qs_info qs)" by auto
qed

lemma PollSdmaQueue_own:
  assumes "PollSdmaQueue os c qs now = (c', qs', out)" "sdma_ready qs" "r \<in> set out"
  shows "s_queue_uid r = q_uid (qs_info qs)"
proof -
  obtain c1 ptrs where rp: "read_pointers os c (qs_info qs) = (c1, ptrs)" by force
  obtain w rd where "qs_primed qs"
      "poll_sdma os now (RingBytesToDwords w) (RingBytesToDwords rd) (qs\<lparr>qs_read_fail_count := 0\<rparr>) = (qs', out)"
    using assms rp by (cases ptrs) (auto simp: PollSdmaQueue_def Let_def split: if_splits)
  moreover have "sdma_inv (qs\<lparr>qs_read_fail_count := 0\<rparr>)"
    using assms(2) \<open>qs_primed qs\<close> by (simp add: sdma_ready_def sdma_inv_cong)
  ultimately show ?thesis using poll_sdma_facts(6) [OF _ RingBytesToDwords_le] assms(3) by fastforce
qed

lemma poll_one_own:
  assumes "poll_one dm os now c qs = Some (c', qs', evs)" "queue_ok qs" "is_sdma (qs_info qs) \<or> own_packets qs"
  shows "qs_info qs' = qs_info qs \<and> (is_sdma (qs_info qs') \<or> own_packets qs') \<and>
    (\<forall>ev \<in> set evs. event_uid ev = q_uid (qs_info qs))"
proof (cases "qs_evict qs \<or> \<not> ProcAlive (os 0) (q_pid (qs_info qs))")
  case True
  then show ?thesis
    using assms(1,3) by (auto simp: poll_one_def own_packets_def split: if_splits)
next
  case live: False
  show ?thesis
  proof (cases "is_sdma (qs_info qs)")
    case True
    then obtain out where p: "PollSdmaQueue os c qs now = (c', qs', out)" and e: "evs = map Copy out"
      using live assms(1) by (auto simp: poll_one_def split: prod.splits)
    have "sdma_ready qs" using True assms(2) by (simp add: queue_ok_def)
    then show ?thesis using True PollSdmaQueue_ready [OF p] PollSdmaQueue_own [OF p] e by auto
  next
    case False
    then obtain out where p: "PollQueue dm os c qs now = Some (c', qs', out)" and e: "evs = map Dispatch out"
      using live assms(1) by (auto simp: poll_one_def split: option.splits)
    then show ?thesis using False assms(3) PollQueue_frame [OF p] PollQueue_own [OF p] by auto
  qed
qed

section \<open>Every record reaches its output\<close>

definition dispatches :: "parser_event list \<Rightarrow> PacketRecord list" where
  "dispatches evs = List.map_filter (\<lambda>ev. case ev of Dispatch r \<Rightarrow> Some r | Copy _ \<Rightarrow> None) evs"

definition copies :: "parser_event list \<Rightarrow> SdmaRecord list" where
  "copies evs = List.map_filter (\<lambda>ev. case ev of Copy r \<Rightarrow> Some r | Dispatch _ \<Rightarrow> None) evs"

lemma dispatches_simps [simp]:
  "dispatches [] = []" "dispatches (evs @ [Dispatch r]) = dispatches evs @ [r]"
  "dispatches (evs @ [Copy s]) = dispatches evs"
  "copies [] = []" "copies (evs @ [Dispatch r]) = copies evs" "copies (evs @ [Copy s]) = copies evs @ [s]"
  by (simp_all add: dispatches_def copies_def map_filter_def)

lemma in_dispatches: "r \<in> set (dispatches evs) \<longleftrightarrow> Dispatch r \<in> set evs"
  by (induction evs rule: rev_induct) (auto simp: dispatches_def map_filter_def split: parser_event.splits)

lemma in_copies: "r \<in> set (copies evs) \<longleftrightarrow> Copy r \<in> set evs"
  by (induction evs rule: rev_induct) (auto simp: copies_def map_filter_def split: parser_event.splits)

text \<open>A queue the output of the current mode knows.\<close>

definition registered :: "App \<Rightarrow> u64 \<Rightarrow> bool" where
  "registered ap uid =
     (case ap_exporter ap of
        Some e \<Rightarrow> ucast uid \<in> dom (pe_queue_meta e)
      | None \<Rightarrow> if ap_all_mode ap then map_of (ap_per_queue_writers ap) uid \<noteq> None
                else ap_single_writer ap \<noteq> None)"

text \<open>The three outputs hold exactly the records handed over so far.\<close>

definition exporter_has :: "PrometheusExporter \<Rightarrow> parser_event list \<Rightarrow> bool" where
  "exporter_has e evs =
     (counted Errors (\<lambda>_. True) (pe_calls e) = 0 \<and>
      counted Kernel_launches (\<lambda>_. True) (pe_calls e) = of_nat (length (filter is_dispatch (dispatches evs))) \<and>
      counted Sdma_packets (\<lambda>_. True) (pe_calls e) = of_nat (length (copies evs)))"

definition writer_has :: "TraceWriter \<Rightarrow> PacketRecord list \<Rightarrow> SdmaRecord list \<Rightarrow> bool" where
  "writer_has w rs ss = (tw_records w = rs \<and> tw_sdma_records w = ss)"

definition writers_have :: "(u64, TraceWriter) odict \<Rightarrow> parser_event list \<Rightarrow> bool" where
  "writers_have ws evs =
     (od_ok ws \<and> (\<forall>ev \<in> set evs. map_of ws (event_uid ev) \<noteq> None) \<and>
      (\<forall>uid w. map_of ws uid = Some w \<longrightarrow>
         writer_has w (filter (\<lambda>r. p_queue_uid r = uid) (dispatches evs))
           (filter (\<lambda>r. s_queue_uid r = uid) (copies evs))))"

definition outputs_have :: "App \<Rightarrow> parser_event list \<Rightarrow> bool" where
  "outputs_have ap evs =
     (case ap_exporter ap of
        Some e \<Rightarrow> exporter_has e evs
      | None \<Rightarrow>
          if ap_all_mode ap then writers_have (ap_per_queue_writers ap) evs
          else (\<exists>w. ap_single_writer ap = Some w \<and> writer_has w (dispatches evs) (copies evs)))"

definition log_has :: "App \<Rightarrow> parser_event list \<Rightarrow> bool" where
  "log_has ap evs =
     (case ap_dispatch_log ap of
        Some l \<Rightarrow> length (dl_lines l) =
          ap_queue_count ap + length (filter is_dispatch (dispatches evs)) + length (copies evs)
      | None \<Rightarrow> True)"

text \<open>The footprint path touches none of the counters above, and no other part of the state but the terminal.\<close>

lemma exporter_has_mem: "exporter_has (ExporterAddMem hv mr e) evs = exporter_has e evs"
  by (simp add: exporter_has_def ExporterAddMem_def counted_mem_other split: prod.split)

lemma mem_snoop_frame:
  assumes "mem_snoop se r c ap = (c1, ap1)"
  shows "outputs_have ap1 evs = outputs_have ap evs" "registered ap1 uid = registered ap uid"
    "ap_parser ap1 = ap_parser ap" "ap_dispatch_log ap1 = ap_dispatch_log ap"
    "ap_queue_count ap1 = ap_queue_count ap"
proof -
  have "pe_queue_meta (ExporterAddMem hv mr e) = pe_queue_meta e" for hv mr e
    by (simp add: ExporterAddMem_def split: prod.split)
  then show "outputs_have ap1 evs = outputs_have ap evs" "registered ap1 uid = registered ap uid"
    "ap_parser ap1 = ap_parser ap" "ap_dispatch_log ap1 = ap_dispatch_log ap"
    "ap_queue_count ap1 = ap_queue_count ap"
    using assms exporter_has_mem
    by (auto simp: mem_snoop_def emit_mem_def outputs_have_def registered_def
        split: if_splits prod.splits option.splits)
qed

lemma exporter_has_packet:
  assumes "exporter_has e evs" "ucast (p_queue_uid r) \<in> dom (pe_queue_meta e)"
  shows "exporter_has (ExporterAddPacket wall now r e) (evs @ [Dispatch r])"
  using assms by (auto simp: exporter_has_def ExporterAddPacket_def Let_def counted_add_dispatch)

lemma exporter_has_sdma:
  assumes "exporter_has e evs" "ucast (s_queue_uid r) \<in> dom (pe_queue_meta e)"
  shows "exporter_has (ExporterAddSdma r e) (evs @ [Copy r])"
  using assms by (auto simp: exporter_has_def ExporterAddSdma_def Let_def)

lemma exporter_meta_same:
  "pe_queue_meta (ExporterAddPacket wall now r e) = pe_queue_meta e"
  "pe_queue_meta (ExporterAddSdma s e) = pe_queue_meta e"
  by (simp_all add: ExporterAddPacket_def ExporterAddSdma_def Let_def split: option.split)

lemma writers_have_add:
  assumes "writers_have ws evs" "map_of ws (event_uid ev) = Some w"
    and "\<And>rs ss. writer_has w rs ss \<Longrightarrow> writer_has (add w)
      (rs @ (case ev of Dispatch r \<Rightarrow> [r] | Copy _ \<Rightarrow> [])) (ss @ (case ev of Copy s \<Rightarrow> [s] | Dispatch _ \<Rightarrow> []))"
  shows "writers_have (od_assign (event_uid ev) (add w) ws) (evs @ [ev])"
proof -
  have ok: "od_ok ws" using assms(1) by (simp add: writers_have_def)
  note m = map_of_assign [OF ok, of "event_uid ev" "add w"]
  have "writer_has w' (filter (\<lambda>r. p_queue_uid r = uid) (dispatches (evs @ [ev])))
      (filter (\<lambda>r. s_queue_uid r = uid) (copies (evs @ [ev])))"
    if "map_of (od_assign (event_uid ev) (add w) ws) uid = Some w'" for uid w'
  proof (cases "uid = event_uid ev")
    case True
    with that m have "w' = add w" by simp
    moreover have "writer_has w (filter (\<lambda>r. p_queue_uid r = uid) (dispatches evs))
        (filter (\<lambda>r. s_queue_uid r = uid) (copies evs))"
      using assms(1,2) True by (simp add: writers_have_def)
    ultimately show ?thesis using assms(3) True by (cases ev) fastforce+
  next
    case False
    with that m assms(1) have "writer_has w' (filter (\<lambda>r. p_queue_uid r = uid) (dispatches evs))
        (filter (\<lambda>r. s_queue_uid r = uid) (copies evs))"
      by (simp add: writers_have_def)
    with False show ?thesis by (cases ev) auto
  qed
  moreover have "map_of (od_assign (event_uid ev) (add w) ws) (event_uid x) \<noteq> None"
    if "x \<in> set (evs @ [ev])" for x
    using that assms(1) m by (auto simp: writers_have_def)
  ultimately show ?thesis using ok by (simp add: writers_have_def od_ok_assign)
qed

lemma outputs_have_write:
  assumes "outputs_have ap evs" "ap_exporter ap = None" "registered ap (event_uid ev)"
    and add: "\<And>w rs ss. writer_has w rs ss \<Longrightarrow> writer_has (add w)
      (rs @ (case ev of Dispatch r \<Rightarrow> [r] | Copy _ \<Rightarrow> [])) (ss @ (case ev of Copy s \<Rightarrow> [s] | Dispatch _ \<Rightarrow> []))"
  shows "outputs_have (to_writer (event_uid ev) add ap) (evs @ [ev])"
    and "registered ap uid \<Longrightarrow> registered (to_writer (event_uid ev) add ap) uid"
proof -
  show "outputs_have (to_writer (event_uid ev) add ap) (evs @ [ev])"
  proof (cases "ap_all_mode ap")
    case True
    with assms(2,3) obtain w where w: "map_of (ap_per_queue_writers ap) (event_uid ev) = Some w"
      by (auto simp: registered_def)
    then show ?thesis
      using writers_have_add [of "ap_per_queue_writers ap" evs ev w add] add True assms(1,2)
      by (simp add: outputs_have_def to_writer_def)
  next
    case False
    then show ?thesis using assms(1,2) add [of _ "dispatches evs" "copies evs"]
      by (cases ev) (auto simp: outputs_have_def to_writer_def)
  qed
  have "od_ok (ap_per_queue_writers ap)" if "ap_all_mode ap"
    using assms(1,2) that by (simp add: outputs_have_def writers_have_def)
  then show "registered ap uid \<Longrightarrow> registered (to_writer (event_uid ev) add ap) uid"
    using assms(2) by (auto simp: registered_def to_writer_def map_of_assign split: option.splits if_splits)
qed

lemma writer_has_add:
  "writer_has w rs ss \<Longrightarrow> writer_has (Add_packet r w) (rs @ [r]) ss"
  "writer_has w rs ss \<Longrightarrow> writer_has (Add_sdma s w) rs (ss @ [s])"
  by (auto simp: writer_has_def Add_packet_def Add_sdma_def)

lemma to_writer_frame [simp]:
  "ap_parser (to_writer uid add ap) = ap_parser ap"
  "ap_dispatch_log (to_writer uid add ap) = ap_dispatch_log ap"
  "ap_queue_count (to_writer uid add ap) = ap_queue_count ap" "ap_pending (to_writer uid add ap) = ap_pending ap"
  by (simp_all add: to_writer_def split: option.split)

lemma outputs_log_irrelevant [simp]:
  "outputs_have (ap\<lparr>ap_dispatch_log := l\<rparr>) evs = outputs_have ap evs"
  "registered (ap\<lparr>ap_dispatch_log := l\<rparr>) uid = registered ap uid"
  by (simp_all add: outputs_have_def registered_def split: option.split)

lemma outputs_log [simp]:
  "outputs_have (log_dispatch r ap) evs = outputs_have ap evs" "outputs_have (log_sdma s ap) evs = outputs_have ap evs"
  "registered (log_dispatch r ap) uid = registered ap uid" "registered (log_sdma s ap) uid = registered ap uid"
  by (simp_all add: log_dispatch_def log_sdma_def)

lemma route_packet_ok:
  assumes "outputs_have ap evs" "registered ap (p_queue_uid r)"
  shows "outputs_have (route_packet se r ap) (evs @ [Dispatch r])"
    and "registered ap uid \<Longrightarrow> registered (route_packet se r ap) uid"
proof -
  have "outputs_have (route_packet se r ap) (evs @ [Dispatch r]) \<and>
      (registered ap uid \<longrightarrow> registered (route_packet se r ap) uid)"
  proof (cases "ap_exporter ap")
    case None
    then show ?thesis
      using outputs_have_write [OF assms(1) None, of "Dispatch r" "Add_packet r"] writer_has_add(1) assms(2)
      by (simp add: route_packet_def)
  next
    case (Some e)
    then show ?thesis using assms exporter_has_packet [of e evs r]
      by (auto simp: route_packet_def outputs_have_def registered_def exporter_meta_same)
  qed
  then show "outputs_have (route_packet se r ap) (evs @ [Dispatch r])"
    and "registered ap uid \<Longrightarrow> registered (route_packet se r ap) uid" by auto
qed

lemma route_sdma_ok:
  assumes "outputs_have ap evs" "registered ap (s_queue_uid r)"
  shows "outputs_have (route_sdma r ap) (evs @ [Copy r])"
    and "registered ap uid \<Longrightarrow> registered (route_sdma r ap) uid"
proof -
  have "outputs_have (route_sdma r ap) (evs @ [Copy r]) \<and>
      (registered ap uid \<longrightarrow> registered (route_sdma r ap) uid)"
  proof (cases "ap_exporter ap")
    case None
    then show ?thesis
      using outputs_have_write [OF assms(1) None, of "Copy r" "Add_sdma r"] writer_has_add(2) assms(2)
      by (simp add: route_sdma_def)
  next
    case (Some e)
    then show ?thesis using assms exporter_has_sdma [of e evs r]
      by (auto simp: route_sdma_def outputs_have_def registered_def exporter_meta_same)
  qed
  then show "outputs_have (route_sdma r ap) (evs @ [Copy r])"
    and "registered ap uid \<Longrightarrow> registered (route_sdma r ap) uid" by auto
qed

lemma route_frame [simp]:
  "ap_parser (route_packet se r ap) = ap_parser ap" "ap_parser (route_sdma s ap) = ap_parser ap"
  "ap_dispatch_log (route_packet se r ap) = ap_dispatch_log ap" "ap_dispatch_log (route_sdma s ap) = ap_dispatch_log ap"
  "ap_queue_count (route_packet se r ap) = ap_queue_count ap" "ap_queue_count (route_sdma s ap) = ap_queue_count ap"
  "ap_pending (route_packet se r ap) = ap_pending ap" "ap_pending (route_sdma s ap) = ap_pending ap"
  by (simp_all add: route_packet_def route_sdma_def split: option.split)

lemma deliver_ok:
  assumes "deliver se ev c ap = (c', ap')" "outputs_have ap evs" "registered ap (event_uid ev)"
  shows "outputs_have ap' (evs @ [ev])" and "registered ap uid \<Longrightarrow> registered ap' uid"
    and "log_has ap evs \<Longrightarrow> log_has ap' (evs @ [ev])"
    and "ap_parser ap' = ap_parser ap"
proof -
  have "outputs_have ap' (evs @ [ev]) \<and> (registered ap uid \<longrightarrow> registered ap' uid) \<and>
      (log_has ap evs \<longrightarrow> log_has ap' (evs @ [ev])) \<and> ap_parser ap' = ap_parser ap"
  proof (cases ev)
    case (Copy r)
    then show ?thesis
      using assms route_sdma_ok [of "log_sdma r ap" evs r]
      by (auto simp: sdma_sink_def log_has_def log_sdma_def LogSdma_def WriteLine_def split: option.splits)
  next
    case (Dispatch r)
    then obtain ap1 where m: "mem_snoop se r c ap = (c', ap1)"
      and ap': "ap' = route_packet se r (log_dispatch r ap1)"
      using assms(1) by (auto simp: packet_sink_def split: prod.splits)
    note frame = mem_snoop_frame [OF m]
    show ?thesis
      using assms Dispatch frame route_packet_ok [of "log_dispatch r ap1" evs r]
      by (auto simp: ap' log_has_def log_dispatch_def LogDispatch_def WriteLine_def split: option.splits)
  qed
  then show "outputs_have ap' (evs @ [ev])" and "registered ap uid \<Longrightarrow> registered ap' uid"
    and "log_has ap evs \<Longrightarrow> log_has ap' (evs @ [ev])"
    and "ap_parser ap' = ap_parser ap" by auto
qed

subsection \<open>The invariant of the running tool\<close>

definition queues_known :: "App \<Rightarrow> bool" where
  "queues_known ap =
     (\<forall>qs \<in> set (rp_queues (ap_parser ap)).
        (is_sdma (qs_info qs) \<or> own_packets qs) \<and> registered ap (q_uid (qs_info qs)))"

text \<open>The records that have gone through a sink: all the parser reported but the pending ones.\<close>

definition handed_over :: "App \<Rightarrow> parser_event list" where
  "handed_over ap =
     take (length (rp_out (ap_parser ap)) - length (ap_pending ap)) (rp_out (ap_parser ap))"

definition delivered_so_far :: "App \<Rightarrow> bool" where
  "delivered_so_far ap =
     (rp_out (ap_parser ap) = handed_over ap @ ap_pending ap \<and>
      outputs_have ap (handed_over ap) \<and> log_has ap (handed_over ap) \<and>
      (\<forall>ev \<in> set (ap_pending ap). registered ap (event_uid ev)))"

definition app_ok :: "App \<Rightarrow> bool" where
  "app_ok ap =
     (parser_ok (ap_parser ap) \<and> rp_has_sink (ap_parser ap) \<and> rp_has_sdma_sink (ap_parser ap) \<and>
      queues_known ap \<and> delivered_so_far ap)"

lemma handed_over_eq: "rp_out (ap_parser ap) = evs @ ap_pending ap \<Longrightarrow> handed_over ap = evs"
  by (simp add: handed_over_def)

lemma delivered_so_far_iff:
  "delivered_so_far ap \<longleftrightarrow>
     (\<exists>evs. rp_out (ap_parser ap) = evs @ ap_pending ap \<and> outputs_have ap evs \<and> log_has ap evs \<and>
        (\<forall>ev \<in> set (ap_pending ap). registered ap (event_uid ev)))"
  using handed_over_eq [of ap] by (auto simp: delivered_so_far_def)

text \<open>How a step keeps the delivery: it adds neither reports nor pending records, and loses no record or queue.\<close>

lemma delivered_so_far_frame:
  assumes "delivered_so_far ap" "rp_out (ap_parser ap') = rp_out (ap_parser ap)" "ap_pending ap' = ap_pending ap"
    and "\<And>evs. outputs_have ap evs \<Longrightarrow> outputs_have ap' evs" "\<And>evs. log_has ap evs \<Longrightarrow> log_has ap' evs"
    and "\<And>uid. registered ap uid \<Longrightarrow> registered ap' uid"
  shows "delivered_so_far ap'"
  using assms by (auto simp: delivered_so_far_iff)

lemma app_ok_new: "app_ok (new_App opts dlog hv mode)"
proof -
  have "counted f P (pe_calls (new_PrometheusExporter hv 10 m)) = 0" for f P m
    by (simp add: new_PrometheusExporter_def)
  then show ?thesis
    by (auto simp: app_ok_def delivered_so_far_def handed_over_def new_App_def parser_ok_def new_RingParser_def queues_known_def outputs_have_def
        exporter_has_def writers_have_def writer_has_def new_TraceWriter_def log_has_def split: option.split)
qed

text \<open>A discovered queue is registered with the output before the parser can report on it.\<close>

lemma writers_have_new:
  assumes "writers_have ws evs" "map_of ws uid = None" "writer_has w [] []"
  shows "writers_have (od_assign uid w ws) evs"
proof -
  have ok: "od_ok ws" using assms(1) by (simp add: writers_have_def)
  have seen: "map_of ws (event_uid ev) \<noteq> None" if "ev \<in> set evs" for ev
    using assms(1) that by (simp add: writers_have_def)
  have "filter (\<lambda>r. p_queue_uid r = uid) (dispatches evs) = []"
    using seen assms(2) by (fastforce simp: filter_empty_conv in_dispatches)
  moreover have "filter (\<lambda>r. s_queue_uid r = uid) (copies evs) = []"
    using seen assms(2) by (fastforce simp: filter_empty_conv in_copies)
  ultimately show ?thesis
    using assms ok seen by (auto simp: writers_have_def map_of_assign od_ok_assign)
qed

lemma register_queue_ok:
  assumes "outputs_have ap evs"
  shows "outputs_have (register_queue hv q ap) evs" and "registered (register_queue hv q ap) (q_uid q)"
    and "registered ap uid \<Longrightarrow> registered (register_queue hv q ap) uid"
proof -
  have exporter: "exporter_has (ExporterRegisterQueue hv q e) evs = exporter_has e evs" for e
    by (simp add: exporter_has_def ExporterRegisterQueue_def Let_def split: prod.split)
  have meta: "dom (pe_queue_meta (ExporterRegisterQueue hv q e)) = insert (ucast (q_uid q)) (dom (pe_queue_meta e))" for e
    using dom_queue_meta [of "Op_queue hv q" e] by simp
  have reg: "writer_has (Trace_Writer.RegisterQueue q w) rs ss = writer_has w rs ss" for w rs ss
    by (simp add: writer_has_def Trace_Writer.RegisterQueue_def)
  have fresh: "writer_has (Trace_Writer.RegisterQueue q (new_TraceWriter f)) [] []" for f
    by (simp add: writer_has_def Trace_Writer.RegisterQueue_def new_TraceWriter_def)
  show "outputs_have (register_queue hv q ap) evs"
    using assms exporter reg writers_have_new [OF _ _ fresh]
    by (auto simp: register_queue_def get_writer_def outputs_have_def Let_def split: option.splits)
  have ok: "od_ok (ap_per_queue_writers ap)" if "ap_exporter ap = None" "ap_all_mode ap"
    using assms that by (simp add: outputs_have_def writers_have_def)
  show "registered (register_queue hv q ap) (q_uid q)"
    using assms ok meta
    by (auto simp: register_queue_def get_writer_def registered_def outputs_have_def Let_def map_of_assign
        split: option.splits)
  show "registered ap uid \<Longrightarrow> registered (register_queue hv q ap) uid"
    using ok meta
    by (auto simp: register_queue_def get_writer_def registered_def Let_def map_of_assign split: option.splits)
qed

lemma register_queue_frame [simp]:
  "ap_parser (register_queue hv q ap) = ap_parser ap"
  "ap_dispatch_log (register_queue hv q ap) = ap_dispatch_log ap"
  "ap_queue_count (register_queue hv q ap) = ap_queue_count ap"
  "ap_pending (register_queue hv q ap) = ap_pending ap"
  by (simp_all add: register_queue_def get_writer_def Let_def split: option.split)

lemma remember_queue_frame [simp]:
  "ap_parser (remember_queue q ap) = ap_parser ap" "ap_queue_count (remember_queue q ap) = ap_queue_count ap"
  "ap_dispatch_log (remember_queue q ap) = ap_dispatch_log ap" "ap_pending (remember_queue q ap) = ap_pending ap"
  "outputs_have (remember_queue q ap) evs = outputs_have ap evs"
  "registered (remember_queue q ap) uid = registered ap uid"
  by (simp_all add: remember_queue_def outputs_have_def registered_def split: option.split)

lemma outputs_parser_irrelevant [simp]:
  "outputs_have (ap\<lparr>ap_parser := rp\<rparr>) evs = outputs_have ap evs"
  "registered (ap\<lparr>ap_parser := rp\<rparr>) uid = registered ap uid"
  "outputs_have (ap\<lparr>ap_queue_count := n\<rparr>) evs = outputs_have ap evs"
  "registered (ap\<lparr>ap_queue_count := n\<rparr>) uid = registered ap uid"
  "log_has (ap\<lparr>ap_parser := rp\<rparr>) evs = log_has ap evs"
  "outputs_have (ap\<lparr>ap_pending := evs'\<rparr>) evs = outputs_have ap evs"
  "registered (ap\<lparr>ap_pending := evs'\<rparr>) uid = registered ap uid"
  "log_has (ap\<lparr>ap_pending := evs'\<rparr>) evs = log_has ap evs"
  by (simp_all add: outputs_have_def registered_def log_has_def split: option.split)

lemma accepted_traced: "accepted_queue topology os q = Some q' \<Longrightarrow> is_traced q'"
  by (auto simp: accepted_queue_def Let_def is_traced_def is_aql_def is_sdma_def split: if_splits)

lemma AddQueue_queues:
  "rp_queues (AddQueue q rp) = rp_queues rp \<or>
   (\<exists>qs. rp_queues (AddQueue q rp) = rp_queues rp @ [qs] \<and> qs_info qs = q \<and> own_packets qs)"
  by (auto simp: AddQueue_def Let_def new_QueueState_def own_packets_def)

lemma AddQueue_frame [simp]:
  "rp_out (AddQueue q rp) = rp_out rp" "rp_has_sink (AddQueue q rp) = rp_has_sink rp"
  "rp_has_sdma_sink (AddQueue q rp) = rp_has_sdma_sink rp"
  by (simp_all add: AddQueue_def Let_def)

lemma on_queue_ok:
  assumes "app_ok ap"
  shows "app_ok (on_queue topology os hv q_in ap)"
proof (cases "accepted_queue topology os q_in")
  case None
  then show ?thesis using assms by (simp add: on_queue_def)
next
  case (Some q)
  define ap2 where "ap2 = (remember_queue q ap)\<lparr>ap_dispatch_log :=
      map_option (LogQueue q (if is_sdma q then ''sdma'' else ''aql'')) (ap_dispatch_log ap)\<rparr>"
  let ?ap3 = "register_queue hv q ap2"
  have o: "on_queue topology os hv q_in ap =
      ?ap3\<lparr>ap_parser := AddQueue q (ap_parser ap), ap_queue_count := Suc (ap_queue_count ap)\<rparr>"
    using Some by (simp add: on_queue_def Let_def ap2_def)
  have out2: "outputs_have ap2 evs = outputs_have ap evs" "registered ap2 uid = registered ap uid" for evs uid
    by (simp_all add: ap2_def)
  obtain evs where "outputs_have ap2 evs"
    using assms out2(1) by (auto simp: app_ok_def delivered_so_far_iff)
  note reg = register_queue_ok [OF this, where hv = hv and q = q]
  have "delivered_so_far (on_queue topology os hv q_in ap)"
  proof (rule delivered_so_far_frame [of ap])
    show "outputs_have (on_queue topology os hv q_in ap) evs" if "outputs_have ap evs" for evs
      using register_queue_ok(1) [of ap2 evs] that out2(1) by (simp add: o)
  qed (use assms reg out2(2) in \<open>auto simp: app_ok_def o ap2_def log_has_def LogQueue_def WriteLine_def
         split: option.splits\<close>)
  moreover have "queues_known (on_queue topology os hv q_in ap)"
    using AddQueue_queues [of q "ap_parser ap"] assms reg(2,3) out2(2)
    by (auto simp: queues_known_def app_ok_def o)
  ultimately show ?thesis
    using assms AddQueue_ok [OF _ accepted_traced [OF Some]] by (simp add: app_ok_def o)
qed

lemma poll_step_ok:
  assumes "app_ok ap" "rp_todo (ap_parser ap) = Some (i # rest)" "ap_pending ap = []"
    and "poll_step dm os i rest ap = Some ap'"
  shows "app_ok ap'"
proof -
  let ?rp = "ap_parser ap"
  have ok: "parser_ok ?rp" "rp_has_sink ?rp" "rp_has_sdma_sink ?rp" "queues_known ap" "delivered_so_far ap"
    using assms(1) by (simp_all add: app_ok_def)
  from assms(4) obtain rp' where p: "PollAt dm os i rest ?rp = Some rp'"
    and ap': "ap' = ap\<lparr>ap_parser := rp', ap_pending := drop (length (rp_out ?rp)) (rp_out rp')\<rparr>"
    by (auto simp: poll_step_def split: option.splits)
  have i: "i < length (rp_queues ?rp)" using ok(1) assms(2) by (auto simp: parser_ok_def)
  then have qi: "rp_queues ?rp ! i \<in> set (rp_queues ?rp)" by simp
  obtain c1 qs evs where one: "poll_one dm os (rp_now ?rp) (rp_fd ?rp) (rp_queues ?rp ! i) = Some (c1, qs, evs)"
    and rp': "rp_queues rp' = (rp_queues ?rp)[i := qs]" "rp_out rp' = rp_out ?rp @ evs"
      "rp_has_sink rp' = rp_has_sink ?rp" "rp_has_sdma_sink rp' = rp_has_sdma_sink ?rp"
    using p i ok(2,3) by (auto simp: PollAt_def delivered_def filter_id_conv split: if_splits option.splits parser_event.splits)
  have q: "queue_ok (rp_queues ?rp ! i)" using ok(1) qi by (simp add: parser_ok_def)
  have known: "is_sdma (qs_info (rp_queues ?rp ! i)) \<or> own_packets (rp_queues ?rp ! i)"
      "registered ap (q_uid (qs_info (rp_queues ?rp ! i)))"
    using ok(4) qi by (auto simp: queues_known_def)
  note own = poll_one_own [OF one q known(1)]
  have pend: "ap_pending ap' = evs" "ap_parser ap' = rp'" by (simp_all add: ap' rp'(2))
  have "delivered_so_far ap'"
    using ok(5) assms(3) own known(2) by (auto simp: delivered_so_far_iff pend rp'(2)) (auto simp: ap')
  moreover have "queues_known ap'"
    using ok(4) own known(2) rp'(1) set_update_subset_insert [of "rp_queues ?rp" i qs]
    by (auto simp: queues_known_def ap')
  moreover have "parser_ok (ap_parser ap')"
    using PollAt_ok(2) [OF ok(1) assms(2) p] by (simp add: ap')
  ultimately show ?thesis using ok rp' by (simp add: app_ok_def ap')
qed

lemma deliver_next_ok:
  assumes "app_ok ap" "ap_pending ap = ev # rest"
  shows "app_ok (deliver_next se ev rest ap)"
proof -
  obtain c ap1 where d: "deliver se ev (rp_fd (ap_parser ap)) ap = (c, ap1)" by (rule prod.exhaust)
  have n: "deliver_next se ev rest ap = ap1\<lparr>ap_parser := (ap_parser ap1)\<lparr>rp_fd := c\<rparr>, ap_pending := rest\<rparr>"
    by (simp add: deliver_next_def d)
  obtain evs where evs: "rp_out (ap_parser ap) = evs @ ev # rest" "outputs_have ap evs" "log_has ap evs"
    and reg: "\<forall>e \<in> set (ev # rest). registered ap (event_uid e)"
    using assms by (auto simp: app_ok_def delivered_so_far_iff)
  have r: "registered ap (event_uid ev)" using reg by simp
  note ok = deliver_ok [OF d evs(2) r]
  have "delivered_so_far (deliver_next se ev rest ap)"
    using ok evs reg by (auto simp: delivered_so_far_iff n intro!: exI [of _ "evs @ [ev]"])
  moreover have "parser_ok ((ap_parser ap)\<lparr>rp_fd := c\<rparr>)"
    using assms(1) by (auto simp: app_ok_def parser_ok_def split: option.splits)
  moreover have "queues_known (deliver_next se ev rest ap)"
    using assms(1) ok(2,4) by (auto simp: app_ok_def queues_known_def n)
  ultimately show ?thesis
    using assms(1) ok(4) by (simp add: app_ok_def n)
qed

lemma app_ok_parser_step:
  assumes "app_ok ap" "parser_ok rp" "set (rp_queues rp) \<subseteq> set (rp_queues (ap_parser ap))"
    and "rp_out rp = rp_out (ap_parser ap)" "rp_has_sink rp = rp_has_sink (ap_parser ap)"
    and "rp_has_sdma_sink rp = rp_has_sdma_sink (ap_parser ap)"
  shows "app_ok (ap\<lparr>ap_parser := rp\<rparr>)"
  using assms by (auto simp: app_ok_def queues_known_def delivered_so_far_iff)

lemma log_exporter_irrelevant [simp]: "log_has (ap\<lparr>ap_exporter := x\<rparr>) evs = log_has ap evs"
  by (simp add: log_has_def split: option.split)

text \<open>The steps of the other threads change an output, and nothing the invariant says of it.\<close>

lemma app_ok_frame:
  assumes "app_ok ap" "ap_parser ap' = ap_parser ap" "ap_pending ap' = ap_pending ap"
    and "\<And>evs. outputs_have ap evs \<Longrightarrow> outputs_have ap' evs" "\<And>evs. log_has ap evs \<Longrightarrow> log_has ap' evs"
    and "\<And>uid. registered ap uid \<Longrightarrow> registered ap' uid"
  shows "app_ok ap'"
proof -
  have "delivered_so_far ap'"
    by (rule delivered_so_far_frame [of ap]) (use assms in \<open>simp_all add: app_ok_def\<close>)
  then show ?thesis using assms(1,2,6) by (auto simp: app_ok_def queues_known_def)
qed

lemma app_ok_exporter_map:
  assumes "app_ok ap" "\<And>e evs. exporter_has (f e) evs = exporter_has e evs" "\<And>e. pe_queue_meta (f e) = pe_queue_meta e"
  shows "app_ok (ap\<lparr>ap_exporter := map_option f (ap_exporter ap)\<rparr>)"
  by (rule app_ok_frame [OF assms(1)])
    (auto simp: outputs_have_def registered_def assms(2,3) split: option.splits)

lemma ais_sink_ok:
  assumes "app_ok ap"
  shows "app_ok (ais_sink se r ap)"
proof -
  have "writer_has (Add_ais r w) rs ss = writer_has w rs ss" for w rs ss
    by (simp add: writer_has_def Add_ais_def)
  moreover have "exporter_has (ExporterAddAis (se_host se) r e) evs = exporter_has e evs"
      "pe_queue_meta (ExporterAddAis (se_host se) r e) = pe_queue_meta e" for e evs
    by (auto simp: exporter_has_def ExporterAddAis_def counted_ais_other split: prod.split)
  ultimately show ?thesis
    by (intro app_ok_frame [OF assms])
      (auto simp: ais_sink_def outputs_have_def registered_def log_has_def split: option.splits)
qed

lemma xnack_sink_ok: "app_ok ap \<Longrightarrow> app_ok (xnack_sink r ap)"
  by (erule app_ok_frame)
    (auto simp: xnack_sink_def outputs_have_def registered_def log_has_def exporter_has_def ExporterAddXnack_def
      split: option.splits)

lemma rates_ok:
  assumes "app_ok ap"
  shows "app_ok (ap\<lparr>ap_exporter := map_option (UpdateRateGauges hv now) (ap_exporter ap)\<rparr>)"
  by (rule app_ok_exporter_map [OF assms], simp add: exporter_has_def, simp add: UpdateRateGauges_def Let_def)

lemma armed_ok:
  assumes "app_ok ap"
  shows "app_ok (ap\<lparr>ap_exporter := map_option (SetAisArmed b) (ap_exporter ap)\<rparr>)"
    and "app_ok (ap\<lparr>ap_exporter := map_option (SetXnackArmed b) (ap_exporter ap)\<rparr>)"
  by (rule app_ok_exporter_map [OF assms]; simp add: exporter_has_def SetAisArmed_def SetXnackArmed_def)+

lemma app_step_ok: "app_step dm ap ap' \<Longrightarrow> app_ok ap \<Longrightarrow> app_ok ap'"
proof (induction rule: app_step.induct)
  case (app_snapshot ap now)
  then show ?case by (intro app_ok_parser_step) (auto simp: TakeSnapshot_def app_ok_def parser_ok_def)
next
  case (app_erase ap)
  then show ?case by (intro app_ok_parser_step) (auto simp: EraseEvicted_def app_ok_def parser_ok_def)
qed (simp_all add: on_queue_ok poll_step_ok deliver_next_ok ais_sink_ok xnack_sink_ok rates_ok armed_ok)

lemma app_reachable_ok: "app_reachable dm ap \<Longrightarrow> app_ok ap"
  by (induction rule: app_reachable.induct) (simp_all add: app_ok_new app_step_ok)

text \<open>
  \<^bold>\<open>C1.\<close> Nothing the parser reports is lost, duplicated or misattributed, in any interleaving of
  discovery, polling, the handing over of single records, the monitors and the rate thread, and in every
  mode. The records handed over and those pending are together what the parser reported, in its order. Of
  the records handed over: with the exporter, none ever counts as belonging to an unknown queue, and
  launches and SDMA packets equal them; with \<^verbatim>\<open>--all\<close>, every record is in the trace of its own
  queue, in order; otherwise, all are in the one trace, in order. The dispatch log, when there is one, has
  one line for every queue, dispatch and SDMA packet. Every pending record has an output that knows its
  queue, and the next poll of the parser never faults.
\<close>

theorem every_record_delivered:
  assumes "app_reachable dm ap"
  shows "rp_out (ap_parser ap) = handed_over ap @ ap_pending ap \<and>
    outputs_have ap (handed_over ap) \<and> log_has ap (handed_over ap) \<and>
    (\<forall>ev \<in> set (ap_pending ap). registered ap (event_uid ev)) \<and>
    (\<forall>i rest. rp_todo (ap_parser ap) = Some (i # rest) \<longrightarrow> poll_step dm os i rest ap \<noteq> None)"
proof -
  have ok: "app_ok ap" by (rule app_reachable_ok [OF assms])
  then have "poll_step dm os i rest ap \<noteq> None" if "rp_todo (ap_parser ap) = Some (i # rest)" for i rest
    using PollAt_ok(1) [OF _ that, of dm os] by (auto simp: app_ok_def poll_step_def)
  with ok show ?thesis by (simp add: app_ok_def delivered_so_far_def)
qed

definition no_memory :: os_view where
  "no_memory = \<lparr>os_vm_readv = (\<lambda>_ _ _. None), os_open_mem = (\<lambda>_. - 1), os_pread = (\<lambda>_ _ _. None),
     os_pagemap = (\<lambda>_. None), os_page_size = 4096, os_maps = (\<lambda>_. []), os_alive = (\<lambda>_. False)\<rparr>"

definition sample_app :: App where
  "sample_app = on_queue None no_memory bare_host sample_queue
     (new_App (default_Options\<lparr>opt_all_mode := True, opt_fmt := kJson\<rparr>) (Some 3) bare_host kKprobe)"

lemma sample_app_reachable: "app_reachable dm sample_app"
  unfolding sample_app_def by (rule app_next [OF app_start app_queue])

lemma sample_app_eval:
  "ap_exporter sample_app = None" "ap_all_mode sample_app" "ap_queue_count sample_app = 1"
  "length (ap_per_queue_writers sample_app) = 1"
  by (simp_all add: sample_app_def on_queue_def accepted_queue_def sample_queue_def new_QueueInfo_def
      is_traced_def is_aql_def is_sdma_def new_App_def default_Options_def register_queue_def get_writer_def
      remember_queue_def Let_def)

theorem every_record_delivered_witness:
  "ap_queue_count sample_app = 1 \<and> outputs_have sample_app (handed_over sample_app) \<and>
   log_has sample_app (handed_over sample_app)"
  using every_record_delivered [OF sample_app_reachable [of "\<lambda>_. None"]] by (simp add: sample_app_eval)

end
