(* ===== verification/Main_Properties.thy ===== *)
theory Main_Properties
  imports Delivery
begin

text \<open>
  Which command lines are accepted and how they read back, and which files are written at the end of
  a run.
\<close>

section \<open>The command line\<close>

text \<open>
  \<^bold>\<open>C25.\<close> A command line that passes the checks names exactly one target (all processes, a process, or a
  command), runs as root, has the library its mode needs and a place for its output; any other ends
  with status 1 or 2.
\<close>

theorem accepted_command_line:
  "(case configure prom_build sw opts of
      Inr (mode, opts1) \<Rightarrow>
        sw_euid sw = 0 \<and> (opt_prometheus_mode opts1 \<longrightarrow> prom_build) \<and>
        (mode = kKfdUprobe \<longrightarrow> opt_libhsa_path opts1 \<noteq> []) \<and>
        (mode = kBpftrace \<longrightarrow> opt_librocdxg_path opts1 \<noteq> []) \<and>
        length (filter id [opt_all_mode opts1, opt_pid_filter opts1 \<noteq> 0, opt_child_cmd opts1 \<noteq> []]) = 1 \<and>
        (\<not> opt_prometheus_mode opts1 \<longrightarrow>
           (if opt_all_mode opts1 then opt_out_dir opts1 \<noteq> [] else opt_out opts1 \<noteq> []))
    | Inl status \<Rightarrow> status = 1 \<or> status = 2)"
  by (auto simp: configure_def find_libraries_def scope_error_def default_output_def Let_def
      split: option.split sum.split prod.split if_splits)

definition sample_start :: start_view where
  "sample_start = \<lparr>sw_wsl2 = False, sw_libhsa = [], sw_librocdxg = [], sw_euid = 0\<rparr>"

theorem accepted_command_line_witness:
  "\<exists>opts1. configure False sample_start (default_Options\<lparr>opt_all_mode := True\<rparr>) = Inr (kKprobe, opts1) \<and>
     opt_out_dir opts1 \<noteq> [] \<and> opt_child_cmd opts1 = []"
proof -
  have c: "configure False sample_start (default_Options\<lparr>opt_all_mode := True\<rparr>) =
      Inr (kKprobe, default_Options\<lparr>opt_all_mode := True, opt_out_dir := ''/var/log/hsa-snoop''\<rparr>)"
    by (simp add: configure_def sample_start_def default_Options_def choose_mode_def find_libraries_def
        scope_error_def default_output_def)
  from accepted_command_line [where prom_build = False and sw = sample_start and
      opts = "default_Options\<lparr>opt_all_mode := True\<rparr>"]
  show ?thesis unfolding c by (simp add: default_Options_def)
qed

section \<open>Written traces\<close>

lemma show_dec_inj: "show_dec m = show_dec n \<longleftrightarrow> m = n"
proof
  assume "show_dec m = show_dec n"
  then show "m = n"
    using read_show_radix [of 10 m "[]"] read_show_radix [of 10 n "[]"] by (simp add: show_dec_def)
qed simp

lemma queue_path_inj: "queue_path ap u = queue_path ap v \<longleftrightarrow> u = v"
  by (simp add: queue_path_def show_dec_inj word_unat_eq_iff)

text \<open>The files of a list of results: those with contents.\<close>

definition with_contents :: "(string \<times> string option) list \<Rightarrow> (string \<times> string) list" where
  "with_contents rs = List.map_filter (\<lambda>(path, content). map_option (Pair path) content) rs"

lemma with_contents_simps [simp]:
  "with_contents [] = []"
  "with_contents ((p, c) # rs) = (case c of None \<Rightarrow> with_contents rs | Some x \<Rightarrow> (p, x) # with_contents rs)"
  by (simp_all add: with_contents_def map_filter_def split: option.split)

lemma with_contents_facts:
  "map fst (with_contents rs) = map fst (filter (\<lambda>(_, c). c \<noteq> None) rs)"
  "(p, x) \<in> set (with_contents rs) \<longleftrightarrow> (p, Some x) \<in> set rs"
  "length (with_contents rs) = length rs \<longleftrightarrow> \<not> list_ex (\<lambda>(_, c). c = None) rs"
proof -
  have "map fst (with_contents rs) = map fst (filter (\<lambda>(_, c). c \<noteq> None) rs) \<and>
    ((p, x) \<in> set (with_contents rs) \<longleftrightarrow> (p, Some x) \<in> set rs) \<and> length (with_contents rs) \<le> length rs \<and>
    (length (with_contents rs) = length rs \<longleftrightarrow> \<not> list_ex (\<lambda>(_, c). c = None) rs)"
    by (induction rs) (auto split: option.splits)
  then show "map fst (with_contents rs) = map fst (filter (\<lambda>(_, c). c \<noteq> None) rs)"
    "(p, x) \<in> set (with_contents rs) \<longleftrightarrow> (p, Some x) \<in> set rs"
    "length (with_contents rs) = length rs \<longleftrightarrow> \<not> list_ex (\<lambda>(_, c). c = None) rs" by auto
qed

text \<open>
  \<^bold>\<open>C24.\<close> At the end of a run with \<^verbatim>\<open>--all\<close> every queue's trace goes to a file of its own, no two queues
  share one, and the exit status is 0 exactly when all of them were written.
\<close>

theorem all_mode_files:
  assumes "app_reachable dm ap" "ap_exporter ap = None" "ap_all_mode ap"
    and "finish ov snapshot_path out ap = (status, files)"
  shows "distinct (map fst files) \<and>
    (\<forall>uid w content. map_of (ap_per_queue_writers ap) uid = Some w \<longrightarrow>
       ((queue_path ap uid, content) \<in> set files \<longleftrightarrow> fst (Write (ov_hash ov) (ov_opened ov (queue_path ap uid)) w) = Some content)) \<and>
    (status = 0 \<longleftrightarrow> length files = length (ap_per_queue_writers ap))"
proof -
  let ?ws = "ap_per_queue_writers ap"
  have "app_ok ap" by (rule app_reachable_ok [OF assms(1)])
  then have ok: "od_ok ?ws" using assms(2,3) by (simp add: app_ok_def delivered_so_far_def outputs_have_def writers_have_def)
  let ?rs = "write_all (ov_hash ov) (ov_opened ov) ap"
  have files: "files = with_contents ?rs" and status: "status = (if list_ex (\<lambda>(_, c). c = None) ?rs then 1 else 0)"
    using assms(2-4) by (simp_all add: finish_def with_contents_def Let_def)
  have "map fst ?rs = map (queue_path ap) (keys ?ws)"
    by (simp add: write_all_def keys_def Let_def case_prod_beta)
  then have d: "distinct (map fst ?rs)"
    using od_ok_distinct [OF ok] by (simp add: distinct_map inj_on_def queue_path_inj)
  have "(uid, b) \<in> set ?ws \<longleftrightarrow> map_of ?ws uid = Some b" for uid b
    using od_ok_distinct [OF ok] by (simp add: keys_def)
  moreover have "(queue_path ap uid, x) \<in> set ?rs \<longleftrightarrow>
      (\<exists>b. (uid, b) \<in> set ?ws \<and> x = fst (Write (ov_hash ov) (ov_opened ov (queue_path ap uid)) b))" for uid x
    by (auto simp: write_all_def Let_def queue_path_inj image_iff split: prod.splits)
  ultimately have "(queue_path ap uid, x) \<in> set ?rs \<longleftrightarrow> x = fst (Write (ov_hash ov) (ov_opened ov (queue_path ap uid)) w)"
    if "map_of ?ws uid = Some w" for uid w x
    using that by auto
  moreover have "length ?rs = length ?ws" by (simp add: write_all_def)
  ultimately show ?thesis
    using d with_contents_facts [where rs = ?rs] by (auto simp: files status distinct_map_filter)
qed

definition nothing_opens :: out_view where
  "nothing_opens = \<lparr>ov_hash = (\<lambda>_. 0), ov_opened = (\<lambda>p. False), ov_snapshot = (\<lambda>_. [])\<rparr>"

theorem all_mode_files_witness:
  "fst (finish nothing_opens [] [] sample_app) \<noteq> 0"
proof -
  obtain status files where f: "finish nothing_opens [] [] sample_app = (status, files)"
    by (rule prod.exhaust)
  have "list_ex (\<lambda>(_, c). c = None) (write_all (\<lambda>_. 0) (\<lambda>p. False) sample_app)"
    using sample_app_eval(4)
    by (cases "ap_per_queue_writers sample_app")
      (auto simp: write_all_def Let_def Write_def WriteJson_def WritePerfetto_def split: prod.splits)
  then have "files = with_contents (write_all (\<lambda>_. 0) (\<lambda>p. False) sample_app)"
      "length files \<noteq> length (ap_per_queue_writers sample_app)"
    using f with_contents_facts(3) [of "write_all (\<lambda>_. 0) (\<lambda>p. False) sample_app"]
    by (auto simp: finish_def with_contents_def Let_def sample_app_eval(1,2) write_all_def nothing_opens_def)
  then show ?thesis
    using all_mode_files [OF sample_app_reachable sample_app_eval(1,2) f] f by simp
qed

text \<open>
  What the user is told and what happens differ twice in \<^verbatim>\<open>--all\<close> mode: the announced path is the path
  written only for a task named \<^verbatim>\<open>queue\<close>, and AIS records reach no file at all.
\<close>

theorem all_mode_path_differs:
  "announced_path ap q = queue_path ap (q_uid q) \<longleftrightarrow> q_comm q = ''queue''"
proof -
  have "announced_path ap q = queue_path ap (q_uid q) \<longleftrightarrow> q_comm q @ ''-'' = ''queue'' @ ''-''"
    by (simp add: announced_path_def queue_path_def)
  then show ?thesis by (simp only: append_same_eq)
qed

theorem all_mode_drops_ais:
  "ap_all_mode ap \<Longrightarrow> ap_exporter ap = None \<Longrightarrow> ais_sink se r ap = ap"
  by (simp add: ais_sink_def)

section \<open>Reading the command line back\<close>

text \<open>A command line that sets every option, and what its arguments must satisfy to be written down.\<close>

definition flag_if :: "bool \<Rightarrow> string \<Rightarrow> string list" where
  "flag_if b a = (if b then [a] else [])"

definition render_args :: "Options \<Rightarrow> string list" where
  "render_args opts =
     flag_if (opt_all_mode opts) ''--all'' @ flag_if (opt_prometheus_mode opts) ''--prometheus'' @
     flag_if (opt_ais_mode opts) ''--ais-snoop'' @ flag_if (opt_xnack_mode opts) ''--xnack-snoop'' @
     flag_if (opt_mem_mode opts) ''--mem-snoop'' @
     [''--pid'', show_int (opt_pid_filter opts), ''--poll-us'', show_int (opt_poll_us opts),
      ''--duration'', show_int (opt_duration opts), ''--prometheus-port'', show_dec (unat (opt_prometheus_port opts)),
      ''--prometheus-snapshot'', opt_prometheus_snapshot_path opts, ''--out'', opt_out opts,
      ''--out-dir'', opt_out_dir opts, ''--tracefs'', opt_tracefs opts, ''--mode'', opt_mode_str opts,
      ''--librocdxg'', opt_librocdxg_path opts, ''--libhsa'', opt_libhsa_path opts,
      ''--log-dispatches'', opt_dispatch_log_path opts,
      ''--format'', if opt_fmt opts = kJson then ''json'' else ''perfetto'', ''--''] @ opt_child_cmd opts"

lemma parse_flag:
  "flag_option a opts = Some opts1 \<Longrightarrow> parse_args pb (a # rest) opts = parse_args pb rest opts1"
  by (cases rest) simp_all

lemma parse_flag_rows:
  "parse_args pb (flag_if b ''--all'' @ rest) opts = parse_args pb rest (opts\<lparr>opt_all_mode := b \<or> opt_all_mode opts\<rparr>)"
  "parse_args pb (flag_if b ''--prometheus'' @ rest) opts = parse_args pb rest (opts\<lparr>opt_prometheus_mode := b \<or> opt_prometheus_mode opts\<rparr>)"
  "parse_args pb (flag_if b ''--ais-snoop'' @ rest) opts = parse_args pb rest (opts\<lparr>opt_ais_mode := b \<or> opt_ais_mode opts\<rparr>)"
  "parse_args pb (flag_if b ''--xnack-snoop'' @ rest) opts = parse_args pb rest (opts\<lparr>opt_xnack_mode := b \<or> opt_xnack_mode opts\<rparr>)"
  "parse_args pb (flag_if b ''--mem-snoop'' @ rest) opts = parse_args pb rest (opts\<lparr>opt_mem_mode := b \<or> opt_mem_mode opts\<rparr>)"
  by (simp_all add: flag_if_def parse_flag flag_option_def)

lemma parse_value_rows:
  "parse_args True (''--pid'' # v # rest) opts = parse_args True rest (opts\<lparr>opt_pid_filter := atoi v\<rparr>)"
  "parse_args True (''--poll-us'' # v # rest) opts = parse_args True rest (opts\<lparr>opt_poll_us := atoi v\<rparr>)"
  "parse_args True (''--duration'' # v # rest) opts = parse_args True rest (opts\<lparr>opt_duration := atoi v\<rparr>)"
  "parse_args True (''--prometheus-port'' # v # rest) opts = parse_args True rest (opts\<lparr>opt_prometheus_port := word_of_int (atoi v)\<rparr>)"
  "parse_args True (''--prometheus-snapshot'' # v # rest) opts = parse_args True rest (opts\<lparr>opt_prometheus_snapshot_path := v\<rparr>)"
  "parse_args True (''--out'' # v # rest) opts = parse_args True rest (opts\<lparr>opt_out := v\<rparr>)"
  "parse_args True (''--out-dir'' # v # rest) opts = parse_args True rest (opts\<lparr>opt_out_dir := v\<rparr>)"
  "parse_args True (''--tracefs'' # v # rest) opts = parse_args True rest (opts\<lparr>opt_tracefs := v\<rparr>)"
  "parse_args True (''--mode'' # v # rest) opts = parse_args True rest (opts\<lparr>opt_mode_str := v\<rparr>)"
  "parse_args True (''--librocdxg'' # v # rest) opts = parse_args True rest (opts\<lparr>opt_librocdxg_path := v\<rparr>)"
  "parse_args True (''--libhsa'' # v # rest) opts = parse_args True rest (opts\<lparr>opt_libhsa_path := v\<rparr>)"
  "parse_args True (''--log-dispatches'' # v # rest) opts = parse_args True rest (opts\<lparr>opt_dispatch_log_path := v\<rparr>)"
  "parse_args True (''--format'' # v # rest) opts = parse_args True rest (opts\<lparr>opt_fmt := (if v = ''json'' then kJson else kPerfetto)\<rparr>)"
  by (simp_all add: value_option_def flag_option_def)

lemma parse_command: "parse_args pb (''--'' # xs) opts = Inr (opts\<lparr>opt_child_cmd := opt_child_cmd opts @ xs\<rparr>)"
  by (cases xs) (simp_all add: flag_option_def value_option_def last_branches_def)

lemma fmt_of_text: "(if (if f = kJson then ''json'' else ''perfetto'') = ''json'' then kJson else kPerfetto) = f"
  by (cases f) simp_all

lemma to_c_int_of_int: "- (2 ^ 31) \<le> i \<Longrightarrow> i < 2 ^ 31 \<Longrightarrow> to_c_int (word_of_int i) = i"
proof -
  assume i: "- (2 ^ 31) \<le> i" "i < 2 ^ 31"
  have "(ucast (word_of_int i :: u64) :: u32) = word_of_int i"
    by (rule bit_word_eqI) (simp add: bit_simps)
  moreover have "sint (word_of_int i :: u32) = i"
    using i by transfer (simp add: signed_take_bit_int_eq_self)
  ultimately show ?thesis by (simp add: to_c_int_def)
qed

lemma atoi_show_int:
  assumes "- (2 ^ 31) \<le> i" "i < 2 ^ 31"
  shows "atoi (show_int i) = i"
proof -
  have digits: "read_digits 10 0 (show_radix 10 n) = (n, [])" for n
    using read_show_radix [of 10 n "[]"] by simp
  have sign: "take_sign (dropWhile c_isspace (show_int i)) = (i < 0, show_radix 10 (nat \<bar>i\<bar>))"
    using show_radix_plain [of 10 "nat i" "[]"]
    by (simp add: show_int_def show_dec_def c_isspace_def)
  have "to_c_int (word_of_int i) = i" using assms by (rule to_c_int_of_int)
  then show ?thesis
    using assms by (cases "i < 0") (simp_all add: atoi_def sign digits)
qed

lemma port_round: "word_of_int (atoi (show_dec (unat (p :: u16)))) = p"
proof -
  have "unat p < 65536" using unat_bound [of p] by simp
  then have "int (unat p) < 65536" by linarith
  also have "(65536 :: int) < 2 ^ 31" by simp
  finally have hi: "int (unat p) < 2 ^ 31" .
  have lo: "- (2 ^ 31) \<le> int (unat p)" by (rule order_trans [of _ 0]) simp_all
  from atoi_show_int [OF lo hi] have "atoi (show_int (int (unat p))) = int (unat p)" .
  then have "atoi (show_dec (unat p)) = int (unat p)" by (simp add: show_int_def)
  then show ?thesis by simp
qed

text \<open>
  \<^bold>\<open>C29.\<close> Every setting of the options can be given on the command line and is read back exactly: no
  option shadows another, values may look like options, and what follows \<^verbatim>\<open>--\<close> is left alone. Only
  the three numbers must fit an \<^verbatim>\<open>int\<close>.
\<close>

theorem options_read_back:
  assumes "\<forall>i \<in> {opt_pid_filter opts, opt_poll_us opts, opt_duration opts}. - (2 ^ 31) \<le> i \<and> i < 2 ^ 31"
  shows "parse_args True (render_args opts) default_Options = Inr opts"
proof -
  have n: "atoi (show_int (opt_pid_filter opts)) = opt_pid_filter opts"
    "atoi (show_int (opt_poll_us opts)) = opt_poll_us opts"
    "atoi (show_int (opt_duration opts)) = opt_duration opts"
    using assms by (simp_all add: atoi_show_int)
  show ?thesis
    unfolding render_args_def append_Cons append_Nil parse_flag_rows parse_value_rows parse_command
      n port_round fmt_of_text
    by (cases opts) (simp add: default_Options_def)
qed

theorem options_read_back_witness:
  "parse_args True (render_args (default_Options\<lparr>opt_pid_filter := 42, opt_out := ''--all''\<rparr>)) default_Options =
     Inr (default_Options\<lparr>opt_pid_filter := 42, opt_out := ''--all''\<rparr>)"
  by (rule options_read_back) (simp add: default_Options_def)

end
