(* ===== verification/Launch.thy ===== *)
theory Launch
  imports Snoop_Main
begin

text \<open>
  The rest of \<^verbatim>\<open>main\<close> in \<^verbatim>\<open>src/main.cpp\<close>: the child that runs the traced command, with the
  environment and the credentials it is given, and the course of the run around it: fork, wait for
  the stop, start discovery, resume, wait, stop everything.
\<close>

section \<open>The child\<close>

type_synonym environment = "string \<rightharpoonup> string"

text \<open>
  When the exporter is made and the KFD topology does not name the GPU, rocminfo is run, and the
  environment it needs is set in the process itself: the command started later inherits it.
\<close>

definition rocminfo_env :: "environment \<Rightarrow> environment" where
  "rocminfo_env env =
     (case env ''SUDO_UID'' of
        Some uid \<Rightarrow> env(''XDG_RUNTIME_DIR'' \<mapsto> take 63 (''/run/user/'' @ uid), ''HSA_ENABLE_DXG_DETECTION'' \<mapsto> ''1'')
      | None \<Rightarrow> env)"

definition env_at_fork :: "App \<Rightarrow> environment \<Rightarrow> environment" where
  "env_at_fork ap env =
     (case Option.bind (ap_exporter ap) pe_rocminfo of Some _ \<Rightarrow> rocminfo_env env | None \<Rightarrow> env)"

record credentials =
  cr_uid :: u32
  cr_gid :: u32
  cr_groups :: "u32 list"

definition drops_privileges :: "DiscoveryMode \<Rightarrow> environment \<Rightarrow> bool" where
  "drops_privileges mode env = (mode = kBpftrace \<and> env ''SUDO_UID'' \<noteq> None \<and> env ''SUDO_GID'' \<noteq> None)"

definition run_ids :: "DiscoveryMode \<Rightarrow> environment \<Rightarrow> credentials \<Rightarrow> u32 \<times> u32" where
  "run_ids mode env cr =
     (if drops_privileges mode env
      then (word_of_int (atoi (the (env ''SUDO_UID''))), word_of_int (atoi (the (env ''SUDO_GID''))))
      else (cr_uid cr, cr_gid cr))"

text \<open>\<^verbatim>\<open>setenv\<close> with \<^verbatim>\<open>overwrite\<close> 0, as the child uses it throughout.\<close>

definition setenv_new :: "string \<Rightarrow> string \<Rightarrow> environment \<Rightarrow> environment" where
  "setenv_new k v env = (if env k = None then env(k \<mapsto> v) else env)"

definition child_env :: "DiscoveryMode \<Rightarrow> u32 \<Rightarrow> environment \<Rightarrow> environment" where
  "child_env mode run_uid env =
     (if mode = kBpftrace then
        let env1 = setenv_new ''LD_LIBRARY_PATH'' ''/opt/rocm/lib:/usr/lib/wsl/lib'' env;
            env2 = setenv_new ''HSA_ENABLE_DXG_DETECTION'' ''1'' env1
        in if run_uid \<noteq> 0
           then setenv_new ''XDG_RUNTIME_DIR'' (''/run/user/'' @ show_dec (unat run_uid)) env2
           else env2
      else env)"

text \<open>
  The outcomes of the calls: the groups \<^verbatim>\<open>initgroups\<close> sets (\<open>None\<close>: it fails), whether the others
  succeed. The result of \<^verbatim>\<open>setgroups\<close> is not looked at.
\<close>

record id_calls =
  ic_initgroups :: "string \<Rightarrow> u32 \<Rightarrow> u32 list option"
  ic_setgroups :: bool
  ic_setgid :: bool
  ic_setuid :: bool

definition child_groups :: "id_calls \<Rightarrow> string option \<Rightarrow> u32 \<Rightarrow> u32 list \<Rightarrow> u32 list" where
  "child_groups ic sudo_user run_gid groups =
     (case sudo_user of
        None \<Rightarrow> groups
      | Some user \<Rightarrow>
          (case ic_initgroups ic user run_gid of
             Some gs \<Rightarrow> gs
           | None \<Rightarrow> if ic_setgroups ic then [] else groups))"

definition child_credentials ::
  "id_calls \<Rightarrow> string option \<Rightarrow> u32 \<Rightarrow> u32 \<Rightarrow> credentials \<Rightarrow> credentials option"
where
  "child_credentials ic sudo_user run_uid run_gid cr =
     (if ic_setgid ic \<and> ic_setuid ic
      then Some \<lparr>cr_uid = run_uid, cr_gid = run_gid,
                 cr_groups = child_groups ic sudo_user run_gid (cr_groups cr)\<rparr>
      else None)"

text \<open>
  The child after it is resumed: \<open>Inr\<close> is the command started, with its environment and
  credentials, \<open>Inl\<close> the status it exits with.
\<close>

definition child_main ::
  "DiscoveryMode \<Rightarrow> id_calls \<Rightarrow> bool \<Rightarrow> environment \<Rightarrow> credentials \<Rightarrow> c_int + environment \<times> credentials"
where
  "child_main mode ic exec_ok env cr =
     (case run_ids mode env cr of (run_uid, run_gid) \<Rightarrow>
        let env1 = child_env mode run_uid env;
            cr1 = (if drops_privileges mode env
                   then child_credentials ic (env1 ''SUDO_USER'') run_uid run_gid cr else Some cr)
        in (case cr1 of
              None \<Rightarrow> Inl 1
            | Some c \<Rightarrow> if exec_ok then Inr (env1, c) else Inl 127))"

section \<open>The course of a run\<close>

text \<open>
  What the parent does to its child and to the components, in order. A wait either was interrupted,
  saw the child stopped, or saw something else; the loop of \<^verbatim>\<open>main\<close> sees every 50 ms whether a signal
  came, whether the child has ended, and the seconds since the start.
\<close>

datatype tool_call =
    Fork | Kill_child | Reap_child | Continue_child | Start_discovery
  | Stop_discovery | Stop_parser | Stop_ais_monitor | Stop_xnack_monitor

datatype wait_result = Interrupted | Stopped | Other_result

record tick =
  tk_signal :: bool
  tk_child_ended :: bool
  tk_elapsed :: seconds

fun wait_stopped :: "wait_result list \<Rightarrow> bool option" where
  "wait_stopped [] = None"
| "wait_stopped (Interrupted # ws) = wait_stopped ws"
| "wait_stopped (Stopped # ws) = Some True"
| "wait_stopped (Other_result # ws) = Some False"

text \<open>
  One tick: the signal flag is read first, then the pause, the child, the time. \<open>False\<close>: the ticks
  ran out before the loop ended.
\<close>

fun wait_loop :: "bool \<Rightarrow> c_int \<Rightarrow> tick list \<Rightarrow> bool" where
  "wait_loop has_child duration [] = False"
| "wait_loop has_child duration (t # ts) =
     (if tk_signal t then True
      else if has_child \<and> tk_child_ended t then True
      else if 0 < duration \<and> of_int duration \<le> tk_elapsed t then True
      else wait_loop has_child duration ts)"

record run_view =
  rv_fork :: c_int
  rv_waits :: "wait_result list"
  rv_discovery_ok :: bool
  rv_ticks :: "tick list"
  rv_has_ais :: bool
  rv_has_xnack :: bool

definition stop_calls :: "run_view \<Rightarrow> tool_call list" where
  "stop_calls rv =
     [Stop_discovery, Stop_parser] @ (if rv_has_ais rv then [Stop_ais_monitor] else []) @
     (if rv_has_xnack rv then [Stop_xnack_monitor] else [])"

text \<open>After the child, if any, is known to be stopped.\<close>

definition run_traced :: "bool \<Rightarrow> c_int \<Rightarrow> run_view \<Rightarrow> (tool_call list \<times> c_int option) option" where
  "run_traced has_child duration rv =
     (if \<not> rv_discovery_ok rv
      then Some ([Start_discovery] @ (if has_child then [Kill_child, Reap_child] else []), Some 1)
      else if wait_loop has_child duration (rv_ticks rv)
      then Some ([Start_discovery] @ (if has_child then [Continue_child] else []) @ stop_calls rv, None)
      else None)"

text \<open>
  The whole run: the calls made and, for an early return, the exit status; \<open>None\<close> while it still
  waits. A run without early return goes on to write the traces.
\<close>

definition run_tool :: "bool \<Rightarrow> c_int \<Rightarrow> run_view \<Rightarrow> (tool_call list \<times> c_int option) option" where
  "run_tool has_cmd duration rv =
     (if \<not> has_cmd then run_traced False duration rv
      else if rv_fork rv < 0 then Some ([Fork], Some 1)
      else
        (case wait_stopped (rv_waits rv) of
           None \<Rightarrow> None
         | Some False \<Rightarrow> Some ([Fork, Kill_child, Reap_child], Some 1)
         | Some True \<Rightarrow>
             map_option (\<lambda>(calls, status). (Fork # calls, status)) (run_traced True duration rv)))"

text \<open>The process discovery is limited to: the child, when there is one.\<close>

definition pid_scope :: "Options \<Rightarrow> run_view \<Rightarrow> c_int" where
  "pid_scope opts rv = (if opt_child_cmd opts \<noteq> [] then rv_fork rv else opt_pid_filter opts)"

section \<open>The whole program\<close>

text \<open>
  \<open>evolve\<close> is what the threads do to the shared state between start-up and the last stop. The result is
  the exit status; \<open>None\<close> while the program still waits. A monitor is there to be stopped when it was
  asked for and could be started.
\<close>

definition observed_run :: "Options \<Rightarrow> run_view \<Rightarrow> run_view" where
  "observed_run opts rv =
     rv\<lparr>rv_has_ais := opt_ais_mode opts \<and> rv_has_ais rv, rv_has_xnack := opt_xnack_mode opts \<and> rv_has_xnack rv\<rparr>"

definition main_run ::
  "start_outcome \<Rightarrow> run_view \<Rightarrow> (App \<Rightarrow> App) \<Rightarrow> out_view \<Rightarrow> DiscoveryMode \<Rightarrow> Options \<Rightarrow> c_int option"
where
  "main_run so rv evolve ov mode opts =
     (case start_up so mode opts of
        Inl e \<Rightarrow> Some e
      | Inr ap \<Rightarrow>
          (case run_tool (opt_child_cmd opts \<noteq> []) (opt_duration opts) (observed_run opts rv) of
             None \<Rightarrow> None
           | Some (calls, Some e) \<Rightarrow> Some e
           | Some (calls, None) \<Rightarrow> Some (fst (finish ov (opt_prometheus_snapshot_path opts) (opt_out opts) (evolve ap)))))"

definition main_status ::
  "bool \<Rightarrow> start_view \<Rightarrow> start_outcome \<Rightarrow> run_view \<Rightarrow> (App \<Rightarrow> App) \<Rightarrow> out_view \<Rightarrow> string list \<Rightarrow> c_int option"
where
  "main_status prom_build sw so rv evolve ov args =
     (case parse_args prom_build args default_Options of
        Inl e \<Rightarrow> Some e
      | Inr opts \<Rightarrow>
          (case configure prom_build sw opts of
             Inl e \<Rightarrow> Some e
           | Inr (mode, opts1) \<Rightarrow> main_run so rv evolve ov mode opts1))"

end
