(* ===== verification/Launch_Properties.thy ===== *)
theory Launch_Properties
  imports Launch Exporter_Properties
begin

text \<open>
  What a run does to the traced command: it is resumed or killed, runs with the caller's
  credentials, and the run around it ends; and what the exit status of the program says.
\<close>

section \<open>The course of a run\<close>




text \<open>
  A child that was forked never stays stopped. A run that goes on to write its traces resumed it
  exactly once, after discovery was started and before anything was stopped, and did not kill it; a
  run that returns early never resumed it, and ended by killing and reaping it.
\<close>

theorem child_resumed_or_killed:
  assumes "run_tool True duration rv = Some (calls, status)" "0 \<le> rv_fork rv"
  shows "(case status of
      None \<Rightarrow> calls = [Fork, Start_discovery, Continue_child] @ stop_calls rv
    | Some e \<Rightarrow> e = 1 \<and> Continue_child \<notin> set calls \<and> (\<exists>before. calls = before @ [Kill_child, Reap_child]))"
  using assms
  by (auto simp: run_tool_def run_traced_def split: option.splits bool.splits if_splits)


section \<open>Credentials\<close>



text \<open>
  Without \<^verbatim>\<open>SUDO_USER\<close> in the environment the command starts as the calling user, but keeps all the
  supplementary groups of root: neither \<^verbatim>\<open>initgroups\<close> nor \<^verbatim>\<open>setgroups\<close> is called.
\<close>

theorem launch_keeps_root_groups:
  assumes "drops_privileges mode env" "env ''SUDO_USER'' = None"
    and "child_main mode ic exec_ok env cr = Inr (env', cr')"
  shows "cr_groups cr' = cr_groups cr"
proof -
  have "child_env mode uid env ''SUDO_USER'' = env ''SUDO_USER''" for uid
    by (simp add: child_env_def setenv_new_def Let_def)
  with assms show ?thesis
    by (auto simp: child_main_def run_ids_def child_credentials_def child_groups_def Let_def
        split: if_splits)
qed

section \<open>The exit status\<close>

text \<open>What no step changes: the mode, and which of the three outputs is in use.\<close>

definition same_outputs :: "App \<Rightarrow> App \<Rightarrow> bool" where
  "same_outputs ap ap' =
     (ap_all_mode ap' = ap_all_mode ap \<and> (ap_exporter ap' = None) = (ap_exporter ap = None) \<and>
      (ap_single_writer ap' = None) = (ap_single_writer ap = None))"

lemma same_outputs_trans: "same_outputs ap1 ap2 \<Longrightarrow> same_outputs ap2 ap3 \<Longrightarrow> same_outputs ap1 ap3"
  by (simp add: same_outputs_def)

lemma deliver_same: "deliver se ev c ap = (c1, ap1) \<Longrightarrow> same_outputs ap ap1"
  by (cases ev)
    (auto simp: same_outputs_def packet_sink_def mem_snoop_def emit_mem_def log_dispatch_def route_packet_def
      sdma_sink_def route_sdma_def log_sdma_def to_writer_def split: prod.splits option.splits if_splits)

lemma on_queue_same: "same_outputs ap (on_queue topology os hv q ap)"
  by (simp add: same_outputs_def on_queue_def remember_queue_def register_queue_def get_writer_def Let_def
      split: option.split)

lemma app_step_same: "app_step dm ap ap' \<Longrightarrow> same_outputs ap ap'"
proof (induction rule: app_step.induct)
  case (app_poll ap i rest os ap')
  then show ?case by (auto simp: poll_step_def same_outputs_def split: option.splits)
next
  case (app_deliver ap ev rest se)
  then show ?case
    by (auto simp: deliver_next_def same_outputs_def split: prod.split dest!: deliver_same)
qed (simp_all add: on_queue_same, auto simp: same_outputs_def ais_sink_def xnack_sink_def split: option.split)

lemma app_steps_same: "(app_step dm)\<^sup>*\<^sup>* ap ap' \<Longrightarrow> same_outputs ap ap'"
  by (induction rule: rtranclp_induct) (auto simp: same_outputs_def dest: app_step_same)

text \<open>The paths the end of a run has to write.\<close>

definition output_paths :: "Options \<Rightarrow> App \<Rightarrow> string list" where
  "output_paths opts ap =
     (if opt_prometheus_mode opts then []
      else if opt_all_mode opts then map (queue_path ap) (keys (ap_per_queue_writers ap))
      else [opt_out opts])"

lemma Write_opens: "(fst (Write hash b w) = None) = (\<not> b)"
  by (simp add: Write_def WriteJson_def WritePerfetto_def Let_def split: prod.split)

lemma Write_opened: "fst (Write hash b w) = Some content \<Longrightarrow> b"
  using Write_opens [of hash b w] by simp

lemma finish_status:
  assumes "same_outputs (new_App opts dlog hv mode) ap"
  shows "fst (finish ov snapshot_path (opt_out opts) ap) = 0 \<longleftrightarrow> list_all (ov_opened ov) (output_paths opts ap)"
proof (cases "opt_prometheus_mode opts \<or> \<not> opt_all_mode opts")
  case True
  have "ap_single_writer ap \<noteq> None" if "\<not> opt_prometheus_mode opts"
    using that True assms by (simp add: same_outputs_def new_App_def)
  then show ?thesis
    using True assms
    by (auto simp: finish_def Let_def output_paths_def same_outputs_def new_App_def Write_opens
        split: option.split dest: Write_opened)
next
  case False
  have "list_ex (\<lambda>(_, content). content = None) (write_all hash opened ap) \<longleftrightarrow>
      \<not> list_all opened (map (queue_path ap) (keys (ap_per_queue_writers ap)))" for hash opened
    by (simp add: write_all_def keys_def list_ex_iff list_all_iff Let_def Write_opens case_prod_beta)
  with False assms show ?thesis
    by (simp add: finish_def Let_def output_paths_def same_outputs_def new_App_def)
qed

lemma configure_status: "configure prom_build sw opts = Inl e \<Longrightarrow> e \<noteq> 0"
  by (auto simp: configure_def find_libraries_def split: option.splits sum.splits if_splits)

lemma start_up_cases:
  "start_up so mode opts = Inl e \<Longrightarrow> e = 1"
  "start_up so mode opts = Inr ap \<Longrightarrow> \<exists>dlog. ap = new_App opts dlog (so_host so) mode"
  by (auto simp: start_up_def Let_def split: if_splits)

lemma run_tool_status: "run_tool has_cmd duration rv = Some (calls, Some e) \<Longrightarrow> e = 1"
  by (auto simp: run_tool_def run_traced_def split: option.splits bool.splits if_splits)

lemma main_run_status:
  assumes "\<And>ap. (app_step dm)\<^sup>*\<^sup>* ap (evolve ap)"
  shows "main_run so rv evolve ov mode opts = Some 0 \<longleftrightarrow>
    (\<exists>ap calls. start_up so mode opts = Inr ap \<and>
       run_tool (opt_child_cmd opts \<noteq> []) (opt_duration opts) (observed_run opts rv) = Some (calls, None) \<and>
       list_all (ov_opened ov) (output_paths opts (evolve ap)))"
proof (cases "start_up so mode opts")
  case (Inl e)
  then show ?thesis using start_up_cases(1) [OF Inl] by (simp add: main_run_def)
next
  case (Inr ap)
  from start_up_cases(2) [OF Inr] assms [of ap]
  have "fst (finish ov sp (opt_out opts) (evolve ap)) = 0 \<longleftrightarrow> list_all (ov_opened ov) (output_paths opts (evolve ap))" for sp
    using finish_status app_steps_same by metis
  with Inr show ?thesis
    by (auto simp: main_run_def split: option.splits dest: run_tool_status)
qed

text \<open>
  C26: the program exits with status 0 only when it was asked for its usage, or when it went through a whole
  run and could open every file its mode has to write, one for each queue with \<^verbatim>\<open>--all\<close>; and then
  it always does. In particular the single writer is never missing at the end. This holds for every
  command line, every outcome of the system calls, and every interleaving of the threads.
\<close>

theorem exit_status:
  assumes "\<And>ap. (app_step dm)\<^sup>*\<^sup>* ap (evolve ap)"
  shows "main_status prom_build sw so rv evolve ov args = Some 0 \<longleftrightarrow>
    parse_args prom_build args default_Options = Inl 0 \<or>
    (\<exists>opts mode opts' ap calls.
       parse_args prom_build args default_Options = Inr opts \<and> configure prom_build sw opts = Inr (mode, opts') \<and>
       start_up so mode opts' = Inr ap \<and>
       run_tool (opt_child_cmd opts' \<noteq> []) (opt_duration opts') (observed_run opts' rv) = Some (calls, None) \<and>
       list_all (ov_opened ov) (output_paths opts' (evolve ap)))"
proof (cases "parse_args prom_build args default_Options")
  case (Inr opts)
  then show ?thesis
    using configure_status [of prom_build sw opts] main_run_status [OF assms]
    by (cases "configure prom_build sw opts") (auto simp: main_status_def)
qed (auto simp: main_status_def)

section \<open>Witnesses\<close>

definition sample_run :: run_view where
  "sample_run = \<lparr>rv_fork = 77, rv_waits = [Interrupted, Stopped], rv_discovery_ok = True,
     rv_ticks = [\<lparr>tk_signal = False, tk_child_ended = False, tk_elapsed = 1\<rparr>,
       \<lparr>tk_signal = False, tk_child_ended = True, tk_elapsed = 2\<rparr>],
     rv_has_ais = True, rv_has_xnack = False\<rparr>"

theorem child_resumed_or_killed_witness:
  "run_tool True 0 sample_run =
     Some ([Fork, Start_discovery, Continue_child, Stop_discovery, Stop_parser, Stop_ais_monitor], None)"
proof -
  obtain calls where r: "run_tool True 0 sample_run = Some (calls, None)"
    by (simp add: run_tool_def run_traced_def sample_run_def)
  have "0 \<le> rv_fork sample_run" by (simp add: sample_run_def)
  from child_resumed_or_killed [OF r this] r show ?thesis by (simp add: stop_calls_def sample_run_def)
qed






definition sample_start :: start_outcome where
  "sample_start = \<lparr>so_can_append = (\<lambda>_. True), so_realtime = 100, so_monotonic = 40, so_endpoint = True, so_host = bare_host\<rparr>"

definition sample_view :: start_view where
  "sample_view = \<lparr>sw_wsl2 = False, sw_libhsa = [], sw_librocdxg = [], sw_euid = 0\<rparr>"

definition read_only :: out_view where
  "read_only = \<lparr>ov_hash = (\<lambda>_. 0), ov_opened = (\<lambda>path. path = ''hsa-snoop.pftrace''), ov_snapshot = (\<lambda>_. [])\<rparr>"

theorem exit_status_witness:
  "main_status False sample_view sample_start sample_run id read_only [''--'', ''ls''] = Some 0 \<and>
   main_status False sample_view sample_start sample_run id read_only [''--out'', ''t'', ''--'', ''ls''] \<noteq> Some 0"
proof -
  have steps: "(app_step (\<lambda>_. None))\<^sup>*\<^sup>* ap (id ap)" for ap by simp
  note opts = flag_option_def value_option_def last_branches_def default_Options_def configure_def choose_mode_def
    find_libraries_def scope_error_def default_output_def sample_view_def
  have run: "run_tool True 0 (observed_run opts sample_run) =
      Some ([Fork, Start_discovery, Continue_child] @ stop_calls (observed_run opts sample_run), None)" for opts
    by (simp add: run_tool_def run_traced_def sample_run_def observed_run_def)
  show ?thesis
    unfolding exit_status [OF steps]
    by (simp add: opts start_up_def sample_start_def run output_paths_def read_only_def)
qed

end
